theory Spec2Isabelle
  imports Complex_Main
begin

section \<open>JavaScript values\<close>

text \<open>
  A JavaScript number is a finite value, one of the two infinities, or NaN. Finite
  doubles are embedded in the reals: the code below only compares numbers and, in the
  centring arithmetic, multiplies and subtracts them; rounding and the sign of zero are
  not modelled.
\<close>

datatype number = Finite real | PosInfinity | NegInfinity | NaN

text \<open>The relational operators: every comparison with NaN is false.\<close>

fun num_lt :: "number \<Rightarrow> number \<Rightarrow> bool" where
  "num_lt (Finite a) (Finite b) = (a < b)"
| "num_lt (Finite a) PosInfinity = True"
| "num_lt NegInfinity (Finite b) = True"
| "num_lt NegInfinity PosInfinity = True"
| "num_lt _ _ = False"

definition num_gt :: "number \<Rightarrow> number \<Rightarrow> bool" where
  "num_gt a b = num_lt b a"

definition num_ge :: "number \<Rightarrow> number \<Rightarrow> bool" where
  "num_ge a b = (a \<noteq> NaN \<and> b \<noteq> NaN \<and> \<not> num_lt a b)"

definition num_le :: "number \<Rightarrow> number \<Rightarrow> bool" where
  "num_le a b = num_ge b a"

text \<open>Strict equality on numbers: NaN is not equal to itself.\<close>

definition num_eq :: "number \<Rightarrow> number \<Rightarrow> bool" where
  "num_eq a b = (a \<noteq> NaN \<and> a = b)"

fun num_plus :: "number \<Rightarrow> number \<Rightarrow> number" where
  "num_plus (Finite a) (Finite b) = Finite (a + b)"
| "num_plus NaN _ = NaN"
| "num_plus _ NaN = NaN"
| "num_plus PosInfinity NegInfinity = NaN"
| "num_plus NegInfinity PosInfinity = NaN"
| "num_plus PosInfinity _ = PosInfinity"
| "num_plus _ PosInfinity = PosInfinity"
| "num_plus NegInfinity _ = NegInfinity"
| "num_plus _ NegInfinity = NegInfinity"

fun num_neg :: "number \<Rightarrow> number" where
  "num_neg (Finite a) = Finite (- a)"
| "num_neg PosInfinity = NegInfinity"
| "num_neg NegInfinity = PosInfinity"
| "num_neg NaN = NaN"

definition num_minus :: "number \<Rightarrow> number \<Rightarrow> number" where
  "num_minus a b = num_plus a (num_neg b)"

fun num_times :: "number \<Rightarrow> number \<Rightarrow> number" where
  "num_times (Finite a) (Finite b) = Finite (a * b)"
| "num_times NaN _ = NaN"
| "num_times _ NaN = NaN"
| "num_times (Finite a) PosInfinity =
     (if a = 0 then NaN else if 0 < a then PosInfinity else NegInfinity)"
| "num_times (Finite a) NegInfinity =
     (if a = 0 then NaN else if 0 < a then NegInfinity else PosInfinity)"
| "num_times PosInfinity (Finite b) =
     (if b = 0 then NaN else if 0 < b then PosInfinity else NegInfinity)"
| "num_times NegInfinity (Finite b) =
     (if b = 0 then NaN else if 0 < b then NegInfinity else PosInfinity)"
| "num_times PosInfinity PosInfinity = PosInfinity"
| "num_times NegInfinity NegInfinity = PosInfinity"
| "num_times PosInfinity NegInfinity = NegInfinity"
| "num_times NegInfinity PosInfinity = NegInfinity"

text \<open>
  The values the code handles: undefined, null, booleans, numbers, strings and
  references to functions (named by the method they refer to).
\<close>

datatype jsval =
    JUndefined
  | JNull
  | JBool bool
  | JNum number
  | JStr string
  | JFun string

datatype jstype = TUndefined | TObject | TBoolean | TNumber | TString | TFunction

fun typeof :: "jsval \<Rightarrow> jstype" where
  "typeof JUndefined = TUndefined"
| "typeof JNull = TObject"
| "typeof (JBool _) = TBoolean"
| "typeof (JNum _) = TNumber"
| "typeof (JStr _) = TString"
| "typeof (JFun _) = TFunction"

text \<open>\<open>Number.isNaN\<close>: true for the number NaN only, without conversion.\<close>

fun Number_isNaN :: "jsval \<Rightarrow> bool" where
  "Number_isNaN (JNum NaN) = True"
| "Number_isNaN _ = False"

text \<open>Strict equality \<open>===\<close> and its negation \<open>!==\<close>.\<close>

fun strict_eq :: "jsval \<Rightarrow> jsval \<Rightarrow> bool" where
  "strict_eq (JNum a) (JNum b) = num_eq a b"
| "strict_eq a b = (a = b)"

definition strict_neq :: "jsval \<Rightarrow> jsval \<Rightarrow> bool" where
  "strict_neq a b = (\<not> strict_eq a b)"

text \<open>Truthiness, as \<open>if (v)\<close>, \<open>!v\<close> and \<open>c ? a : b\<close> read a value.\<close>

fun truthy :: "jsval \<Rightarrow> bool" where
  "truthy JUndefined = False"
| "truthy JNull = False"
| "truthy (JBool b) = b"
| "truthy (JNum (Finite r)) = (r \<noteq> 0)"
| "truthy (JNum NaN) = False"
| "truthy (JNum _) = True"
| "truthy (JStr s) = (s \<noteq> [])"
| "truthy (JFun _) = True"

text \<open>The nullish coalescing operator \<open>a ?? b\<close>.\<close>

fun nullish :: "jsval \<Rightarrow> jsval \<Rightarrow> jsval" where
  "nullish JUndefined b = b"
| "nullish JNull b = b"
| "nullish a b = a"

text \<open>
  The number a value is when it is one; the code only reads it from values whose
  \<open>typeof\<close> is \<open>number\<close>.
\<close>

fun the_number :: "jsval \<Rightarrow> number" where
  "the_number (JNum n) = n"
| "the_number _ = NaN"

text \<open>
  The platform functions the code calls on strings and numbers are parameters of the
  model: \<open>parseFloat\<close>, \<open>Number.prototype.toString\<close> and \<open>String.prototype.trim\<close>.
\<close>

record builtins =
  parseFloat :: "string \<Rightarrow> number"
  numberToString :: "number \<Rightarrow> string"
  trim :: "string \<Rightarrow> string"

text \<open>
  A thrown exception: an \<open>Error\<close> the code throws, with its message, or the
  \<open>TypeError\<close> of reading a property of null or undefined.
\<close>

datatype error = Error string | TypeError string

definition bindE :: "error + 'a \<Rightarrow> ('a \<Rightarrow> error + 'b) \<Rightarrow> error + 'b" where
  "bindE m f = (case m of Inl e \<Rightarrow> Inl e | Inr x \<Rightarrow> f x)"

section \<open>services/util.js: sanitizeNumber\<close>

definition sanitizeNumber ::
  "builtins \<Rightarrow> jsval \<Rightarrow> jsval \<Rightarrow> jsval \<Rightarrow> jsval \<Rightarrow> error + jsval" where
  "sanitizeNumber B v defaultValue mn mx =
     (let result =
        (case v of
           JStr s \<Rightarrow>
             (let r = parseFloat B s
              in if numberToString B r \<noteq> trim B s then JNum NaN else JNum r)
         | _ \<Rightarrow> v)
      in if typeof result \<noteq> TNumber \<or> Number_isNaN result then
           (if typeof defaultValue \<noteq> TNumber then Inl (Error ''Invalid default value'')
            else Inr defaultValue)
         else if typeof mn = TNumber \<and> num_lt (the_number result) (the_number mn) then Inr mn
         else if typeof mx = TNumber \<and> num_gt (the_number result) (the_number mx) then Inr mx
         else Inr result)"

text \<open>
  A fragment of the platform functions, enough to run the examples below: it agrees with
  JavaScript on the literals it lists and treats every other string as not a number.
\<close>

definition sample_parseFloat :: "string \<Rightarrow> number" where
  "sample_parseFloat s =
     (if s = ''10'' \<or> s = '' 10 '' \<or> s = ''10px'' then Finite 10
      else if s = ''20'' then Finite 20
      else if s = ''999'' then Finite 999
      else if s = ''190'' then Finite 190
      else NaN)"

definition sample_numberToString :: "number \<Rightarrow> string" where
  "sample_numberToString n =
     (if n = Finite 10 then ''10''
      else if n = Finite 20 then ''20''
      else if n = Finite 999 then ''999''
      else if n = Finite 190 then ''190''
      else if n = NaN then ''NaN''
      else ''?'')"

definition sample_trim :: "string \<Rightarrow> string" where
  "sample_trim s = (if s = '' 10 '' then ''10'' else s)"

definition sample_builtins :: builtins where
  "sample_builtins =
     \<lparr> parseFloat = sample_parseFloat,
       numberToString = sample_numberToString,
       trim = sample_trim \<rparr>"

text \<open>
  The number a value is read as by \<open>sanitizeNumber\<close>, if any: a number other than NaN, or
  a string whose \<open>parseFloat\<close> prints back as exactly the trimmed string.
\<close>

definition accepted_number :: "builtins \<Rightarrow> jsval \<Rightarrow> number option" where
  "accepted_number B v =
     (case v of
        JNum n \<Rightarrow> (if n = NaN then None else Some n)
      | JStr s \<Rightarrow>
          (if numberToString B (parseFloat B s) = trim B s \<and> parseFloat B s \<noteq> NaN
           then Some (parseFloat B s) else None)
      | _ \<Rightarrow> None)"

section \<open>The external map capability\<close>

text \<open>
  The Leaflet map is outside the repository. Its viewport is modelled as a store of the
  centre and zoom level it was last given, together with the zoom bounds it reports
  (\<open>getMinZoom\<close>, \<open>getMaxZoom\<close>), which the operations below never change. The
  conversions between geographic and container coordinates are parameters.
\<close>

record viewport =
  center_lat :: number
  center_lng :: number
  zoom :: number
  minZoom :: number
  maxZoom :: number

type_synonym point = "number \<times> number"
type_synonym latlng = "number \<times> number"

definition Leaflet_setView :: "viewport \<Rightarrow> number \<Rightarrow> number \<Rightarrow> number \<Rightarrow> viewport" where
  "Leaflet_setView v lat lng z = v\<lparr>center_lat := lat, center_lng := lng, zoom := z\<rparr>"

definition Leaflet_panTo :: "viewport \<Rightarrow> number \<Rightarrow> number \<Rightarrow> viewport" where
  "Leaflet_panTo v lat lng = v\<lparr>center_lat := lat, center_lng := lng\<rparr>"

definition Leaflet_setZoom :: "viewport \<Rightarrow> number \<Rightarrow> viewport" where
  "Leaflet_setZoom v z = v\<lparr>zoom := z\<rparr>"

definition point_subtract :: "point \<Rightarrow> point \<Rightarrow> point" where
  "point_subtract p q = (num_minus (fst p) (fst q), num_minus (snd p) (snd q))"

text \<open>
  The environment of the component: the platform functions, Leaflet's two coordinate
  conversions (they depend on the viewport and on the rendered size, given as width and
  height), and H5P's generator of fresh identifiers.
\<close>

record env =
  js :: builtins
  latLngToContainerPoint :: "viewport \<Rightarrow> number \<times> number \<Rightarrow> latlng \<Rightarrow> point"
  containerPointToLatLng :: "viewport \<Rightarrow> number \<times> number \<Rightarrow> point \<Rightarrow> latlng"
  createUUID :: "nat \<Rightarrow> string"

section \<open>models/waypoint.js\<close>

text \<open>
  A waypoint with the position of its marker. \<open>markerIsOpen\<close> is undefined until
  \<open>setOpen\<close> is first called. The content bundle a waypoint owns is modelled on its own
  further below.
\<close>

record waypoint =
  wp_id :: string
  wp_index :: int
  wp_title :: string
  wp_latitude :: number
  wp_longitude :: number
  markerIsOpen :: "bool option"

definition Waypoint_setOpen :: "bool \<Rightarrow> waypoint \<Rightarrow> waypoint" where
  "Waypoint_setOpen opn w = w\<lparr>markerIsOpen := Some opn\<rparr>"

definition Waypoint_isOpen :: "waypoint \<Rightarrow> jsval" where
  "Waypoint_isOpen w = (case markerIsOpen w of None \<Rightarrow> JUndefined | Some b \<Rightarrow> JBool b)"

section \<open>components/map/geo-map.js\<close>

definition LATITUDE_MIN :: number where "LATITUDE_MIN = Finite (- 90)"
definition LATITUDE_MAX :: number where "LATITUDE_MAX = Finite 90"
definition LONGITUDE_MIN :: number where "LONGITUDE_MIN = Finite (- 180)"
definition LONGITUDE_MAX :: number where "LONGITUDE_MAX = Finite 180"
definition DEFAULT_MAP_CENTER_X_PERCENTAGE :: number where
  "DEFAULT_MAP_CENTER_X_PERCENTAGE = Finite 0.5"
definition DEFAULT_MAP_CENTER_Y_PERCENTAGE :: number where
  "DEFAULT_MAP_CENTER_Y_PERCENTAGE = Finite 0.5"
definition DEFAULT_ZOOM_LEVEL :: number where "DEFAULT_ZOOM_LEVEL = Finite 13"
definition DEFAULT_COORDINATES_0 :: number where "DEFAULT_COORDINATES_0 = Finite 69.6456737"
definition DEFAULT_COORDINATES_1 :: number where "DEFAULT_COORDINATES_1 = Finite 18.9501558"

definition MAP_SERVICES :: "string list" where
  "MAP_SERVICES = [''cartoDB'', ''esriNATGeoWorldMap'', ''esriWorldPhysicalMap'',
     ''esriWorldTopoMap'', ''openStreetMap'', ''openTopoMap'']"

record coordinates =
  latitude :: jsval
  longitude :: jsval

text \<open>
  The state of a GeoMap: its sanitized \<open>params.zoomLevel\<close>, the waypoints in the order
  they were added, the Leaflet viewport, the rendered size of its element (width and
  height, as \<open>getBoundingClientRect\<close> reports them) and the mini map's visibility.
\<close>

record geo_map =
  gm_zoomLevel :: jsval
  waypoints :: "waypoint list"
  view :: viewport
  gm_size :: "number \<times> number"
  miniMapVisible :: "bool option"

text \<open>
  A reference to a waypoint object is its position in \<open>this.waypoints\<close>: waypoints are
  only created by \<open>addWaypoint\<close>, which pushes them there, and are never removed. A
  position beyond the list denotes no object.
\<close>

definition deref :: "geo_map \<Rightarrow> nat option \<Rightarrow> waypoint option" where
  "deref g r =
     (case r of
        None \<Rightarrow> None
      | Some p \<Rightarrow> (if p < length (waypoints g) then Some (waypoints g ! p) else None))"

text \<open>\<open>Array.prototype.find\<close>, returning the position of the element found.\<close>

fun find_pos :: "('a \<Rightarrow> bool) \<Rightarrow> 'a list \<Rightarrow> nat option" where
  "find_pos P [] = None"
| "find_pos P (x # xs) = (if P x then Some 0 else map_option Suc (find_pos P xs))"

text \<open>
  The coordinates argument of \<open>setView\<close>: any value. It is an object with its
  \<open>latitude\<close> and \<open>longitude\<close> properties (a missing property is undefined), or a
  primitive value, undefined and null among them. Reading the two properties throws a
  \<open>TypeError\<close> on null and on undefined, and gives undefined on every other primitive
  value.
\<close>

datatype coordinates_arg = Primitive jsval | Object coordinates

definition read_coordinates :: "coordinates_arg \<Rightarrow> error + coordinates" where
  "read_coordinates a =
     (case a of
        Object c \<Rightarrow> Inr c
      | Primitive JNull \<Rightarrow> Inl (TypeError ''Cannot read properties of null'')
      | Primitive JUndefined \<Rightarrow> Inl (TypeError ''Cannot read properties of undefined'')
      | Primitive _ \<Rightarrow> Inr \<lparr>latitude = JUndefined, longitude = JUndefined\<rparr>)"

text \<open>
  \<open>setView(coordinates = {}, zoomLevel)\<close>: the default \<open>{}\<close> replaces an argument that
  is undefined, and no other.
\<close>

definition GeoMap_setView ::
  "env \<Rightarrow> geo_map \<Rightarrow> coordinates_arg \<Rightarrow> jsval \<Rightarrow> error + geo_map" where
  "GeoMap_setView E g coords zoomLevel =
     (let arg = (if coords = Primitive JUndefined
                 then Object \<lparr>latitude = JUndefined, longitude = JUndefined\<rparr> else coords)
      in bindE (read_coordinates arg) (\<lambda>c.
         bindE (sanitizeNumber (js E) (latitude c) (JNum DEFAULT_COORDINATES_0)
                  (JNum LATITUDE_MIN) (JNum LATITUDE_MAX)) (\<lambda>lat.
         bindE (sanitizeNumber (js E) (longitude c) (JNum DEFAULT_COORDINATES_1)
                  (JNum LONGITUDE_MIN) (JNum LONGITUDE_MAX)) (\<lambda>lng.
         bindE (sanitizeNumber (js E) zoomLevel (JNum DEFAULT_ZOOM_LEVEL)
                  (JNum (minZoom (view g))) (JNum (maxZoom (view g)))) (\<lambda>z.
         Inr (g\<lparr>view := Leaflet_setView (view g)
                   (the_number lat) (the_number lng) (the_number z)\<rparr>))))))"

definition GeoMap_getCoordinates :: "geo_map \<Rightarrow> number \<times> number" where
  "GeoMap_getCoordinates g = (center_lat (view g), center_lng (view g))"

definition GeoMap_getZoomLevel :: "geo_map \<Rightarrow> number" where
  "GeoMap_getZoomLevel g = zoom (view g)"

definition GeoMap_getSize :: "geo_map \<Rightarrow> number \<times> number" where
  "GeoMap_getSize g = gm_size g"

definition GeoMap_getWaypointByIndex :: "geo_map \<Rightarrow> jsval \<Rightarrow> nat option" where
  "GeoMap_getWaypointByIndex g index =
     (if typeof index \<noteq> TNumber \<or> num_lt (the_number index) (Finite 0)
         \<or> num_ge (the_number index) (Finite (real (length (waypoints g))))
      then None
      else find_pos (\<lambda>w. strict_eq (JNum (Finite (real_of_int (wp_index w)))) index)
             (waypoints g))"

definition GeoMap_getWaypointById :: "geo_map \<Rightarrow> string \<Rightarrow> nat option" where
  "GeoMap_getWaypointById g ident = find_pos (\<lambda>w. wp_id w = ident) (waypoints g)"

record center_options =
  positionXPercentage :: jsval
  positionYPercentage :: jsval
  opt_zoomLevel :: jsval

text \<open>
  \<open>panTo\<close>: the zoom change it schedules for the end of the move is applied at once.
\<close>

definition GeoMap_panTo ::
  "env \<Rightarrow> geo_map \<Rightarrow> jsval \<times> jsval \<Rightarrow> center_options \<Rightarrow> error + geo_map" where
  "GeoMap_panTo E g c options =
     (if typeof (fst c) \<noteq> TNumber \<or> typeof (snd c) \<noteq> TNumber then Inr g
      else
        bindE (sanitizeNumber (js E) (fst c) (JNum DEFAULT_COORDINATES_0)
                 (JNum LATITUDE_MIN) (JNum LATITUDE_MAX)) (\<lambda>lat.
        bindE (sanitizeNumber (js E) (snd c) (JNum DEFAULT_COORDINATES_1)
                 (JNum LONGITUDE_MIN) (JNum LONGITUDE_MAX)) (\<lambda>lng.
        Inr (g\<lparr>view :=
               (let v = Leaflet_panTo (view g) (the_number lat) (the_number lng)
                in if truthy (opt_zoomLevel options)
                   then Leaflet_setZoom v (the_number (opt_zoomLevel options)) else v)\<rparr>))))"

definition GeoMap_centerOnWaypoint ::
  "env \<Rightarrow> geo_map \<Rightarrow> string \<Rightarrow> center_options \<Rightarrow> error + geo_map" where
  "GeoMap_centerOnWaypoint E g ident options =
     (let mapSize = GeoMap_getSize g
      in if num_eq (fst mapSize) (Finite 0) \<or> num_eq (snd mapSize) (Finite 0) then Inr g
         else
           bindE (sanitizeNumber (js E) (positionXPercentage options)
                    (JNum DEFAULT_MAP_CENTER_X_PERCENTAGE) (JNum (Finite 0)) (JNum (Finite 1)))
             (\<lambda>px.
           bindE (sanitizeNumber (js E) (positionYPercentage options)
                    (JNum DEFAULT_MAP_CENTER_Y_PERCENTAGE) (JNum (Finite 0)) (JNum (Finite 1)))
             (\<lambda>py.
           (case deref g (GeoMap_getWaypointById g ident) of
              None \<Rightarrow> Inr g
            | Some w \<Rightarrow>
                (let markerLatLng = (wp_latitude w, wp_longitude w);
                     targetPoint = (num_times (fst mapSize) (the_number px),
                                    num_times (snd mapSize) (the_number py));
                     markerPoint = latLngToContainerPoint E (view g) mapSize markerLatLng;
                     offset = point_subtract targetPoint markerPoint;
                     centerLatLng = (center_lat (view g), center_lng (view g));
                     centerPoint = latLngToContainerPoint E (view g) mapSize centerLatLng;
                     newCenterPoint = point_subtract centerPoint offset;
                     newCenterLatLng = containerPointToLatLng E (view g) mapSize newCenterPoint
                 in GeoMap_panTo E g
                      (JNum (fst newCenterLatLng), JNum (snd newCenterLatLng))
                      (options\<lparr>positionXPercentage := px, positionYPercentage := py\<rparr>))))))"

definition GeoMap_reset :: "env \<Rightarrow> geo_map \<Rightarrow> error + geo_map" where
  "GeoMap_reset E g =
     (let g' = g\<lparr>waypoints := map (Waypoint_setOpen False) (waypoints g)\<rparr>
      in case waypoints g' of
           [] \<Rightarrow> Inr g'
         | w # _ \<Rightarrow>
             GeoMap_centerOnWaypoint E g' (wp_id w)
               \<lparr>positionXPercentage = JUndefined, positionYPercentage = JUndefined,
                opt_zoomLevel = gm_zoomLevel g'\<rparr>)"

definition GeoMap_toggleMiniMapVisibility :: "geo_map \<Rightarrow> jsval \<Rightarrow> geo_map" where
  "GeoMap_toggleMiniMapVisibility g st =
     g\<lparr>miniMapVisible :=
         Some (case st of
                 JBool b \<Rightarrow> b
               | _ \<Rightarrow> \<not> truthy (case miniMapVisible g of
                                    None \<Rightarrow> JUndefined | Some b \<Rightarrow> JBool b))\<rparr>"

definition GeoMap_setMapStyle :: "geo_map \<Rightarrow> string \<Rightarrow> geo_map" where
  "GeoMap_setMapStyle g mapStyle =
     (if mapStyle \<notin> set MAP_SERVICES then g
      else if miniMapVisible g = None then GeoMap_toggleMiniMapVisibility g (JBool False)
      else g)"

text \<open>
  \<open>setOpenWaypoint\<close> compares each waypoint with the one to open by identity, that is
  by position.
\<close>

definition GeoMap_setOpenWaypoint :: "geo_map \<Rightarrow> nat \<Rightarrow> geo_map" where
  "GeoMap_setOpenWaypoint g r =
     g\<lparr>waypoints :=
         map (\<lambda>(p, w). Waypoint_setOpen (p = r) w) (enumerate 0 (waypoints g))\<rparr>"

text \<open>
  A waypoint as the configuration describes it. An empty identifier or title stands for
  a missing one.
\<close>

record waypoint_params =
  wpp_id :: string
  wpp_title :: string
  wpp_latitude :: number
  wpp_longitude :: number

text \<open>
  The waypoint \<open>addWaypoint\<close> creates for the descriptor at a position of the
  configured list: a missing identifier is generated, a missing title is replaced by
  the placeholder.
\<close>

definition Waypoint_new :: "env \<Rightarrow> string \<Rightarrow> nat \<times> waypoint_params \<Rightarrow> waypoint" where
  "Waypoint_new E unnamedWaypoint ip =
     (let index = fst ip; params = snd ip
      in \<lparr>wp_id = (if wpp_id params \<noteq> [] then wpp_id params else createUUID E index),
          wp_index = int index,
          wp_title = (if wpp_title params \<noteq> [] then wpp_title params else unnamedWaypoint),
          wp_latitude = wpp_latitude params,
          wp_longitude = wpp_longitude params,
          markerIsOpen = None\<rparr>)"

definition GeoMap_addWaypoint ::
  "env \<Rightarrow> string \<Rightarrow> geo_map \<Rightarrow> nat \<times> waypoint_params \<Rightarrow> geo_map" where
  "GeoMap_addWaypoint E unnamedWaypoint g ip =
     g\<lparr>waypoints := waypoints g @ [Waypoint_new E unnamedWaypoint ip]\<rparr>"

record geo_map_params =
  gp_waypoints :: "waypoint_params list"
  gp_zoomLevel :: jsval
  gp_coordinates :: coordinates
  gp_unnamedWaypoint :: string
  gp_minZoom :: number
  gp_maxZoom :: number
  gp_size :: "number \<times> number"

text \<open>
  The constructor with \<open>buildMap\<close>: before \<open>setView\<close> the Leaflet map has no centre
  and no zoom level.
\<close>

definition GeoMap_new :: "env \<Rightarrow> geo_map_params \<Rightarrow> error + geo_map" where
  "GeoMap_new E params =
     bindE (sanitizeNumber (js E) (gp_zoomLevel params) (JNum DEFAULT_ZOOM_LEVEL)
              JUndefined JUndefined) (\<lambda>z.
     bindE (sanitizeNumber (js E) (latitude (gp_coordinates params))
              (JNum DEFAULT_COORDINATES_0) (JNum LATITUDE_MIN) (JNum LATITUDE_MAX)) (\<lambda>lat.
     bindE (sanitizeNumber (js E) (longitude (gp_coordinates params))
              (JNum DEFAULT_COORDINATES_1) (JNum LONGITUDE_MIN) (JNum LONGITUDE_MAX)) (\<lambda>lng.
     bindE (GeoMap_setView E
              \<lparr>gm_zoomLevel = z, waypoints = [],
               view = \<lparr>center_lat = NaN, center_lng = NaN, zoom = NaN,
                       minZoom = gp_minZoom params, maxZoom = gp_maxZoom params\<rparr>,
               gm_size = gp_size params, miniMapVisible = None\<rparr>
              (Object \<lparr>latitude = lat, longitude = lng\<rparr>) z) (\<lambda>g.
     Inr (foldl (GeoMap_addWaypoint E (gp_unnamedWaypoint params)) g
            (enumerate 0 (gp_waypoints params)))))))"

section \<open>components/navigation-bar: button.js and navigation-bar.js\<close>

datatype button_type = Pulse | Toggle

record button =
  b_type :: button_type
  active :: bool
  disabled :: bool

definition Button_activate :: "button \<Rightarrow> button" where
  "Button_activate b = (if disabled b then b else b\<lparr>active := True\<rparr>)"

definition Button_deactivate :: "button \<Rightarrow> button" where
  "Button_deactivate b = (if disabled b then b else b\<lparr>active := False\<rparr>)"

definition Button_enable :: "button \<Rightarrow> button" where
  "Button_enable b =
     (let b' = b\<lparr>disabled := False\<rparr>
      in if active b' then Button_activate b' else Button_deactivate b')"

definition Button_disable :: "button \<Rightarrow> button" where
  "Button_disable b = b\<lparr>disabled := True\<rparr>"

definition Button_new :: "button_type \<Rightarrow> bool \<Rightarrow> bool \<Rightarrow> button" where
  "Button_new t act dis =
     (let b = \<lparr>b_type = t, active = act, disabled = dis\<rparr>;
          b' = (if act then Button_activate b else Button_deactivate b)
      in if dis then Button_disable b' else Button_enable b')"

definition Button_toggle :: "button \<Rightarrow> jsval \<Rightarrow> bool \<Rightarrow> button" where
  "Button_toggle b shouldBeActive ignoreDisabled =
     (if \<not> ignoreDisabled \<and> disabled b then b
      else
        (let should = (case shouldBeActive of JBool x \<Rightarrow> x | _ \<Rightarrow> \<not> active b)
         in if should then Button_activate b else Button_deactivate b))"

text \<open>
  \<open>forceState\<close> and the click listener: the button after the call, and whether its
  \<open>onClick\<close> callback was called.
\<close>

definition Button_forceState :: "button \<Rightarrow> bool \<Rightarrow> bool \<Rightarrow> button \<times> bool" where
  "Button_forceState b act skipCallback =
     ((if b_type b = Toggle then Button_toggle b (JBool act) True else b), \<not> skipCallback)"

definition Button_click :: "button \<Rightarrow> button \<times> bool" where
  "Button_click b =
     (if disabled b then (b, False)
      else ((if b_type b = Toggle then Button_toggle b JUndefined False else b), True))"

record navigation_bar =
  nb_left :: button
  nb_right :: button
  nb_reset :: button
  nb_minimap :: "button option"
  progressText :: string

definition NavigationBar_new :: "bool \<Rightarrow> navigation_bar" where
  "NavigationBar_new userCanUseMiniMap =
     \<lparr>nb_left = Button_new Pulse False True,
      nb_right = Button_new Pulse False True,
      nb_reset = Button_new Pulse False False,
      nb_minimap = (if userCanUseMiniMap then Some (Button_new Toggle False False) else None),
      progressText = []\<rparr>"

definition NavigationBar_update :: "navigation_bar \<Rightarrow> jsval \<Rightarrow> jsval \<Rightarrow> jsval \<Rightarrow> navigation_bar" where
  "NavigationBar_update nb left right txt =
     (let nb1 = (case left of
                   JBool b \<Rightarrow> nb\<lparr>nb_left := (if b then Button_enable (nb_left nb)
                                                else Button_disable (nb_left nb))\<rparr>
                 | _ \<Rightarrow> nb);
          nb2 = (case right of
                   JBool b \<Rightarrow> nb1\<lparr>nb_right := (if b then Button_enable (nb_right nb1)
                                                  else Button_disable (nb_right nb1))\<rparr>
                 | _ \<Rightarrow> nb1)
      in case txt of JStr t \<Rightarrow> nb2\<lparr>progressText := t\<rparr> | _ \<Rightarrow> nb2)"

definition NavigationBar_reset :: "navigation_bar \<Rightarrow> navigation_bar" where
  "NavigationBar_reset nb = NavigationBar_update nb JUndefined JUndefined (JStr [])"

record navigation_bar_state =
  minimapActive :: jsval

definition NavigationBar_getCurrentState :: "navigation_bar \<Rightarrow> navigation_bar_state" where
  "NavigationBar_getCurrentState nb =
     \<lparr>minimapActive = JBool (case nb_minimap nb of None \<Rightarrow> False | Some b \<Rightarrow> active b)\<rparr>"

section \<open>components/map/map.js and components/main.js\<close>

text \<open>
  A Map holds its GeoMap and its content overlay: whether the overlay is hidden, and
  the waypoint whose content it shows. The Main component holds the navigation state,
  the navigation bar and the map. The callbacks the constructors wire between the
  three classes are written as direct calls, so every operation works on the state of
  the Main component.
\<close>

record map_component =
  mc_geoMap :: geo_map
  overlayHidden :: bool
  overlayContent :: "nat option"

record main =
  openWaypointContentIndex :: number
  lastMarkerIndex :: int
  navigationBar :: navigation_bar
  main_map :: map_component

definition geoMap :: "main \<Rightarrow> geo_map" where
  "geoMap s = mc_geoMap (main_map s)"

definition set_geoMap :: "main \<Rightarrow> geo_map \<Rightarrow> main" where
  "set_geoMap s g = s\<lparr>main_map := (main_map s)\<lparr>mc_geoMap := g\<rparr>\<rparr>"

definition Map_getWaypointByIndex :: "main \<Rightarrow> jsval \<Rightarrow> nat option" where
  "Map_getWaypointByIndex s index = GeoMap_getWaypointByIndex (geoMap s) index"

definition MAP_CENTER_X_PERCENTAGE :: number where
  "MAP_CENTER_X_PERCENTAGE = Finite 0.5"

definition MAP_CENTER_X_PERCENTAGE_CONTENT_OPEN :: number where
  "MAP_CENTER_X_PERCENTAGE_CONTENT_OPEN = Finite 0.25"

definition Main_updateButtonDisabledStates :: "main \<Rightarrow> main" where
  "Main_updateButtonDisabledStates s =
     (let waypoint = deref (geoMap s)
                       (Map_getWaypointByIndex s (JNum (openWaypointContentIndex s)));
          title = (case waypoint of None \<Rightarrow> JNull | Some w \<Rightarrow> JStr (wp_title w))
      in s\<lparr>navigationBar :=
             NavigationBar_update (navigationBar s)
               (JBool (num_gt (openWaypointContentIndex s) (Finite 0)))
               (JBool (num_lt (openWaypointContentIndex s)
                         (Finite (real_of_int (lastMarkerIndex s)))))
               title\<rparr>)"

definition Main_handleWaypointContentOpened :: "main \<Rightarrow> int \<Rightarrow> main" where
  "Main_handleWaypointContentOpened s index =
     Main_updateButtonDisabledStates
       (s\<lparr>openWaypointContentIndex := Finite (real_of_int index)\<rparr>)"

definition Map_centerOnWaypoint :: "env \<Rightarrow> main \<Rightarrow> nat option \<Rightarrow> bool \<Rightarrow> error + main" where
  "Map_centerOnWaypoint E s waypoint contentOpen =
     (case deref (geoMap s) waypoint of
        None \<Rightarrow> Inr s
      | Some w \<Rightarrow>
          (let positionXPercentage =
                 (if contentOpen then MAP_CENTER_X_PERCENTAGE_CONTENT_OPEN
                  else MAP_CENTER_X_PERCENTAGE)
           in bindE (GeoMap_centerOnWaypoint E (geoMap s) (wp_id w)
                       \<lparr>positionXPercentage = JNum positionXPercentage,
                        positionYPercentage = JUndefined,
                        opt_zoomLevel = JUndefined\<rparr>)
                (\<lambda>g. Inr (set_geoMap s g))))"

text \<open>
  The \<open>onMarkerFocus\<close> callback of the Main constructor. Its second argument compares
  the method \<open>this.getCurrentOpenWaypointContentIndex\<close> itself, not the value it
  returns, with \<open>-1\<close>.
\<close>

definition Main_onMarkerFocus :: "env \<Rightarrow> main \<Rightarrow> nat option \<Rightarrow> error + main" where
  "Main_onMarkerFocus E s waypoint =
     Map_centerOnWaypoint E s waypoint
       (strict_neq (JFun ''getCurrentOpenWaypointContentIndex'') (JNum (Finite (- 1))))"

definition Map_openWaypointContent ::
  "env \<Rightarrow> main \<Rightarrow> nat option \<Rightarrow> jsval \<Rightarrow> error + main" where
  "Map_openWaypointContent E s waypoint panTo =
     (case waypoint of
        None \<Rightarrow> Inr s
      | Some r \<Rightarrow>
          (case deref (geoMap s) (Some r) of
             None \<Rightarrow> Inr s
           | Some w \<Rightarrow>
               if truthy (Waypoint_isOpen w) then Inr s
               else
                 (let s1 = set_geoMap s (GeoMap_setOpenWaypoint (geoMap s) r);
                      s2 = s1\<lparr>main_map :=
                                (main_map s1)\<lparr>overlayContent := Some r,
                                               overlayHidden := False\<rparr>\<rparr>;
                      s3 = Main_handleWaypointContentOpened s2 (wp_index w)
                  in if strict_eq panTo (JBool False) then Inr s3
                     else Main_onMarkerFocus E s3 (Some r))))"

definition Map_openWaypointContentByIndex ::
  "env \<Rightarrow> main \<Rightarrow> jsval \<Rightarrow> jsval \<Rightarrow> error + main" where
  "Map_openWaypointContentByIndex E s index panTo =
     (case Map_getWaypointByIndex s index of
        None \<Rightarrow> Inr s
      | Some r \<Rightarrow> Map_openWaypointContent E s (Some r) panTo)"

definition Main_goBackward :: "env \<Rightarrow> main \<Rightarrow> error + main" where
  "Main_goBackward E s =
     Map_openWaypointContentByIndex E s
       (JNum (num_minus (openWaypointContentIndex s) (Finite 1))) JUndefined"

definition Main_goForward :: "env \<Rightarrow> main \<Rightarrow> error + main" where
  "Main_goForward E s =
     Map_openWaypointContentByIndex E s
       (JNum (num_plus (openWaypointContentIndex s) (Finite 1))) JUndefined"

definition Map_reset :: "env \<Rightarrow> main \<Rightarrow> error + main" where
  "Map_reset E s =
     (let s1 = s\<lparr>main_map := (main_map s)\<lparr>overlayHidden := True\<rparr>\<rparr>
      in bindE (GeoMap_reset E (geoMap s1)) (\<lambda>g. Inr (set_geoMap s1 g)))"

definition Main_reset :: "env \<Rightarrow> main \<Rightarrow> error + main" where
  "Main_reset E s =
     (let s1 = s\<lparr>openWaypointContentIndex := Finite (- 1)\<rparr>;
          s2 = Main_updateButtonDisabledStates s1
      in bindE (Map_reset E s2)
           (\<lambda>s3. Inr (s3\<lparr>navigationBar := NavigationBar_reset (navigationBar s3)\<rparr>)))"

definition Main_toggleMiniMap :: "main \<Rightarrow> main" where
  "Main_toggleMiniMap s =
     set_geoMap s (GeoMap_toggleMiniMapVisibility (geoMap s) JUndefined)"

definition Main_getCurrentOpenWaypointContentIndex :: "main \<Rightarrow> number" where
  "Main_getCurrentOpenWaypointContentIndex s = openWaypointContentIndex s"

text \<open>
  The mini-map button: a click on it, and \<open>NavigationBar.setCurrentState\<close>, which forces
  the button active without skipping its callback.
\<close>

definition NavigationBar_clickMiniMap :: "main \<Rightarrow> main" where
  "NavigationBar_clickMiniMap s =
     (case nb_minimap (navigationBar s) of
        None \<Rightarrow> s
      | Some b \<Rightarrow>
          (let s1 = s\<lparr>navigationBar :=
                        (navigationBar s)\<lparr>nb_minimap := Some (fst (Button_click b))\<rparr>\<rparr>
           in if snd (Button_click b) then Main_toggleMiniMap s1 else s1))"

definition NavigationBar_setCurrentState :: "main \<Rightarrow> navigation_bar_state option \<Rightarrow> main" where
  "NavigationBar_setCurrentState s st =
     (let st' = (case st of None \<Rightarrow> \<lparr>minimapActive = JUndefined\<rparr> | Some x \<Rightarrow> x)
      in case nb_minimap (navigationBar s) of
           None \<Rightarrow> s
         | Some b \<Rightarrow>
             if strict_eq (minimapActive st') (JBool True) then
               (let s1 = s\<lparr>navigationBar :=
                             (navigationBar s)\<lparr>nb_minimap :=
                                Some (fst (Button_forceState b True False))\<rparr>\<rparr>
                in if snd (Button_forceState b True False) then Main_toggleMiniMap s1 else s1)
             else s)"

text \<open>The persisted state. A field that is missing is \<open>None\<close> (or undefined).\<close>

record map_state =
  ms_zoomLevel :: jsval
  ms_coordinates :: "coordinates option"

record snapshot =
  ss_openWaypointContentIndex :: "number option"
  ss_navigationBar :: "navigation_bar_state option"
  ss_map :: "map_state option"

definition Map_getCurrentState :: "env \<Rightarrow> main \<Rightarrow> map_state" where
  "Map_getCurrentState E s =
     (let c = GeoMap_getCoordinates (geoMap s)
      in \<lparr>ms_zoomLevel = JNum (GeoMap_getZoomLevel (geoMap s)),
          ms_coordinates =
            Some \<lparr>latitude = JStr (numberToString (js E) (fst c)),
                  longitude = JStr (numberToString (js E) (snd c))\<rparr>\<rparr>)"

definition Map_setCurrentState :: "env \<Rightarrow> main \<Rightarrow> map_state option \<Rightarrow> error + main" where
  "Map_setCurrentState E s st =
     (let st' = (case st of
                   None \<Rightarrow> \<lparr>ms_zoomLevel = JUndefined, ms_coordinates = None\<rparr>
                 | Some x \<Rightarrow> x);
          lat = (case ms_coordinates st' of None \<Rightarrow> JUndefined | Some c \<Rightarrow> latitude c);
          lng = (case ms_coordinates st' of None \<Rightarrow> JUndefined | Some c \<Rightarrow> longitude c)
      in if strict_eq lat JUndefined \<or> strict_eq lng JUndefined then Inr s
         else bindE (GeoMap_setView E (geoMap s)
                       (case ms_coordinates st' of
                          None \<Rightarrow> Primitive JUndefined | Some c \<Rightarrow> Object c)
                       (ms_zoomLevel st'))
                (\<lambda>g. Inr (set_geoMap s g)))"

definition Main_getCurrentState :: "env \<Rightarrow> main \<Rightarrow> snapshot" where
  "Main_getCurrentState E s =
     \<lparr>ss_openWaypointContentIndex = Some (Main_getCurrentOpenWaypointContentIndex s),
      ss_navigationBar = Some (NavigationBar_getCurrentState (navigationBar s)),
      ss_map = Some (Map_getCurrentState E s)\<rparr>"

definition Main_setCurrentState :: "env \<Rightarrow> main \<Rightarrow> snapshot \<Rightarrow> error + main" where
  "Main_setCurrentState E s st =
     (let s1 = s\<lparr>openWaypointContentIndex :=
                   (case ss_openWaypointContentIndex st of
                      None \<Rightarrow> Finite (- 1) | Some n \<Rightarrow> n)\<rparr>;
          s2 = Main_updateButtonDisabledStates s1;
          s3 = NavigationBar_setCurrentState s2 (ss_navigationBar st)
      in bindE (Map_setCurrentState E s3 (ss_map st))
           (\<lambda>s4. Map_openWaypointContentByIndex E s4
                   (case ss_openWaypointContentIndex st of
                      None \<Rightarrow> JUndefined | Some n \<Rightarrow> JNum n)
                   (JBool False)))"

text \<open>
  The configuration and the constructors. The zoom bounds and the rendered size come
  from the page the component runs in.
\<close>

record config =
  cfg_waypoints :: "waypoint_params list"
  cfg_zoomLevelDefault :: jsval
  cfg_mapStyle :: string
  cfg_userCanUseMiniMap :: bool
  cfg_previousState :: "snapshot option"
  cfg_unnamedWaypoint :: string
  cfg_minZoom :: number
  cfg_maxZoom :: number
  cfg_size :: "number \<times> number"

definition Main_new :: "env \<Rightarrow> config \<Rightarrow> error + main" where
  "Main_new E cfg =
     (let previousState = (case cfg_previousState cfg of None \<Rightarrow> None | Some st \<Rightarrow> ss_map st);
          coordinatesFirstWaypoint =
            (case cfg_waypoints cfg of
               [] \<Rightarrow> \<lparr>latitude = JNull, longitude = JNull\<rparr>
             | w # _ \<Rightarrow> \<lparr>latitude = JNum (wpp_latitude w), longitude = JNum (wpp_longitude w)\<rparr>);
          zoomLevel = nullish (case previousState of None \<Rightarrow> JUndefined | Some m \<Rightarrow> ms_zoomLevel m)
                        (cfg_zoomLevelDefault cfg);
          coords = (case previousState of
                      None \<Rightarrow> coordinatesFirstWaypoint
                    | Some m \<Rightarrow> (case ms_coordinates m of
                                  None \<Rightarrow> coordinatesFirstWaypoint | Some c \<Rightarrow> c))
      in bindE (GeoMap_new E
                  \<lparr>gp_waypoints = cfg_waypoints cfg, gp_zoomLevel = zoomLevel,
                   gp_coordinates = coords, gp_unnamedWaypoint = cfg_unnamedWaypoint cfg,
                   gp_minZoom = cfg_minZoom cfg, gp_maxZoom = cfg_maxZoom cfg,
                   gp_size = cfg_size cfg\<rparr>)
           (\<lambda>g. Inr (Main_updateButtonDisabledStates
                  \<lparr>openWaypointContentIndex = Finite (- 1),
                   lastMarkerIndex = int (length (cfg_waypoints cfg)) - 1,
                   navigationBar = NavigationBar_new (cfg_userCanUseMiniMap cfg),
                   main_map = \<lparr>mc_geoMap = GeoMap_setMapStyle g (cfg_mapStyle cfg),
                               overlayHidden = True, overlayContent = None\<rparr>\<rparr>)))"

definition StoryMap_new :: "env \<Rightarrow> config \<Rightarrow> error + main" where
  "StoryMap_new E cfg =
     bindE (Main_new E cfg) (\<lambda>s.
       Main_setCurrentState E s
         (case cfg_previousState cfg of
            None \<Rightarrow> \<lparr>ss_openWaypointContentIndex = None, ss_navigationBar = None,
                     ss_map = None\<rparr>
          | Some st \<Rightarrow> st))"

text \<open>
  An environment and a configuration for the examples: one pixel per degree around the
  centre of the rendered area, and four waypoints on an 80 by 60 map.
\<close>

definition sample_toPoint :: "viewport \<Rightarrow> number \<times> number \<Rightarrow> latlng \<Rightarrow> point" where
  "sample_toPoint v sz ll =
     (num_plus (num_minus (snd ll) (center_lng v)) (num_times (fst sz) (Finite 0.5)),
      num_plus (num_minus (center_lat v) (fst ll)) (num_times (snd sz) (Finite 0.5)))"

definition sample_toLatLng :: "viewport \<Rightarrow> number \<times> number \<Rightarrow> point \<Rightarrow> latlng" where
  "sample_toLatLng v sz p =
     (num_minus (center_lat v) (num_minus (snd p) (num_times (snd sz) (Finite 0.5))),
      num_plus (center_lng v) (num_minus (fst p) (num_times (fst sz) (Finite 0.5))))"

definition sample_env :: env where
  "sample_env =
     \<lparr>js = sample_builtins,
      latLngToContainerPoint = sample_toPoint,
      containerPointToLatLng = sample_toLatLng,
      createUUID = (\<lambda>n. replicate (Suc n) CHR ''u'')\<rparr>"

definition sample_waypoints :: "waypoint_params list" where
  "sample_waypoints =
     [\<lparr>wpp_id = ''a'', wpp_title = ''A'', wpp_latitude = Finite 10, wpp_longitude = Finite 20\<rparr>,
      \<lparr>wpp_id = ''b'', wpp_title = ''B'', wpp_latitude = Finite 20, wpp_longitude = Finite 10\<rparr>,
      \<lparr>wpp_id = ''c'', wpp_title = ''C'', wpp_latitude = Finite 0, wpp_longitude = Finite 0\<rparr>,
      \<lparr>wpp_id = ''d'', wpp_title = [], wpp_latitude = Finite (- 10), wpp_longitude = Finite 30\<rparr>]"

definition sample_config :: config where
  "sample_config =
     \<lparr>cfg_waypoints = sample_waypoints,
      cfg_zoomLevelDefault = JNum (Finite 5),
      cfg_mapStyle = ''openStreetMap'',
      cfg_userCanUseMiniMap = True,
      cfg_previousState = None,
      cfg_unnamedWaypoint = ''Unnamed waypoint'',
      cfg_minZoom = Finite 0,
      cfg_maxZoom = Finite 18,
      cfg_size = (Finite 80, Finite 60)\<rparr>"

section \<open>components/content-bundle/content-bundle.js and services/h5p-util.js\<close>

text \<open>
  An embedded H5P content instance is opaque. The model keeps what the bundle probes
  and calls: its \<open>isTask\<close> property when that is a boolean, the value of
  \<open>getMaxScore()\<close> when the instance has that method, its \<open>resetTask\<close> method when
  it has one, and an internal state that only \<open>resetTask\<close> changes.
\<close>

record 'st h5p_instance =
  inst_isTask :: "bool option"
  inst_getMaxScore :: "number option"
  inst_resetTask :: "('st \<Rightarrow> 'st) option"
  inst_state :: 'st

definition isInstanceTask :: "'st h5p_instance option \<Rightarrow> bool" where
  "isInstanceTask inst =
     (case inst of
        None \<Rightarrow> False
      | Some i \<Rightarrow>
          (case inst_isTask i of
             Some b \<Rightarrow> b
           | None \<Rightarrow>
               (case inst_getMaxScore i of
                  Some m \<Rightarrow> num_gt m (Finite 0)
                | None \<Rightarrow> False)))"

text \<open>
  A tracking record. The record an xAPI event writes has no \<open>isTask\<close> property.
\<close>

record tracking =
  isTask :: "bool option"
  completed :: bool
  success :: bool

text \<open>
  The result payload of an xAPI statement, each property a boolean or a number when
  present, and the event with its verb and the value of \<open>getMaxScore()\<close>.
\<close>

record xapi_result =
  completion :: "bool option"
  r_success :: "bool option"
  score :: "number option"
  r_maxScore :: "number option"

record xapi_event =
  ev_getMaxScore :: jsval
  ev_getVerb :: string
  ev_result :: "xapi_result option"

definition js_bool :: "bool option \<Rightarrow> jsval" where
  "js_bool b = (case b of None \<Rightarrow> JUndefined | Some x \<Rightarrow> JBool x)"

definition js_num :: "number option \<Rightarrow> jsval" where
  "js_num n = (case n of None \<Rightarrow> JUndefined | Some x \<Rightarrow> JNum x)"

text \<open>
  The bundle: its instances in the order they were created, the tracking map keyed by
  the index of the content, and the xAPI listeners it registered, each with the
  position of the instance it listens to and the index its closure captured.
\<close>

record 'st content_bundle =
  instances :: "'st h5p_instance list"
  trackingMap :: "nat \<rightharpoonup> tracking"
  listeners :: "(nat \<times> nat) list"

text \<open>
  The listener of \<open>addContent\<close>. In \<open>a ?? b ? c : d\<close> the operator \<open>??\<close> binds tighter
  than the conditional, so the condition is \<open>result.success ?? result.maxScore\<close>.
  Under \<open>>=\<close> an undefined operand converts to NaN, which \<open>the_number\<close> yields for it.
\<close>

definition ContentBundle_onXAPI ::
  "'st content_bundle \<Rightarrow> nat \<Rightarrow> xapi_event \<Rightarrow> 'st content_bundle" where
  "ContentBundle_onXAPI b index event =
     (if typeof (ev_getMaxScore event) \<noteq> TNumber then b
      else if ev_getVerb event \<noteq> ''completed'' \<and> ev_getVerb event \<noteq> ''answered'' then b
      else
        (let result = (case ev_result event of
                         None \<Rightarrow> \<lparr>completion = None, r_success = None, score = None,
                                   r_maxScore = None\<rparr>
                       | Some r \<Rightarrow> r)
         in b\<lparr>trackingMap := (trackingMap b)(index \<mapsto>
               \<lparr>isTask = None,
                completed = truthy (nullish (js_bool (completion result)) (JBool True)),
                success =
                  (if truthy (nullish (js_bool (r_success result)) (js_num (r_maxScore result)))
                   then num_ge (the_number (nullish (js_num (score result)) (JNum (Finite 0))))
                          (the_number (js_num (r_maxScore result)))
                   else False)\<rparr>)\<rparr>))"

definition ContentBundle_addContent ::
  "('c \<Rightarrow> 'st h5p_instance option) \<Rightarrow> 'st content_bundle \<Rightarrow> 'c \<Rightarrow> nat \<Rightarrow> 'st content_bundle" where
  "ContentBundle_addContent newRunnable b contentParams index =
     (case newRunnable contentParams of
        None \<Rightarrow> b
      | Some inst \<Rightarrow>
          (let b' =
             (if isInstanceTask (Some inst)
              then b\<lparr>listeners := listeners b @ [(length (instances b), index)]\<rparr>
              else b\<lparr>trackingMap := (trackingMap b)(index \<mapsto>
                       \<lparr>isTask = Some False, completed = True, success = True\<rparr>)\<rparr>)
           in b'\<lparr>instances := instances b' @ [inst]\<rparr>))"

definition ContentBundle_new ::
  "('c \<Rightarrow> 'st h5p_instance option) \<Rightarrow> 'c list \<Rightarrow> 'st content_bundle" where
  "ContentBundle_new newRunnable contents =
     foldl (\<lambda>b ic. ContentBundle_addContent newRunnable b (snd ic) (fst ic))
       \<lparr>instances = [], trackingMap = Map.empty, listeners = []\<rparr>
       (enumerate 0 contents)"

text \<open>An instance, given by its position, triggers an xAPI event.\<close>

definition instance_trigger_xAPI ::
  "'st content_bundle \<Rightarrow> nat \<Rightarrow> xapi_event \<Rightarrow> 'st content_bundle" where
  "instance_trigger_xAPI b p event =
     foldl (\<lambda>b' l. if fst l = p then ContentBundle_onXAPI b' (snd l) event else b')
       b (listeners b)"

definition ContentBundle_containsAnyTask :: "'st content_bundle \<Rightarrow> bool" where
  "ContentBundle_containsAnyTask b = list_ex (\<lambda>i. isInstanceTask (Some i)) (instances b)"

definition ContentBundle_isCompleted :: "'st content_bundle \<Rightarrow> bool" where
  "ContentBundle_isCompleted b =
     (length (instances b) = card (dom (trackingMap b))
      \<and> (\<forall>k \<in> dom (trackingMap b). completed (the (trackingMap b k))))"

definition ContentBundle_reset :: "'st content_bundle \<Rightarrow> 'st content_bundle" where
  "ContentBundle_reset b =
     b\<lparr>instances :=
         map (\<lambda>i. case inst_resetTask i of
                     None \<Rightarrow> i
                   | Some f \<Rightarrow> i\<lparr>inst_state := f (inst_state i)\<rparr>)
           (instances b),
       trackingMap :=
         (\<lambda>k. case trackingMap b k of
                 None \<Rightarrow> None
               | Some e \<Rightarrow> if isTask e \<noteq> Some False then None else Some e)\<rparr>"

text \<open>What happens to a bundle after its construction: events of its instances, and resets.\<close>

datatype bundle_event = Trigger nat xapi_event | ResetBundle

fun bundle_step :: "'st content_bundle \<Rightarrow> bundle_event \<Rightarrow> 'st content_bundle" where
  "bundle_step b (Trigger p event) = instance_trigger_xAPI b p event"
| "bundle_step b ResetBundle = ContentBundle_reset b"

definition bundle_run :: "'st content_bundle \<Rightarrow> bundle_event list \<Rightarrow> 'st content_bundle" where
  "bundle_run b evs = foldl bundle_step b evs"

text \<open>
  The indices whose instance is a task: those a listener was registered for.
\<close>

definition task_indices :: "'st content_bundle \<Rightarrow> nat set" where
  "task_indices b = snd ` set (listeners b)"

text \<open>
  An example: a text (no task), a quiz with maximum score 10 and a reset method, and a
  content that fails to instantiate.
\<close>

datatype sample_content = SampleText | SampleQuiz | SampleBroken

fun sample_newRunnable :: "sample_content \<Rightarrow> nat h5p_instance option" where
  "sample_newRunnable SampleText =
     Some \<lparr>inst_isTask = None, inst_getMaxScore = None, inst_resetTask = None, inst_state = 0\<rparr>"
| "sample_newRunnable SampleQuiz =
     Some \<lparr>inst_isTask = None, inst_getMaxScore = Some (Finite 10),
           inst_resetTask = Some (\<lambda>n. 0), inst_state = 7\<rparr>"
| "sample_newRunnable SampleBroken = None"

definition sample_bundle :: "nat content_bundle" where
  "sample_bundle = ContentBundle_new sample_newRunnable [SampleText, SampleQuiz, SampleText]"

definition sample_event :: "bool option \<Rightarrow> bool option \<Rightarrow> number option \<Rightarrow> xapi_event" where
  "sample_event c s sc =
     \<lparr>ev_getMaxScore = JNum (Finite 10), ev_getVerb = ''completed'',
      ev_result = Some \<lparr>completion = c, r_success = s, score = sc,
                        r_maxScore = Some (Finite 10)\<rparr>\<rparr>"

text \<open>
  The keys of the records of instances that are no tasks, and the invariant of a
  bundle: the tracking map is finite, no two listeners capture the same index, every
  record that is not one of a non-task belongs to a listener's index, the two kinds of
  indices are disjoint, every instance has either a non-task record or a listener,
  every non-task record is the seeded one, and all indices are below a bound.
\<close>

definition nontask_keys :: "'st content_bundle \<Rightarrow> nat set" where
  "nontask_keys b = {k. \<exists>e. trackingMap b k = Some e \<and> isTask e = Some False}"

definition bundle_inv :: "nat \<Rightarrow> 'st content_bundle \<Rightarrow> bool" where
  "bundle_inv n b =
     (finite (dom (trackingMap b))
      \<and> distinct (map snd (listeners b))
      \<and> dom (trackingMap b) - nontask_keys b \<subseteq> task_indices b
      \<and> nontask_keys b \<inter> task_indices b = {}
      \<and> card (nontask_keys b) + length (listeners b) = length (instances b)
      \<and> (\<forall>k e. trackingMap b k = Some e \<longrightarrow> isTask e = Some False \<longrightarrow>
            e = \<lparr>isTask = Some False, completed = True, success = True\<rparr>)
      \<and> (\<forall>k \<in> dom (trackingMap b) \<union> task_indices b. k < n)
      \<and> (\<forall>l \<in> set (listeners b). fst l < length (instances b)
            \<and> isInstanceTask (Some (instances b ! fst l))))"

text \<open>
  A GeoMap without waypoints whose view was set to latitude 10, longitude 20 and zoom
  level 5, on a map that supports the zoom levels 0 to 18.
\<close>

definition sample_geo_map :: geo_map where
  "sample_geo_map =
     \<lparr>gm_zoomLevel = JNum (Finite 5), waypoints = [],
      view = \<lparr>center_lat = Finite 10, center_lng = Finite 20, zoom = Finite 5,
              minZoom = Finite 0, maxZoom = Finite 18\<rparr>,
      gm_size = (Finite 80, Finite 60), miniMapVisible = Some False\<rparr>"

text \<open>
  The value \<open>sanitizeNumber\<close> turns an accepted number into, given numeric bounds.
\<close>

definition clamp_number :: "number \<Rightarrow> number \<Rightarrow> number \<Rightarrow> number" where
  "clamp_number lo hi n = (if num_lt n lo then lo else if num_gt n hi then hi else n)"


text \<open>
  The waypoints carry the indices \<open>0, 1, 2, ...\<close> in order, as \<open>buildMap\<close> assigns them,
  and \<open>lastMarkerIndex\<close> is the index of the last one.
\<close>

definition indexed :: "waypoint list \<Rightarrow> bool" where
  "indexed ws = (map wp_index ws = map int [0..<length ws])"

definition wf_main :: "main \<Rightarrow> bool" where
  "wf_main s =
     (indexed (waypoints (geoMap s))
      \<and> lastMarkerIndex s = int (length (waypoints (geoMap s))) - 1)"

definition at_most_one_open :: "waypoint list \<Rightarrow> bool" where
  "at_most_one_open ws = (length (filter (\<lambda>w. markerIsOpen w = Some True) ws) \<le> 1)"

text \<open>
  The calls and events that drive the component: a click on a marker (which opens its
  waypoint), a call of \<open>openWaypointContent\<close> or \<open>openWaypointContentByIndex\<close> with
  its \<open>panTo\<close> option, the navigation buttons, keyboard focus on a marker, a click on
  the mini-map button, \<open>setCurrentState\<close>, and the user dragging or zooming the map,
  which Leaflet's own handlers answer by giving the viewport a new centre and zoom
  level.
\<close>

datatype action =
    OpenWaypointContent "nat option" jsval
  | OpenWaypointContentByIndex jsval jsval
  | GoBackward
  | GoForward
  | Reset
  | MarkerFocus "nat option"
  | ClickMiniMap
  | SetCurrentState snapshot
  | MoveMap number number number

fun perform :: "env \<Rightarrow> main \<Rightarrow> action \<Rightarrow> error + main" where
  "perform E s (OpenWaypointContent w p) = Map_openWaypointContent E s w p"
| "perform E s (OpenWaypointContentByIndex i p) = Map_openWaypointContentByIndex E s i p"
| "perform E s GoBackward = Main_goBackward E s"
| "perform E s GoForward = Main_goForward E s"
| "perform E s Reset = Main_reset E s"
| "perform E s (MarkerFocus w) = Main_onMarkerFocus E s w"
| "perform E s ClickMiniMap = Inr (NavigationBar_clickMiniMap s)"
| "perform E s (SetCurrentState st) = Main_setCurrentState E s st"
| "perform E s (MoveMap lat lng z) =
     Inr (set_geoMap s ((geoMap s)\<lparr>view := Leaflet_setView (view (geoMap s)) lat lng z\<rparr>))"

text \<open>
  What happens to a running instance: everything but \<open>setCurrentState\<close>, which only the
  constructor of \<open>StoryMap\<close> calls, on the instance it has just built.
\<close>

fun user_action :: "action \<Rightarrow> bool" where
  "user_action (SetCurrentState st) = False"
| "user_action _ = True"

fun perform_all :: "env \<Rightarrow> main \<Rightarrow> action list \<Rightarrow> error + main" where
  "perform_all E s [] = Inr s"
| "perform_all E s (a # as) = bindE (perform E s a) (\<lambda>s'. perform_all E s' as)"

definition set_view :: "main \<Rightarrow> viewport \<Rightarrow> main" where
  "set_view s v = set_geoMap s ((geoMap s)\<lparr>view := v\<rparr>)"

text \<open>
  How one operation may change the list of waypoints: not at all, by opening the
  waypoint at one position and closing all others, or by closing all.
\<close>

definition open_step :: "waypoint list \<Rightarrow> waypoint list \<Rightarrow> bool" where
  "open_step ws ws' =
     (ws' = ws
      \<or> (\<exists>r < length ws. ws' = map (\<lambda>(p, w). Waypoint_setOpen (p = r) w) (enumerate 0 ws))
      \<or> ws' = map (Waypoint_setOpen False) ws)"

text \<open>
  The state of the example after construction, and after the waypoint at a position
  was opened without panning; the scenario of opening the third waypoint, going forward
  and resetting.
\<close>

definition sample_main :: main where
  "sample_main =
     \<lparr>openWaypointContentIndex = Finite (- 1), lastMarkerIndex = 3,
      navigationBar =
        \<lparr>nb_left = \<lparr>b_type = Pulse, active = False, disabled = True\<rparr>,
         nb_right = \<lparr>b_type = Pulse, active = False, disabled = False\<rparr>,
         nb_reset = \<lparr>b_type = Pulse, active = False, disabled = False\<rparr>,
         nb_minimap = Some \<lparr>b_type = Toggle, active = False, disabled = False\<rparr>,
         progressText = []\<rparr>,
      main_map =
        \<lparr>mc_geoMap =
           \<lparr>gm_zoomLevel = JNum (Finite 5),
            waypoints = map (Waypoint_new sample_env ''Unnamed waypoint'')
                          (enumerate 0 sample_waypoints),
            view = \<lparr>center_lat = Finite 10, center_lng = Finite 20, zoom = Finite 5,
                    minZoom = Finite 0, maxZoom = Finite 18\<rparr>,
            gm_size = (Finite 80, Finite 60), miniMapVisible = Some False\<rparr>,
         overlayHidden = True, overlayContent = None\<rparr>\<rparr>"

definition sample_opened :: "nat \<Rightarrow> main" where
  "sample_opened k =
     sample_main
       \<lparr>openWaypointContentIndex := Finite (real k),
        navigationBar := (navigationBar sample_main)
          \<lparr>nb_left := \<lparr>b_type = Pulse, active = False, disabled = (k = 0)\<rparr>,
           nb_right := \<lparr>b_type = Pulse, active = False, disabled = (k = 3)\<rparr>,
           progressText := wp_title (waypoints (geoMap sample_main) ! k)\<rparr>,
        main_map :=
          \<lparr>mc_geoMap = (geoMap sample_main)
             \<lparr>waypoints := map (\<lambda>(p, w). w\<lparr>markerIsOpen := Some (p = k)\<rparr>)
                              (enumerate 0 (waypoints (geoMap sample_main)))\<rparr>,
           overlayHidden = False, overlayContent = Some k\<rparr>\<rparr>"

definition sample_scenario :: "error + main" where
  "sample_scenario =
     bindE (Main_new sample_env sample_config) (\<lambda>s0.
     bindE (Map_openWaypointContentByIndex sample_env s0 (JNum (Finite 2)) JUndefined) (\<lambda>s1.
     bindE (Main_goForward sample_env s1) (\<lambda>s2.
     Main_reset sample_env s2)))"

text \<open>
  A viewport that \<open>setCurrentState\<close> can restore from its serialised form: the
  platform prints its centre coordinates to strings that parse back to the same
  numbers, the centre lies within the valid coordinate ranges, and the zoom level lies
  within the zoom bounds of the map.
\<close>

definition view_restorable :: "env \<Rightarrow> viewport \<Rightarrow> bool" where
  "view_restorable E v =
     (parseFloat (js E) (numberToString (js E) (center_lat v)) = center_lat v
      \<and> trim (js E) (numberToString (js E) (center_lat v)) = numberToString (js E) (center_lat v)
      \<and> parseFloat (js E) (numberToString (js E) (center_lng v)) = center_lng v
      \<and> trim (js E) (numberToString (js E) (center_lng v)) = numberToString (js E) (center_lng v)
      \<and> num_le LATITUDE_MIN (center_lat v) \<and> num_le (center_lat v) LATITUDE_MAX
      \<and> num_le LONGITUDE_MIN (center_lng v) \<and> num_le (center_lng v) LONGITUDE_MAX
      \<and> num_le (minZoom v) (zoom v) \<and> num_le (zoom v) (maxZoom v))"

definition minimap_active :: "main \<Rightarrow> bool" where
  "minimap_active s = (case nb_minimap (navigationBar s) of None \<Rightarrow> False | Some b \<Rightarrow> active b)"

text \<open>
  What an instance built from a configuration keeps: the zoom bounds of its map, and a
  mini-map button (when the configuration has one) that is a toggle, is enabled, and is
  active exactly when the mini map is shown.
\<close>

definition instance_inv :: "config \<Rightarrow> main \<Rightarrow> bool" where
  "instance_inv cfg s =
     (minZoom (view (geoMap s)) = cfg_minZoom cfg
      \<and> maxZoom (view (geoMap s)) = cfg_maxZoom cfg
      \<and> nb_minimap (navigationBar s) =
          (if cfg_userCanUseMiniMap cfg
           then Some \<lparr>b_type = Toggle,
                       active = (miniMapVisible (geoMap s) = Some True),
                       disabled = False\<rparr>
           else None)
      \<and> (miniMapVisible (geoMap s) = Some True \<longrightarrow> cfg_userCanUseMiniMap cfg))"

section \<open>Properties of sanitizeNumber\<close>

lemma typeof_number_iff: "typeof v = TNumber \<longleftrightarrow> (\<exists>n. v = JNum n)"
  by (cases v) auto

lemma sanitizeNumber_numeric_default:
  "\<exists>n. sanitizeNumber B v (JNum d) mn mx = Inr (JNum n)"
  by (cases v; cases mn; cases mx)
     (auto simp: sanitizeNumber_def Let_def typeof_number_iff)

lemma Number_isNaN_iff: "Number_isNaN v \<longleftrightarrow> v = JNum NaN"
  by (cases v rule: Number_isNaN.cases) auto

lemma sanitizeNumber_rejected:
  "accepted_number B v = None \<Longrightarrow>
   sanitizeNumber B v d mn mx =
     (if typeof d = TNumber then Inr d else Inl (Error ''Invalid default value''))"
  by (cases v)
     (auto simp: sanitizeNumber_def accepted_number_def Let_def Number_isNaN_iff
           split: if_splits)

lemma sanitizeNumber_accepted:
  "accepted_number B v = Some n \<Longrightarrow>
   sanitizeNumber B v d mn mx =
     (if typeof mn = TNumber \<and> num_lt n (the_number mn) then Inr mn
      else if typeof mx = TNumber \<and> num_gt n (the_number mx) then Inr mx
      else Inr (JNum n))"
  by (cases v)
     (auto simp: sanitizeNumber_def accepted_number_def Let_def Number_isNaN_iff
           split: if_splits)

lemma sanitizeNumber_throws_iff:
  "(\<exists>e. sanitizeNumber B v d mn mx = Inl e) \<longleftrightarrow>
   (accepted_number B v = None \<and> typeof d \<noteq> TNumber)"
proof (cases "accepted_number B v")
  case None
  then show ?thesis by (simp add: sanitizeNumber_rejected)
next
  case (Some n)
  then show ?thesis by (simp add: sanitizeNumber_accepted)
qed

lemma sanitizeNumber_returns_number:
  assumes "typeof d = TNumber"
  shows "\<exists>n. sanitizeNumber B v d mn mx = Inr (JNum n)"
proof -
  from assms obtain k where "d = JNum k" by (auto simp: typeof_number_iff)
  then show ?thesis using sanitizeNumber_numeric_default by simp
qed

text \<open>
  Claim C10. Whenever the default is a number, \<open>sanitizeNumber\<close> returns a number and
  does not throw. A string is accepted only when \<open>parseFloat\<close> of it prints back as the
  trimmed string (so the string a number was serialised to is read back as that number);
  every value that is not accepted yields the default; an accepted number below the
  minimum or above the maximum, where that bound is a number, is replaced by the bound;
  and an exception is thrown exactly when a value that is not accepted meets a default
  that is not a number.
\<close>

theorem sanitizeNumber_contract:
  "(typeof d = TNumber \<longrightarrow> (\<exists>n. sanitizeNumber B v d mn mx = Inr (JNum n)))
   \<and> (\<forall>s n. v = JStr s \<longrightarrow> accepted_number B v = Some n \<longrightarrow>
         numberToString B (parseFloat B s) = trim B s \<and> n = parseFloat B s)
   \<and> (\<forall>x. x \<noteq> NaN \<longrightarrow> parseFloat B (numberToString B x) = x \<longrightarrow>
         trim B (numberToString B x) = numberToString B x \<longrightarrow>
         sanitizeNumber B (JStr (numberToString B x)) d JUndefined JUndefined = Inr (JNum x))
   \<and> (typeof v \<noteq> TNumber \<and> typeof v \<noteq> TString \<or> v = JNum NaN \<longrightarrow>
         accepted_number B v = None)
   \<and> (accepted_number B v = None \<longrightarrow> typeof d = TNumber \<longrightarrow>
         sanitizeNumber B v d mn mx = Inr d)
   \<and> (\<forall>n. accepted_number B v = Some n \<longrightarrow>
         sanitizeNumber B v d mn mx =
           (if typeof mn = TNumber \<and> num_lt n (the_number mn) then Inr mn
            else if typeof mx = TNumber \<and> num_gt n (the_number mx) then Inr mx
            else Inr (JNum n)))
   \<and> ((\<exists>e. sanitizeNumber B v d mn mx = Inl e) \<longleftrightarrow>
         (accepted_number B v = None \<and> typeof d \<noteq> TNumber))"
proof (intro conjI allI impI)
  show "\<exists>n. sanitizeNumber B v d mn mx = Inr (JNum n)" if "typeof d = TNumber"
    using that by (rule sanitizeNumber_returns_number)
next
  fix s n assume "v = JStr s" "accepted_number B v = Some n"
  then show "numberToString B (parseFloat B s) = trim B s"
    by (auto simp: accepted_number_def split: if_splits)
next
  fix s n assume "v = JStr s" "accepted_number B v = Some n"
  then show "n = parseFloat B s"
    by (auto simp: accepted_number_def split: if_splits)
next
  fix x assume "x \<noteq> NaN" "parseFloat B (numberToString B x) = x"
    "trim B (numberToString B x) = numberToString B x"
  then have "accepted_number B (JStr (numberToString B x)) = Some x"
    by (simp add: accepted_number_def)
  then show "sanitizeNumber B (JStr (numberToString B x)) d JUndefined JUndefined
      = Inr (JNum x)"
    by (simp add: sanitizeNumber_accepted)
next
  assume "typeof v \<noteq> TNumber \<and> typeof v \<noteq> TString \<or> v = JNum NaN"
  then show "accepted_number B v = None"
    by (cases v) (auto simp: accepted_number_def)
next
  assume "accepted_number B v = None" "typeof d = TNumber"
  then show "sanitizeNumber B v d mn mx = Inr d"
    by (simp add: sanitizeNumber_rejected)
next
  fix n assume "accepted_number B v = Some n"
  then show "sanitizeNumber B v d mn mx =
           (if typeof mn = TNumber \<and> num_lt n (the_number mn) then Inr mn
            else if typeof mx = TNumber \<and> num_gt n (the_number mx) then Inr mx
            else Inr (JNum n))"
    by (rule sanitizeNumber_accepted)
next
  show "(\<exists>e. sanitizeNumber B v d mn mx = Inl e) \<longleftrightarrow>
         (accepted_number B v = None \<and> typeof d \<noteq> TNumber)"
    by (rule sanitizeNumber_throws_iff)
qed

lemmas sample_defs =
  sample_builtins_def sample_parseFloat_def sample_numberToString_def sample_trim_def

theorem sanitizeNumber_contract_witness:
  "accepted_number sample_builtins (JStr '' 10 '') = Some (Finite 10)
   \<and> sanitizeNumber sample_builtins (JStr '' 10 '') (JNum (Finite 0.5))
        (JNum (Finite 0)) (JNum (Finite 1)) = Inr (JNum (Finite 1))
   \<and> sanitizeNumber sample_builtins (JStr ''10'') (JNum (Finite 0.5))
        JUndefined JUndefined = Inr (JNum (Finite 10))
   \<and> accepted_number sample_builtins (JStr ''10px'') = None
   \<and> sanitizeNumber sample_builtins (JStr ''10px'') (JNum (Finite 0.5))
        (JNum (Finite 0)) (JNum (Finite 1)) = Inr (JNum (Finite 0.5))
   \<and> sanitizeNumber sample_builtins JUndefined (JStr ''x'') JUndefined JUndefined
        = Inl (Error ''Invalid default value'')"
  using
    sanitizeNumber_contract [of "JNum (Finite 0.5)" sample_builtins "JStr '' 10 ''"
      "JNum (Finite 0)" "JNum (Finite 1)"]
    sanitizeNumber_contract [of "JNum (Finite 0.5)" sample_builtins "JStr ''10px''"
      "JNum (Finite 0)" "JNum (Finite 1)"]
    sanitizeNumber_contract [of "JStr ''x''" sample_builtins JUndefined JUndefined JUndefined]
  by (simp add: accepted_number_def sanitizeNumber_def sample_defs num_gt_def)

section \<open>Properties of the map operations\<close>

lemma bindE_Inr [simp]: "bindE (Inr x) f = f x"
  by (simp add: bindE_def)

lemma bindE_Inl [simp]: "bindE (Inl e) f = Inl e"
  by (simp add: bindE_def)

lemma the_number_JNum_cases:
  "sanitizeNumber B v (JNum d) mn mx = Inr w \<Longrightarrow> w = JNum (the_number w)"
  using sanitizeNumber_numeric_default [of B v d mn mx] by auto

lemma GeoMap_setView_frame:
  "\<exists>lat lng z. GeoMap_setView E g (Object c) zl
       = Inr (g\<lparr>view := Leaflet_setView (view g) lat lng z\<rparr>)"
proof -
  let ?c = c
  obtain a where a: "sanitizeNumber (js E) (latitude ?c) (JNum DEFAULT_COORDINATES_0)
      (JNum LATITUDE_MIN) (JNum LATITUDE_MAX) = Inr (JNum a)"
    using sanitizeNumber_numeric_default by blast
  obtain b where b: "sanitizeNumber (js E) (longitude ?c) (JNum DEFAULT_COORDINATES_1)
      (JNum LONGITUDE_MIN) (JNum LONGITUDE_MAX) = Inr (JNum b)"
    using sanitizeNumber_numeric_default by blast
  obtain z where z: "sanitizeNumber (js E) zl (JNum DEFAULT_ZOOM_LEVEL)
      (JNum (minZoom (view g))) (JNum (maxZoom (view g))) = Inr (JNum z)"
    using sanitizeNumber_numeric_default by blast
  show ?thesis
    by (intro exI [of _ a] exI [of _ b] exI [of _ z])
       (simp add: GeoMap_setView_def read_coordinates_def Let_def a b z)
qed

lemma GeoMap_panTo_frame:
  "\<exists>v. GeoMap_panTo E g c options = Inr (g\<lparr>view := v\<rparr>)
       \<and> minZoom v = minZoom (view g) \<and> maxZoom v = maxZoom (view g)"
proof (cases "typeof (fst c) \<noteq> TNumber \<or> typeof (snd c) \<noteq> TNumber")
  case True
  then show ?thesis
    by (intro exI [of _ "view g"]) (simp add: GeoMap_panTo_def)
next
  case False
  obtain a where a: "sanitizeNumber (js E) (fst c) (JNum DEFAULT_COORDINATES_0)
      (JNum LATITUDE_MIN) (JNum LATITUDE_MAX) = Inr (JNum a)"
    using sanitizeNumber_numeric_default by blast
  obtain b where b: "sanitizeNumber (js E) (snd c) (JNum DEFAULT_COORDINATES_1)
      (JNum LONGITUDE_MIN) (JNum LONGITUDE_MAX) = Inr (JNum b)"
    using sanitizeNumber_numeric_default by blast
  let ?v = "Leaflet_panTo (view g) a b"
  from False show ?thesis
    by (intro exI [of _ "if truthy (opt_zoomLevel options)
                         then Leaflet_setZoom ?v (the_number (opt_zoomLevel options)) else ?v"])
       (simp add: GeoMap_panTo_def a b Let_def Leaflet_panTo_def Leaflet_setZoom_def)
qed

lemma GeoMap_centerOnWaypoint_frame:
  "\<exists>v. GeoMap_centerOnWaypoint E g ident options = Inr (g\<lparr>view := v\<rparr>)
       \<and> minZoom v = minZoom (view g) \<and> maxZoom v = maxZoom (view g)"
proof -
  obtain px where px: "sanitizeNumber (js E) (positionXPercentage options)
      (JNum DEFAULT_MAP_CENTER_X_PERCENTAGE) (JNum (Finite 0)) (JNum (Finite 1)) = Inr (JNum px)"
    using sanitizeNumber_numeric_default by blast
  obtain py where py: "sanitizeNumber (js E) (positionYPercentage options)
      (JNum DEFAULT_MAP_CENTER_Y_PERCENTAGE) (JNum (Finite 0)) (JNum (Finite 1)) = Inr (JNum py)"
    using sanitizeNumber_numeric_default by blast
  have noop: "\<exists>v. Inr g = (Inr (g\<lparr>view := v\<rparr>) :: error + geo_map)
       \<and> minZoom v = minZoom (view g) \<and> maxZoom v = maxZoom (view g)"
    by (intro exI [of _ "view g"]) simp
  show ?thesis
    using noop GeoMap_panTo_frame
    by (auto simp: GeoMap_centerOnWaypoint_def Let_def px py split: option.splits)
qed

lemma GeoMap_centerOnWaypoint_zero_size:
  "fst (gm_size g) = Finite 0 \<or> snd (gm_size g) = Finite 0 \<Longrightarrow>
   GeoMap_centerOnWaypoint E g ident options = Inr g"
  by (auto simp: GeoMap_centerOnWaypoint_def GeoMap_getSize_def Let_def num_eq_def)

lemma GeoMap_reset_frame:
  "\<exists>v. GeoMap_reset E g =
          Inr (g\<lparr>waypoints := map (Waypoint_setOpen False) (waypoints g), view := v\<rparr>)
       \<and> minZoom v = minZoom (view g) \<and> maxZoom v = maxZoom (view g)"
proof (cases "waypoints g")
  case Nil
  then show ?thesis
    by (intro exI [of _ "view g"]) (simp add: GeoMap_reset_def)
next
  case (Cons w ws)
  let ?g = "g\<lparr>waypoints := map (Waypoint_setOpen False) (waypoints g)\<rparr>"
  let ?o = "\<lparr>positionXPercentage = JUndefined, positionYPercentage = JUndefined,
                opt_zoomLevel = gm_zoomLevel ?g\<rparr>"
  obtain v where v: "GeoMap_centerOnWaypoint E ?g (wp_id (Waypoint_setOpen False w)) ?o
      = Inr (?g\<lparr>view := v\<rparr>)" "minZoom v = minZoom (view ?g)" "maxZoom v = maxZoom (view ?g)"
    using GeoMap_centerOnWaypoint_frame by blast
  with Cons show ?thesis
    by (intro exI [of _ v]) (simp add: GeoMap_reset_def Let_def)
qed

lemma nth_setOpenWaypoint:
  "q < length (waypoints g) \<Longrightarrow>
   waypoints (GeoMap_setOpenWaypoint g r) ! q = Waypoint_setOpen (q = r) (waypoints g ! q)"
  by (simp add: GeoMap_setOpenWaypoint_def nth_enumerate_eq)

lemma length_setOpenWaypoint [simp]:
  "length (waypoints (GeoMap_setOpenWaypoint g r)) = length (waypoints g)"
  by (simp add: GeoMap_setOpenWaypoint_def)

lemma find_pos_Some:
  "find_pos P xs = Some p \<Longrightarrow> p < length xs \<and> P (xs ! p) \<and> (\<forall>q < p. \<not> P (xs ! q))"
proof (induction xs arbitrary: p)
  case Nil
  then show ?case by simp
next
  case (Cons x xs)
  show ?case
  proof (cases "P x")
    case True
    with Cons.prems show ?thesis by simp
  next
    case False
    with Cons.prems obtain p' where p': "find_pos P xs = Some p'" "p = Suc p'"
      by auto
    from Cons.IH [OF p'(1)] False p'(2) show ?thesis
      by (auto simp: nth_Cons split: nat.splits)
  qed
qed

lemma find_pos_None: "find_pos P xs = None \<longleftrightarrow> (\<forall>x \<in> set xs. \<not> P x)"
  by (induction xs) auto


section \<open>setView\<close>

lemma sanitizeNumber_bounds:
  "sanitizeNumber B v (JNum d) (JNum lo) (JNum hi) =
     Inr (JNum (case accepted_number B v of None \<Rightarrow> d | Some n \<Rightarrow> clamp_number lo hi n))"
proof (cases "accepted_number B v")
  case None
  then show ?thesis by (simp add: sanitizeNumber_rejected)
next
  case (Some n)
  then show ?thesis by (simp add: sanitizeNumber_accepted clamp_number_def)
qed

lemma accepted_number_not_NaN: "accepted_number B v = Some n \<Longrightarrow> n \<noteq> NaN"
  by (cases v) (auto simp: accepted_number_def split: if_splits)

lemma clamp_number_in_range:
  assumes "n \<noteq> NaN" "num_le lo hi"
  shows "num_le lo (clamp_number lo hi n) \<and> num_le (clamp_number lo hi n) hi"
  using assms
  by (cases n; cases lo; cases hi)
     (auto simp: clamp_number_def num_le_def num_ge_def num_gt_def)

lemma GeoMap_setView_eq:
  "GeoMap_setView E g (Object c) zl =
     Inr (g\<lparr>view := Leaflet_setView (view g)
            (case accepted_number (js E) (latitude c) of
               None \<Rightarrow> DEFAULT_COORDINATES_0
             | Some n \<Rightarrow> clamp_number LATITUDE_MIN LATITUDE_MAX n)
            (case accepted_number (js E) (longitude c) of
               None \<Rightarrow> DEFAULT_COORDINATES_1
             | Some n \<Rightarrow> clamp_number LONGITUDE_MIN LONGITUDE_MAX n)
            (case accepted_number (js E) zl of
               None \<Rightarrow> DEFAULT_ZOOM_LEVEL
             | Some n \<Rightarrow> clamp_number (minZoom (view g)) (maxZoom (view g)) n)\<rparr>)"
  by (simp add: GeoMap_setView_def read_coordinates_def Let_def sanitizeNumber_bounds)

lemma GeoMap_setView_null:
  "GeoMap_setView E g (Primitive JNull) zl = Inl (TypeError ''Cannot read properties of null'')"
  by (simp add: GeoMap_setView_def read_coordinates_def)

lemma GeoMap_setView_primitive:
  "p \<noteq> JNull \<Longrightarrow>
   GeoMap_setView E g (Primitive p) zl =
     GeoMap_setView E g (Object \<lparr>latitude = JUndefined, longitude = JUndefined\<rparr>) zl"
  by (cases p) (simp_all add: GeoMap_setView_def read_coordinates_def)

lemma latitude_sanitized_in_range:
  "num_le LATITUDE_MIN (case accepted_number B v of
       None \<Rightarrow> DEFAULT_COORDINATES_0 | Some n \<Rightarrow> clamp_number LATITUDE_MIN LATITUDE_MAX n)
   \<and> num_le (case accepted_number B v of
       None \<Rightarrow> DEFAULT_COORDINATES_0 | Some n \<Rightarrow> clamp_number LATITUDE_MIN LATITUDE_MAX n)
     LATITUDE_MAX"
proof (cases "accepted_number B v")
  case None
  then show ?thesis
    by (simp add: DEFAULT_COORDINATES_0_def LATITUDE_MIN_def LATITUDE_MAX_def
          num_le_def num_ge_def)
next
  case (Some n)
  have "num_le LATITUDE_MIN LATITUDE_MAX"
    by (simp add: LATITUDE_MIN_def LATITUDE_MAX_def num_le_def num_ge_def)
  with Some show ?thesis
    using clamp_number_in_range accepted_number_not_NaN by simp
qed

lemma longitude_sanitized_in_range:
  "num_le LONGITUDE_MIN (case accepted_number B v of
       None \<Rightarrow> DEFAULT_COORDINATES_1 | Some n \<Rightarrow> clamp_number LONGITUDE_MIN LONGITUDE_MAX n)
   \<and> num_le (case accepted_number B v of
       None \<Rightarrow> DEFAULT_COORDINATES_1 | Some n \<Rightarrow> clamp_number LONGITUDE_MIN LONGITUDE_MAX n)
     LONGITUDE_MAX"
proof (cases "accepted_number B v")
  case None
  then show ?thesis
    by (simp add: DEFAULT_COORDINATES_1_def LONGITUDE_MIN_def LONGITUDE_MAX_def
          num_le_def num_ge_def)
next
  case (Some n)
  have "num_le LONGITUDE_MIN LONGITUDE_MAX"
    by (simp add: LONGITUDE_MIN_def LONGITUDE_MAX_def num_le_def num_ge_def)
  with Some show ?thesis
    using clamp_number_in_range accepted_number_not_NaN by simp
qed

text \<open>
  Claim C8, as amended. With null as coordinates \<open>setView\<close> throws a \<open>TypeError\<close> and
  sets nothing. With any other coordinates and any zoom level it returns without
  throwing and sets the view to the sanitized latitude, longitude and zoom level: a
  latitude, longitude or zoom level that is accepted as a number is clamped into
  \<open>[-90, 90]\<close>, \<open>[-180, 180]\<close> and the map's zoom bounds; one that is not accepted is
  replaced by the fixed default (69.6456737, 18.9501558, zoom level 13), whatever the
  view was before; coordinates that are undefined or another primitive value are read
  as an object without latitude and longitude.
  The latitude and longitude set are always within their ranges, and so is an accepted
  zoom level when the map's minimum does not exceed its maximum. In particular latitude
  999 and longitude -200 give 90 and -180, and zoom level 50 gives the map's maximum
  when that is below 50 and not below the minimum.
\<close>

theorem GeoMap_setView_sanitizes:
  "\<exists>lat lng z.
     GeoMap_setView E g (Object c) zl = Inr (g\<lparr>view := Leaflet_setView (view g) lat lng z\<rparr>)
     \<and> lat = (case accepted_number (js E) (latitude c) of
                None \<Rightarrow> DEFAULT_COORDINATES_0
              | Some n \<Rightarrow> clamp_number LATITUDE_MIN LATITUDE_MAX n)
     \<and> lng = (case accepted_number (js E) (longitude c) of
                None \<Rightarrow> DEFAULT_COORDINATES_1
              | Some n \<Rightarrow> clamp_number LONGITUDE_MIN LONGITUDE_MAX n)
     \<and> z = (case accepted_number (js E) zl of
              None \<Rightarrow> DEFAULT_ZOOM_LEVEL
            | Some n \<Rightarrow> clamp_number (minZoom (view g)) (maxZoom (view g)) n)
     \<and> num_le LATITUDE_MIN lat \<and> num_le lat LATITUDE_MAX
     \<and> num_le LONGITUDE_MIN lng \<and> num_le lng LONGITUDE_MAX
     \<and> (accepted_number (js E) zl \<noteq> None \<longrightarrow> num_le (minZoom (view g)) (maxZoom (view g)) \<longrightarrow>
          num_le (minZoom (view g)) z \<and> num_le z (maxZoom (view g)))
     \<and> (latitude c = JNum (Finite 999) \<longrightarrow> lat = Finite 90)
     \<and> (longitude c = JNum (Finite (- 200)) \<longrightarrow> lng = Finite (- 180))
     \<and> (zl = JNum (Finite 50) \<longrightarrow> num_lt (maxZoom (view g)) (Finite 50) \<longrightarrow>
          num_le (minZoom (view g)) (Finite 50) \<longrightarrow> z = maxZoom (view g))
     \<and> (\<forall>p. p \<noteq> JNull \<longrightarrow>
           GeoMap_setView E g (Primitive p) zl =
             GeoMap_setView E g (Object \<lparr>latitude = JUndefined, longitude = JUndefined\<rparr>) zl)
     \<and> GeoMap_setView E g (Primitive JNull) zl
           = Inl (TypeError ''Cannot read properties of null'')"
proof -
  let ?lat = "case accepted_number (js E) (latitude c) of
                None \<Rightarrow> DEFAULT_COORDINATES_0
              | Some n \<Rightarrow> clamp_number LATITUDE_MIN LATITUDE_MAX n"
  let ?lng = "case accepted_number (js E) (longitude c) of
                None \<Rightarrow> DEFAULT_COORDINATES_1
              | Some n \<Rightarrow> clamp_number LONGITUDE_MIN LONGITUDE_MAX n"
  let ?z = "case accepted_number (js E) zl of
              None \<Rightarrow> DEFAULT_ZOOM_LEVEL
            | Some n \<Rightarrow> clamp_number (minZoom (view g)) (maxZoom (view g)) n"
  have run: "GeoMap_setView E g (Object c) zl
      = Inr (g\<lparr>view := Leaflet_setView (view g) ?lat ?lng ?z\<rparr>)"
    by (simp add: GeoMap_setView_eq)
  have zoom_range: "num_le (minZoom (view g)) ?z \<and> num_le ?z (maxZoom (view g))"
    if "accepted_number (js E) zl \<noteq> None" "num_le (minZoom (view g)) (maxZoom (view g))"
    using that clamp_number_in_range accepted_number_not_NaN by (auto split: option.splits)
  have ex_lat: "?lat = Finite 90" if "latitude c = JNum (Finite 999)"
    using that
    by (simp add: accepted_number_def clamp_number_def LATITUDE_MIN_def LATITUDE_MAX_def
          num_gt_def)
  have ex_lng: "?lng = Finite (- 180)" if "longitude c = JNum (Finite (- 200))"
    using that
    by (simp add: accepted_number_def clamp_number_def LONGITUDE_MIN_def LONGITUDE_MAX_def
          num_gt_def)
  have ex_zoom: "?z = maxZoom (view g)"
    if "zl = JNum (Finite 50)" "num_lt (maxZoom (view g)) (Finite 50)"
       "num_le (minZoom (view g)) (Finite 50)"
    using that
    by (cases "minZoom (view g)")
       (auto simp: accepted_number_def clamp_number_def num_gt_def num_le_def num_ge_def)
  have prim: "\<forall>p. p \<noteq> JNull \<longrightarrow>
           GeoMap_setView E g (Primitive p) zl =
             GeoMap_setView E g (Object \<lparr>latitude = JUndefined, longitude = JUndefined\<rparr>) zl"
    by (intro allI impI) (rule GeoMap_setView_primitive)
  have null: "GeoMap_setView E g (Primitive JNull) zl
           = Inl (TypeError ''Cannot read properties of null'')"
    by (rule GeoMap_setView_null)
  note facts = run zoom_range ex_lat ex_lng ex_zoom
      latitude_sanitized_in_range [of "js E" "latitude c"]
      longitude_sanitized_in_range [of "js E" "longitude c"]
  show ?thesis
    by (intro exI [of _ ?lat] exI [of _ ?lng] exI [of _ ?z] conjI;
        (rule prim | rule null | (insert facts, blast)))
qed

lemmas geo_constants =
  LATITUDE_MIN_def LATITUDE_MAX_def LONGITUDE_MIN_def LONGITUDE_MAX_def
  DEFAULT_COORDINATES_0_def DEFAULT_COORDINATES_1_def DEFAULT_ZOOM_LEVEL_def

theorem GeoMap_setView_sanitizes_witness:
  "GeoMap_setView sample_env sample_geo_map
     (Object \<lparr>latitude = JNum (Finite 999), longitude = JNum (Finite (- 200))\<rparr>)
     (JNum (Finite 50))
   = Inr (sample_geo_map\<lparr>view :=
            Leaflet_setView (view sample_geo_map) (Finite 90) (Finite (- 180)) (Finite 18)\<rparr>)
   \<and> GeoMap_setView sample_env sample_geo_map (Primitive (JStr ''here'')) (JNum (Finite 50))
     = Inr (sample_geo_map\<lparr>view :=
            Leaflet_setView (view sample_geo_map) (Finite 69.6456737) (Finite 18.9501558)
              (Finite 18)\<rparr>)"
proof -
  note c = GeoMap_setView_sanitizes [of sample_env sample_geo_map
      "\<lparr>latitude = JNum (Finite 999), longitude = JNum (Finite (- 200))\<rparr>" "JNum (Finite 50)"]
  have bounds: "num_lt (maxZoom (view sample_geo_map)) (Finite 50)"
    "num_le (minZoom (view sample_geo_map)) (Finite 50)"
    "maxZoom (view sample_geo_map) = Finite 18"
    by (simp_all add: sample_geo_map_def num_le_def num_ge_def)
  have undef: "GeoMap_setView sample_env sample_geo_map
      (Object \<lparr>latitude = JUndefined, longitude = JUndefined\<rparr>) (JNum (Finite 50))
     = Inr (sample_geo_map\<lparr>view :=
            Leaflet_setView (view sample_geo_map) (Finite 69.6456737) (Finite 18.9501558)
              (Finite 18)\<rparr>)"
    by (simp add: GeoMap_setView_eq accepted_number_def clamp_number_def geo_constants
          sample_geo_map_def num_gt_def)
  have str: "JStr ''here'' \<noteq> JNull"
    by simp
  from c bounds have "GeoMap_setView sample_env sample_geo_map
     (Object \<lparr>latitude = JNum (Finite 999), longitude = JNum (Finite (- 200))\<rparr>)
     (JNum (Finite 50))
   = Inr (sample_geo_map\<lparr>view :=
            Leaflet_setView (view sample_geo_map) (Finite 90) (Finite (- 180)) (Finite 18)\<rparr>)"
    by auto
  moreover from c str undef have "GeoMap_setView sample_env sample_geo_map
      (Primitive (JStr ''here'')) (JNum (Finite 50))
     = Inr (sample_geo_map\<lparr>view :=
            Leaflet_setView (view sample_geo_map) (Finite 69.6456737) (Finite 18.9501558)
              (Finite 18)\<rparr>)"
    by auto
  ultimately show ?thesis by simp
qed

text \<open>
  The claim as stated fails: with a view at latitude 10 and zoom level 5 (set by an
  earlier \<open>setView\<close>), a latitude that is not a number and a zoom level of null give the
  defaults 69.6456737 and 13, not the last-known values; and with null as coordinates
  \<open>setView\<close> throws.
\<close>

theorem GeoMap_setView_last_known_counterexample:
  "GeoMap_setView sample_env
     (sample_geo_map\<lparr>view := (view sample_geo_map)\<lparr>center_lat := NaN, center_lng := NaN,
                                                  zoom := NaN\<rparr>\<rparr>)
     (Object \<lparr>latitude = JNum (Finite 10), longitude = JNum (Finite 20)\<rparr>) (JNum (Finite 5))
     = Inr sample_geo_map
   \<and> center_lat (view sample_geo_map) = Finite 10
   \<and> zoom (view sample_geo_map) = Finite 5
   \<and> GeoMap_setView sample_env sample_geo_map
       (Object \<lparr>latitude = JStr ''north'', longitude = JNum (Finite 20)\<rparr>) JNull
     = Inr (sample_geo_map\<lparr>view :=
         (view sample_geo_map)\<lparr>center_lat := Finite 69.6456737, center_lng := Finite 20,
                                zoom := Finite 13\<rparr>\<rparr>)
   \<and> GeoMap_setView sample_env sample_geo_map (Primitive JNull) (JNum (Finite 5))
     = Inl (TypeError ''Cannot read properties of null'')"
  by (simp add: GeoMap_setView_eq GeoMap_setView_null accepted_number_def clamp_number_def
        geo_constants sample_geo_map_def num_gt_def Leaflet_setView_def sample_env_def
        sample_defs)

section \<open>Properties of the navigation operations\<close>

lemma disabled_Button_enable [simp]: "disabled (Button_enable b) = False"
  by (simp add: Button_enable_def Button_activate_def Button_deactivate_def Let_def)

lemma disabled_Button_disable [simp]: "disabled (Button_disable b) = True"
  by (simp add: Button_disable_def)

lemma NavigationBar_update_left [simp]:
  "disabled (nb_left (NavigationBar_update nb (JBool l) r t)) = (\<not> l)"
  by (cases r; cases t) (simp_all add: NavigationBar_update_def Let_def)

lemma NavigationBar_update_right [simp]:
  "disabled (nb_right (NavigationBar_update nb l (JBool r) t)) = (\<not> r)"
  by (cases l; cases t) (simp_all add: NavigationBar_update_def Let_def)

lemma NavigationBar_update_minimap [simp]:
  "nb_minimap (NavigationBar_update nb l r t) = nb_minimap nb"
  by (cases l; cases r; cases t) (simp_all add: NavigationBar_update_def Let_def)

lemma geoMap_set_geoMap [simp]: "geoMap (set_geoMap s g) = g"
  by (simp add: geoMap_def set_geoMap_def)

lemma geoMap_other_updates [simp]:
  "geoMap (s\<lparr>navigationBar := nb\<rparr>) = geoMap s"
  "geoMap (s\<lparr>openWaypointContentIndex := i\<rparr>) = geoMap s"
  "geoMap (s\<lparr>main_map := m\<rparr>) = mc_geoMap m"
  by (simp_all add: geoMap_def)

lemma set_geoMap_fields [simp]:
  "openWaypointContentIndex (set_geoMap s g) = openWaypointContentIndex s"
  "lastMarkerIndex (set_geoMap s g) = lastMarkerIndex s"
  "navigationBar (set_geoMap s g) = navigationBar s"
  by (simp_all add: set_geoMap_def)

lemma set_view_fields [simp]:
  "openWaypointContentIndex (set_view s v) = openWaypointContentIndex s"
  "lastMarkerIndex (set_view s v) = lastMarkerIndex s"
  "navigationBar (set_view s v) = navigationBar s"
  "waypoints (geoMap (set_view s v)) = waypoints (geoMap s)"
  "miniMapVisible (geoMap (set_view s v)) = miniMapVisible (geoMap s)"
  "gm_size (geoMap (set_view s v)) = gm_size (geoMap s)"
  "view (geoMap (set_view s v)) = v"
  by (simp_all add: set_view_def)

lemma set_view_same [simp]: "set_view s (view (geoMap s)) = s"
  by (simp add: set_view_def set_geoMap_def geoMap_def)

lemma Main_updateButtonDisabledStates_fields [simp]:
  "openWaypointContentIndex (Main_updateButtonDisabledStates s) = openWaypointContentIndex s"
  "lastMarkerIndex (Main_updateButtonDisabledStates s) = lastMarkerIndex s"
  "main_map (Main_updateButtonDisabledStates s) = main_map s"
  "geoMap (Main_updateButtonDisabledStates s) = geoMap s"
  by (simp_all add: Main_updateButtonDisabledStates_def Let_def geoMap_def)

lemma Main_updateButtonDisabledStates_buttons [simp]:
  "disabled (nb_left (navigationBar (Main_updateButtonDisabledStates s)))
     = (\<not> num_gt (openWaypointContentIndex s) (Finite 0))"
  "disabled (nb_right (navigationBar (Main_updateButtonDisabledStates s)))
     = (\<not> num_lt (openWaypointContentIndex s) (Finite (real_of_int (lastMarkerIndex s))))"
  "nb_minimap (navigationBar (Main_updateButtonDisabledStates s)) = nb_minimap (navigationBar s)"
  by (simp_all add: Main_updateButtonDisabledStates_def Let_def)

lemma Main_handleWaypointContentOpened_fields [simp]:
  "openWaypointContentIndex (Main_handleWaypointContentOpened s i) = Finite (real_of_int i)"
  "lastMarkerIndex (Main_handleWaypointContentOpened s i) = lastMarkerIndex s"
  "main_map (Main_handleWaypointContentOpened s i) = main_map s"
  "geoMap (Main_handleWaypointContentOpened s i) = geoMap s"
  by (simp_all add: Main_handleWaypointContentOpened_def geoMap_def)

lemma Main_handleWaypointContentOpened_buttons [simp]:
  "disabled (nb_left (navigationBar (Main_handleWaypointContentOpened s i))) = (\<not> 0 < i)"
  "disabled (nb_right (navigationBar (Main_handleWaypointContentOpened s i)))
     = (\<not> i < lastMarkerIndex s)"
  "nb_minimap (navigationBar (Main_handleWaypointContentOpened s i))
     = nb_minimap (navigationBar s)"
  by (simp_all add: Main_handleWaypointContentOpened_def num_gt_def)

lemma Map_centerOnWaypoint_frame:
  "\<exists>v. Map_centerOnWaypoint E s w b = Inr (set_view s v)
       \<and> minZoom v = minZoom (view (geoMap s)) \<and> maxZoom v = maxZoom (view (geoMap s))"
proof (cases "deref (geoMap s) w")
  case None
  then show ?thesis
    by (intro exI [of _ "view (geoMap s)"]) (simp add: Map_centerOnWaypoint_def)
next
  case (Some wp)
  let ?o = "\<lparr>positionXPercentage =
               JNum (if b then MAP_CENTER_X_PERCENTAGE_CONTENT_OPEN else MAP_CENTER_X_PERCENTAGE),
             positionYPercentage = JUndefined, opt_zoomLevel = JUndefined\<rparr>"
  obtain v where "GeoMap_centerOnWaypoint E (geoMap s) (wp_id wp) ?o = Inr ((geoMap s)\<lparr>view := v\<rparr>)"
    "minZoom v = minZoom (view (geoMap s))" "maxZoom v = maxZoom (view (geoMap s))"
    using GeoMap_centerOnWaypoint_frame by blast
  with Some show ?thesis
    by (intro exI [of _ v]) (simp add: Map_centerOnWaypoint_def Let_def set_view_def)
qed

lemma Map_centerOnWaypoint_zero_size:
  "fst (gm_size (geoMap s)) = Finite 0 \<or> snd (gm_size (geoMap s)) = Finite 0 \<Longrightarrow>
   Map_centerOnWaypoint E s w b = Inr s"
  by (cases "deref (geoMap s) w")
     (simp_all add: Map_centerOnWaypoint_def Let_def GeoMap_centerOnWaypoint_zero_size
        set_geoMap_def geoMap_def)

lemma Main_onMarkerFocus_frame:
  "\<exists>v. Main_onMarkerFocus E s w = Inr (set_view s v)
       \<and> minZoom v = minZoom (view (geoMap s)) \<and> maxZoom v = maxZoom (view (geoMap s))"
  unfolding Main_onMarkerFocus_def by (rule Map_centerOnWaypoint_frame)

text \<open>The state after a waypoint was opened, before the map is centred on it.\<close>

lemma Map_openWaypointContent_noop:
  "w = None \<or> (\<exists>r. w = Some r \<and> (length (waypoints (geoMap s)) \<le> r
       \<or> markerIsOpen (waypoints (geoMap s) ! r) = Some True)) \<Longrightarrow>
   Map_openWaypointContent E s w p = Inr s"
  by (auto simp: Map_openWaypointContent_def deref_def Waypoint_isOpen_def
           split: option.splits)

lemma Map_openWaypointContent_opens:
  assumes "r < length (waypoints (geoMap s))"
    and "markerIsOpen (waypoints (geoMap s) ! r) \<noteq> Some True"
  shows "\<exists>v. Map_openWaypointContent E s (Some r) p =
           Inr (set_view
                 (Main_handleWaypointContentOpened
                    (s\<lparr>main_map := (main_map s)\<lparr>mc_geoMap := GeoMap_setOpenWaypoint (geoMap s) r,
                                    overlayContent := Some r, overlayHidden := False\<rparr>\<rparr>)
                    (wp_index (waypoints (geoMap s) ! r))) v)
         \<and> (strict_eq p (JBool False) \<longrightarrow> v = view (geoMap s))
         \<and> minZoom v = minZoom (view (geoMap s)) \<and> maxZoom v = maxZoom (view (geoMap s))"
proof -
  let ?w = "waypoints (geoMap s) ! r"
  let ?s3 = "Main_handleWaypointContentOpened
               (s\<lparr>main_map := (main_map s)\<lparr>mc_geoMap := GeoMap_setOpenWaypoint (geoMap s) r,
                               overlayContent := Some r, overlayHidden := False\<rparr>\<rparr>)
               (wp_index ?w)"
  have closed: "\<not> truthy (Waypoint_isOpen ?w)"
    using assms(2) by (cases "markerIsOpen ?w") (auto simp: Waypoint_isOpen_def)
  have view3: "view (geoMap ?s3) = view (geoMap s)"
    by (simp add: geoMap_def GeoMap_setOpenWaypoint_def)
  have step: "Map_openWaypointContent E s (Some r) p =
      (if strict_eq p (JBool False) then Inr ?s3 else Main_onMarkerFocus E ?s3 (Some r))"
    using assms(1) closed
    by (simp add: Map_openWaypointContent_def deref_def Let_def set_geoMap_def geoMap_def)
  show ?thesis
  proof (cases "strict_eq p (JBool False)")
    case True
    have "set_view ?s3 (view (geoMap ?s3)) = ?s3"
      by (rule set_view_same)
    then have "set_view ?s3 (view (geoMap s)) = ?s3"
      by (simp only: view3)
    with step True have "Map_openWaypointContent E s (Some r) p
        = Inr (set_view ?s3 (view (geoMap s)))"
      by (simp only: if_True)
    then show ?thesis by blast
  next
    case False
    obtain v where "Main_onMarkerFocus E ?s3 (Some r) = Inr (set_view ?s3 v)"
      "minZoom v = minZoom (view (geoMap ?s3))" "maxZoom v = maxZoom (view (geoMap ?s3))"
      using Main_onMarkerFocus_frame by blast
    with False step view3 show ?thesis
      by (intro exI [of _ v]) simp
  qed
qed


text \<open>The defining equations, for running the model on concrete inputs.\<close>

lemmas js_defs =
  num_gt_def num_ge_def num_le_def num_eq_def num_minus_def strict_neq_def

lemmas geo_map_defs =
  geo_constants MAP_SERVICES_def deref_def read_coordinates_def GeoMap_setView_def
  GeoMap_getSize_def
  GeoMap_getCoordinates_def GeoMap_getZoomLevel_def
  GeoMap_getWaypointByIndex_def GeoMap_getWaypointById_def GeoMap_panTo_def
  GeoMap_centerOnWaypoint_def GeoMap_reset_def GeoMap_toggleMiniMapVisibility_def
  GeoMap_setMapStyle_def GeoMap_setOpenWaypoint_def GeoMap_addWaypoint_def GeoMap_new_def
  Waypoint_new_def Waypoint_setOpen_def Waypoint_isOpen_def
  Leaflet_setView_def Leaflet_panTo_def Leaflet_setZoom_def point_subtract_def
  DEFAULT_MAP_CENTER_X_PERCENTAGE_def DEFAULT_MAP_CENTER_Y_PERCENTAGE_def
  sanitizeNumber_def

lemmas navigation_bar_defs =
  Button_activate_def Button_deactivate_def Button_enable_def Button_disable_def
  Button_new_def Button_toggle_def Button_forceState_def Button_click_def
  NavigationBar_new_def NavigationBar_update_def NavigationBar_reset_def
  NavigationBar_getCurrentState_def

lemmas main_defs =
  geoMap_def set_geoMap_def Map_getWaypointByIndex_def
  MAP_CENTER_X_PERCENTAGE_def MAP_CENTER_X_PERCENTAGE_CONTENT_OPEN_def
  Main_updateButtonDisabledStates_def Main_handleWaypointContentOpened_def
  Map_centerOnWaypoint_def Main_onMarkerFocus_def Map_openWaypointContent_def
  Map_openWaypointContentByIndex_def Main_goBackward_def Main_goForward_def
  Map_reset_def Main_reset_def Main_toggleMiniMap_def
  Main_getCurrentOpenWaypointContentIndex_def NavigationBar_clickMiniMap_def
  NavigationBar_setCurrentState_def Map_getCurrentState_def Map_setCurrentState_def
  Main_getCurrentState_def Main_setCurrentState_def Main_new_def StoryMap_new_def

lemmas sample_env_defs =
  sample_defs sample_env_def sample_toPoint_def sample_toLatLng_def
  sample_waypoints_def sample_config_def sample_main_def sample_opened_def
  sample_scenario_def sample_geo_map_def

lemmas run_defs =
  js_defs geo_map_defs navigation_bar_defs main_defs sample_env_defs Let_def
  enumerate_eq_zip


section \<open>Every operation succeeds and keeps the waypoints well-formed\<close>

lemma filter_open_setOpen_above:
  "r < n \<Longrightarrow>
   filter (\<lambda>w. markerIsOpen w = Some True)
     (map (\<lambda>(p, w). Waypoint_setOpen (p = r) w) (enumerate n ws)) = []"
  by (induction ws arbitrary: n) (auto simp: Waypoint_setOpen_def)

lemma length_filter_open_setOpen:
  "length (filter (\<lambda>w. markerIsOpen w = Some True)
     (map (\<lambda>(p, w). Waypoint_setOpen (p = r) w) (enumerate n ws))) \<le> 1"
proof (induction ws arbitrary: n)
  case Nil
  then show ?case by simp
next
  case (Cons x xs)
  show ?case
  proof (cases "n = r")
    case True
    then show ?thesis
      using filter_open_setOpen_above [of r "Suc n" xs] by (simp add: Waypoint_setOpen_def)
  next
    case False
    then show ?thesis
      using Cons.IH [of "Suc n"] by (simp add: Waypoint_setOpen_def)
  qed
qed

lemma open_step_refl [simp]: "open_step ws ws"
  by (simp add: open_step_def)

lemma open_step_length: "open_step ws ws' \<Longrightarrow> length ws' = length ws"
  by (auto simp: open_step_def)

lemma open_step_indices: "open_step ws ws' \<Longrightarrow> map wp_index ws' = map wp_index ws"
proof -
  assume "open_step ws ws'"
  then consider "ws' = ws"
    | r where "ws' = map (\<lambda>(p, w). Waypoint_setOpen (p = r) w) (enumerate 0 ws)"
    | "ws' = map (Waypoint_setOpen False) ws"
    by (auto simp: open_step_def)
  then show ?thesis
  proof cases
    case 1
    then show ?thesis by simp
  next
    case 2
    then show ?thesis
      by (intro nth_equalityI) (simp_all add: nth_enumerate_eq Waypoint_setOpen_def)
  next
    case 3
    then show ?thesis by (simp add: Waypoint_setOpen_def comp_def)
  qed
qed

lemma open_step_indexed: "open_step ws ws' \<Longrightarrow> indexed ws \<Longrightarrow> indexed ws'"
  using open_step_indices [of ws ws'] open_step_length [of ws ws']
  by (simp add: indexed_def)

lemma open_step_at_most_one:
  "open_step ws ws' \<Longrightarrow> at_most_one_open ws \<Longrightarrow> at_most_one_open ws'"
proof -
  assume step: "open_step ws ws'" and one: "at_most_one_open ws"
  from step consider "ws' = ws"
    | r where "ws' = map (\<lambda>(p, w). Waypoint_setOpen (p = r) w) (enumerate 0 ws)"
    | "ws' = map (Waypoint_setOpen False) ws"
    by (auto simp: open_step_def)
  then show ?thesis
  proof cases
    case 1
    with one show ?thesis by simp
  next
    case 2
    then show ?thesis
      using length_filter_open_setOpen [of r 0 ws] by (simp add: at_most_one_open_def)
  next
    case 3
    then show ?thesis
      by (simp add: at_most_one_open_def filter_map comp_def Waypoint_setOpen_def)
  qed
qed

lemma Map_openWaypointContent_step:
  "\<exists>s'. Map_openWaypointContent E s w p = Inr s'
        \<and> lastMarkerIndex s' = lastMarkerIndex s
        \<and> open_step (waypoints (geoMap s)) (waypoints (geoMap s'))"
proof (cases "w = None \<or> (\<exists>r. w = Some r \<and> (length (waypoints (geoMap s)) \<le> r
       \<or> markerIsOpen (waypoints (geoMap s) ! r) = Some True))")
  case True
  then have "Map_openWaypointContent E s w p = Inr s"
    by (rule Map_openWaypointContent_noop)
  then show ?thesis by simp
next
  case False
  then obtain r where r: "w = Some r" "r < length (waypoints (geoMap s))"
    "markerIsOpen (waypoints (geoMap s) ! r) \<noteq> Some True"
    by (cases w) auto
  let ?s3 = "Main_handleWaypointContentOpened
               (s\<lparr>main_map := (main_map s)\<lparr>mc_geoMap := GeoMap_setOpenWaypoint (geoMap s) r,
                               overlayContent := Some r, overlayHidden := False\<rparr>\<rparr>)
               (wp_index (waypoints (geoMap s) ! r))"
  obtain v where v: "Map_openWaypointContent E s (Some r) p = Inr (set_view ?s3 v)"
    using Map_openWaypointContent_opens [OF r(2,3)] by blast
  have "waypoints (geoMap (set_view ?s3 v)) = waypoints (GeoMap_setOpenWaypoint (geoMap s) r)"
    by simp
  then have "open_step (waypoints (geoMap s)) (waypoints (geoMap (set_view ?s3 v)))"
    using r(2) by (auto simp: open_step_def GeoMap_setOpenWaypoint_def)
  with v r(1) show ?thesis by simp
qed

lemma Map_openWaypointContentByIndex_step:
  "\<exists>s'. Map_openWaypointContentByIndex E s i p = Inr s'
        \<and> lastMarkerIndex s' = lastMarkerIndex s
        \<and> open_step (waypoints (geoMap s)) (waypoints (geoMap s'))"
  using Map_openWaypointContent_step
  by (cases "Map_getWaypointByIndex s i") (simp_all add: Map_openWaypointContentByIndex_def)

lemma Main_onMarkerFocus_step:
  "\<exists>s'. Main_onMarkerFocus E s w = Inr s'
        \<and> lastMarkerIndex s' = lastMarkerIndex s
        \<and> open_step (waypoints (geoMap s)) (waypoints (geoMap s'))"
  using Main_onMarkerFocus_frame [of E s w] by auto

lemma Main_reset_eq:
  "\<exists>v. Main_reset E s =
     Inr ((Main_updateButtonDisabledStates (s\<lparr>openWaypointContentIndex := Finite (- 1)\<rparr>))
            \<lparr>navigationBar :=
               NavigationBar_reset (navigationBar
                 (Main_updateButtonDisabledStates (s\<lparr>openWaypointContentIndex := Finite (- 1)\<rparr>))),
             main_map := (main_map s)
               \<lparr>overlayHidden := True,
                mc_geoMap := (geoMap s)
                  \<lparr>waypoints := map (Waypoint_setOpen False) (waypoints (geoMap s)),
                   view := v\<rparr>\<rparr>\<rparr>)"
proof -
  let ?s2 = "Main_updateButtonDisabledStates (s\<lparr>openWaypointContentIndex := Finite (- 1)\<rparr>)"
  obtain v where "GeoMap_reset E (geoMap s) =
      Inr ((geoMap s)\<lparr>waypoints := map (Waypoint_setOpen False) (waypoints (geoMap s)),
                      view := v\<rparr>)"
    using GeoMap_reset_frame by blast
  then show ?thesis
    by (intro exI [of _ v])
       (simp add: Main_reset_def Map_reset_def Let_def geoMap_def set_geoMap_def)
qed

lemma Main_reset_step:
  "\<exists>s'. Main_reset E s = Inr s'
        \<and> lastMarkerIndex s' = lastMarkerIndex s
        \<and> open_step (waypoints (geoMap s)) (waypoints (geoMap s'))"
  using Main_reset_eq [of E s] by (auto simp: open_step_def geoMap_def)

lemma Main_toggleMiniMap_waypoints [simp]:
  "waypoints (geoMap (Main_toggleMiniMap s)) = waypoints (geoMap s)"
  "lastMarkerIndex (Main_toggleMiniMap s) = lastMarkerIndex s"
  "openWaypointContentIndex (Main_toggleMiniMap s) = openWaypointContentIndex s"
  "view (geoMap (Main_toggleMiniMap s)) = view (geoMap s)"
  "navigationBar (Main_toggleMiniMap s) = navigationBar s"
  by (simp_all add: Main_toggleMiniMap_def GeoMap_toggleMiniMapVisibility_def)

lemma NavigationBar_clickMiniMap_fields [simp]:
  "waypoints (geoMap (NavigationBar_clickMiniMap s)) = waypoints (geoMap s)"
  "lastMarkerIndex (NavigationBar_clickMiniMap s) = lastMarkerIndex s"
  by (simp_all add: NavigationBar_clickMiniMap_def Let_def split: option.splits)

lemma NavigationBar_setCurrentState_fields [simp]:
  "waypoints (geoMap (NavigationBar_setCurrentState s st)) = waypoints (geoMap s)"
  "lastMarkerIndex (NavigationBar_setCurrentState s st) = lastMarkerIndex s"
  "openWaypointContentIndex (NavigationBar_setCurrentState s st) = openWaypointContentIndex s"
  "view (geoMap (NavigationBar_setCurrentState s st)) = view (geoMap s)"
  by (simp_all add: NavigationBar_setCurrentState_def Let_def split: option.splits)

lemma Map_setCurrentState_frame:
  "\<exists>v. Map_setCurrentState E s st = Inr (set_view s v)
       \<and> minZoom v = minZoom (view (geoMap s)) \<and> maxZoom v = maxZoom (view (geoMap s))"
proof -
  let ?st = "case st of None \<Rightarrow> \<lparr>ms_zoomLevel = JUndefined, ms_coordinates = None\<rparr> | Some x \<Rightarrow> x"
  let ?c = "case ms_coordinates ?st of
              None \<Rightarrow> \<lparr>latitude = JUndefined, longitude = JUndefined\<rparr> | Some c \<Rightarrow> c"
  obtain lat lng z where sv: "GeoMap_setView E (geoMap s) (Object ?c) (ms_zoomLevel ?st)
      = Inr ((geoMap s)\<lparr>view := Leaflet_setView (view (geoMap s)) lat lng z\<rparr>)"
    using GeoMap_setView_frame by blast
  have "Map_setCurrentState E s st = Inr s
      \<or> Map_setCurrentState E s st = Inr (set_view s (Leaflet_setView (view (geoMap s)) lat lng z))"
  proof (cases "ms_coordinates ?st")
    case None
    then show ?thesis
      by (simp add: Map_setCurrentState_def Let_def)
  next
    case (Some c)
    with sv show ?thesis
      by (simp add: Map_setCurrentState_def Let_def set_view_def)
  qed
  then show ?thesis
  proof
    assume "Map_setCurrentState E s st = Inr s"
    then show ?thesis by (intro exI [of _ "view (geoMap s)"]) simp
  next
    assume "Map_setCurrentState E s st
      = Inr (set_view s (Leaflet_setView (view (geoMap s)) lat lng z))"
    then show ?thesis
      by (intro exI [of _ "Leaflet_setView (view (geoMap s)) lat lng z"])
         (simp add: Leaflet_setView_def)
  qed
qed

lemma Main_setCurrentState_step:
  "\<exists>s'. Main_setCurrentState E s st = Inr s'
        \<and> lastMarkerIndex s' = lastMarkerIndex s
        \<and> open_step (waypoints (geoMap s)) (waypoints (geoMap s'))"
proof -
  let ?s3 = "NavigationBar_setCurrentState
               (Main_updateButtonDisabledStates
                  (s\<lparr>openWaypointContentIndex :=
                       (case ss_openWaypointContentIndex st of
                          None \<Rightarrow> Finite (- 1) | Some n \<Rightarrow> n)\<rparr>))
               (ss_navigationBar st)"
  let ?i = "case ss_openWaypointContentIndex st of None \<Rightarrow> JUndefined | Some n \<Rightarrow> JNum n"
  obtain v where v: "Map_setCurrentState E ?s3 (ss_map st) = Inr (set_view ?s3 v)"
    using Map_setCurrentState_frame by blast
  obtain s' where s': "Map_openWaypointContentByIndex E (set_view ?s3 v) ?i (JBool False) = Inr s'"
    "lastMarkerIndex s' = lastMarkerIndex (set_view ?s3 v)"
    "open_step (waypoints (geoMap (set_view ?s3 v))) (waypoints (geoMap s'))"
    using Map_openWaypointContentByIndex_step by blast
  have "Main_setCurrentState E s st = Inr s'"
    by (simp add: Main_setCurrentState_def Let_def v s'(1))
  moreover have "waypoints (geoMap (set_view ?s3 v)) = waypoints (geoMap s)"
    by simp
  moreover have "lastMarkerIndex (set_view ?s3 v) = lastMarkerIndex s"
    by simp
  ultimately show ?thesis
    using s'(2,3) by simp
qed

lemma perform_step:
  "\<exists>s'. perform E s a = Inr s'
        \<and> lastMarkerIndex s' = lastMarkerIndex s
        \<and> open_step (waypoints (geoMap s)) (waypoints (geoMap s'))"
proof (cases a)
  case (OpenWaypointContent w p)
  then show ?thesis using Map_openWaypointContent_step by simp
next
  case (OpenWaypointContentByIndex i p)
  then show ?thesis using Map_openWaypointContentByIndex_step by simp
next
  case GoBackward
  then show ?thesis
    using Map_openWaypointContentByIndex_step by (simp add: Main_goBackward_def)
next
  case GoForward
  then show ?thesis
    using Map_openWaypointContentByIndex_step by (simp add: Main_goForward_def)
next
  case Reset
  then show ?thesis using Main_reset_step by simp
next
  case (MarkerFocus w)
  then show ?thesis using Main_onMarkerFocus_step by simp
next
  case ClickMiniMap
  then show ?thesis by simp
next
  case (SetCurrentState st)
  then show ?thesis using Main_setCurrentState_step by simp
next
  case (MoveMap lat lng z)
  then show ?thesis by simp
qed

lemma perform_all_invariant:
  "\<exists>s'. perform_all E s acts = Inr s'
        \<and> lastMarkerIndex s' = lastMarkerIndex s
        \<and> length (waypoints (geoMap s')) = length (waypoints (geoMap s))
        \<and> (indexed (waypoints (geoMap s)) \<longrightarrow> indexed (waypoints (geoMap s')))
        \<and> (at_most_one_open (waypoints (geoMap s)) \<longrightarrow> at_most_one_open (waypoints (geoMap s')))"
proof (induction acts arbitrary: s)
  case Nil
  then show ?case by simp
next
  case (Cons a acts)
  obtain s1 where s1: "perform E s a = Inr s1" "lastMarkerIndex s1 = lastMarkerIndex s"
    "open_step (waypoints (geoMap s)) (waypoints (geoMap s1))"
    using perform_step by blast
  obtain s' where s': "perform_all E s1 acts = Inr s'"
    "lastMarkerIndex s' = lastMarkerIndex s1"
    "length (waypoints (geoMap s')) = length (waypoints (geoMap s1))"
    "indexed (waypoints (geoMap s1)) \<longrightarrow> indexed (waypoints (geoMap s'))"
    "at_most_one_open (waypoints (geoMap s1)) \<longrightarrow> at_most_one_open (waypoints (geoMap s'))"
    using Cons.IH by blast
  show ?case
    using s1 s' open_step_length [OF s1(3)] open_step_indexed [OF s1(3)]
      open_step_at_most_one [OF s1(3)]
    by (intro exI [of _ s']) simp
qed


section \<open>The constructors\<close>

lemma foldl_addWaypoint:
  "foldl (GeoMap_addWaypoint E u) g ips = g\<lparr>waypoints := waypoints g @ map (Waypoint_new E u) ips\<rparr>"
  by (induction ips arbitrary: g) (simp_all add: GeoMap_addWaypoint_def)

lemma GeoMap_new_ok:
  "\<exists>z v. GeoMap_new E params =
       Inr \<lparr>gm_zoomLevel = JNum z,
            waypoints = map (Waypoint_new E (gp_unnamedWaypoint params))
                          (enumerate 0 (gp_waypoints params)),
            view = v, gm_size = gp_size params, miniMapVisible = None\<rparr>
     \<and> minZoom v = gp_minZoom params \<and> maxZoom v = gp_maxZoom params"
proof -
  obtain z where z: "sanitizeNumber (js E) (gp_zoomLevel params) (JNum DEFAULT_ZOOM_LEVEL)
      JUndefined JUndefined = Inr (JNum z)"
    using sanitizeNumber_numeric_default by blast
  obtain a where a: "sanitizeNumber (js E) (latitude (gp_coordinates params))
      (JNum DEFAULT_COORDINATES_0) (JNum LATITUDE_MIN) (JNum LATITUDE_MAX) = Inr (JNum a)"
    using sanitizeNumber_numeric_default by blast
  obtain b where b: "sanitizeNumber (js E) (longitude (gp_coordinates params))
      (JNum DEFAULT_COORDINATES_1) (JNum LONGITUDE_MIN) (JNum LONGITUDE_MAX) = Inr (JNum b)"
    using sanitizeNumber_numeric_default by blast
  let ?g = "\<lparr>gm_zoomLevel = JNum z, waypoints = [],
             view = \<lparr>center_lat = NaN, center_lng = NaN, zoom = NaN,
                     minZoom = gp_minZoom params, maxZoom = gp_maxZoom params\<rparr>,
             gm_size = gp_size params, miniMapVisible = None\<rparr>"
  obtain lat lng zz where sv: "GeoMap_setView E ?g (Object \<lparr>latitude = JNum a, longitude = JNum b\<rparr>)
      (JNum z) = Inr (?g\<lparr>view := Leaflet_setView (view ?g) lat lng zz\<rparr>)"
    using GeoMap_setView_frame by blast
  show ?thesis
    by (intro exI [of _ z] exI [of _ "Leaflet_setView (view ?g) lat lng zz"])
       (simp add: GeoMap_new_def z a b sv foldl_addWaypoint Leaflet_setView_def)
qed

lemma GeoMap_setMapStyle_fields [simp]:
  "waypoints (GeoMap_setMapStyle g m) = waypoints g"
  "view (GeoMap_setMapStyle g m) = view g"
  "gm_size (GeoMap_setMapStyle g m) = gm_size g"
  by (simp_all add: GeoMap_setMapStyle_def GeoMap_toggleMiniMapVisibility_def)

lemma indexed_new:
  "indexed (map (Waypoint_new E u) (enumerate 0 ps))"
  unfolding indexed_def
  by (intro nth_equalityI) (simp_all add: nth_enumerate_eq Waypoint_new_def Let_def)

lemma all_closed_new:
  "filter (\<lambda>w. markerIsOpen w = Some True) (map (Waypoint_new E u) (enumerate n ps)) = []"
  by (induction ps arbitrary: n) (simp_all add: Waypoint_new_def Let_def)

lemma Main_new_ok:
  "\<exists>s0. Main_new E cfg = Inr s0
      \<and> openWaypointContentIndex s0 = Finite (- 1)
      \<and> lastMarkerIndex s0 = int (length (cfg_waypoints cfg)) - 1
      \<and> waypoints (geoMap s0) =
          map (Waypoint_new E (cfg_unnamedWaypoint cfg)) (enumerate 0 (cfg_waypoints cfg))
      \<and> disabled (nb_left (navigationBar s0))
      \<and> disabled (nb_right (navigationBar s0)) = (cfg_waypoints cfg = [])
      \<and> gm_size (geoMap s0) = cfg_size cfg
      \<and> minZoom (view (geoMap s0)) = cfg_minZoom cfg
      \<and> maxZoom (view (geoMap s0)) = cfg_maxZoom cfg"
proof -
  let ?previousState = "case cfg_previousState cfg of None \<Rightarrow> None | Some st \<Rightarrow> ss_map st"
  let ?first = "case cfg_waypoints cfg of
               [] \<Rightarrow> \<lparr>latitude = JNull, longitude = JNull\<rparr>
             | w # _ \<Rightarrow> \<lparr>latitude = JNum (wpp_latitude w), longitude = JNum (wpp_longitude w)\<rparr>"
  let ?params = "\<lparr>gp_waypoints = cfg_waypoints cfg,
       gp_zoomLevel = nullish (case ?previousState of None \<Rightarrow> JUndefined | Some m \<Rightarrow> ms_zoomLevel m)
                        (cfg_zoomLevelDefault cfg),
       gp_coordinates = (case ?previousState of
                      None \<Rightarrow> ?first
                    | Some m \<Rightarrow> (case ms_coordinates m of None \<Rightarrow> ?first | Some c \<Rightarrow> c)),
       gp_unnamedWaypoint = cfg_unnamedWaypoint cfg,
       gp_minZoom = cfg_minZoom cfg, gp_maxZoom = cfg_maxZoom cfg,
       gp_size = cfg_size cfg\<rparr>"
  obtain z v where g: "GeoMap_new E ?params =
       Inr \<lparr>gm_zoomLevel = JNum z,
            waypoints = map (Waypoint_new E (gp_unnamedWaypoint ?params))
                          (enumerate 0 (gp_waypoints ?params)),
            view = v, gm_size = gp_size ?params, miniMapVisible = None\<rparr>"
     "minZoom v = gp_minZoom ?params" "maxZoom v = gp_maxZoom ?params"
    using GeoMap_new_ok by blast
  have empty_iff: "(- 1 < int (length (cfg_waypoints cfg)) - 1) = (cfg_waypoints cfg \<noteq> [])"
    by (cases "cfg_waypoints cfg") simp_all
  show ?thesis
    using g(2,3) empty_iff
    by (simp add: Main_new_def Let_def g(1) num_gt_def geoMap_def)
qed

section \<open>Looking up a waypoint by index\<close>

lemma indexed_nth: "indexed ws \<Longrightarrow> p < length ws \<Longrightarrow> wp_index (ws ! p) = int p"
proof -
  assume a: "indexed ws" "p < length ws"
  then have "map wp_index ws ! p = map int [0..<length ws] ! p"
    by (simp add: indexed_def)
  with a(2) show ?thesis by simp
qed

lemma find_pos_first:
  "p < length xs \<Longrightarrow> P (xs ! p) \<Longrightarrow> (\<forall>q < p. \<not> P (xs ! q)) \<Longrightarrow> find_pos P xs = Some p"
proof (induction xs arbitrary: p)
  case Nil
  then show ?case by simp
next
  case (Cons x xs)
  show ?case
  proof (cases p)
    case 0
    with Cons.prems show ?thesis by simp
  next
    case (Suc p')
    with Cons.prems have "\<not> P x" by auto
    moreover have "find_pos P xs = Some p'"
      using Cons.prems Suc by (intro Cons.IH) auto
    ultimately show ?thesis using Suc by simp
  qed
qed

lemma GeoMap_getWaypointByIndex_Some:
  "GeoMap_getWaypointByIndex g i = Some r \<Longrightarrow>
   r < length (waypoints g) \<and> i = JNum (Finite (real_of_int (wp_index (waypoints g ! r))))"
proof -
  assume a: "GeoMap_getWaypointByIndex g i = Some r"
  then have "find_pos (\<lambda>w. strict_eq (JNum (Finite (real_of_int (wp_index w)))) i) (waypoints g)
      = Some r"
    by (simp add: GeoMap_getWaypointByIndex_def split: if_splits)
  from find_pos_Some [OF this]
  have "r < length (waypoints g)"
    "strict_eq (JNum (Finite (real_of_int (wp_index (waypoints g ! r))))) i"
    by simp_all
  then show ?thesis
    by (cases i) (simp_all add: num_eq_def)
qed

lemma GeoMap_getWaypointByIndex_indexed:
  assumes "indexed (waypoints g)" "k < length (waypoints g)"
  shows "GeoMap_getWaypointByIndex g (JNum (Finite (real k))) = Some k"
proof -
  let ?P = "\<lambda>w. strict_eq (JNum (Finite (real_of_int (wp_index w)))) (JNum (Finite (real k)))"
  have "?P (waypoints g ! k)"
    using indexed_nth [OF assms] by (simp add: num_eq_def)
  moreover have "\<forall>q < k. \<not> ?P (waypoints g ! q)"
    using indexed_nth [OF assms(1)] assms(2) by (simp add: num_eq_def)
  ultimately have "find_pos ?P (waypoints g) = Some k"
    using assms(2) by (intro find_pos_first) simp_all
  with assms(2) show ?thesis
    by (simp add: GeoMap_getWaypointByIndex_def num_ge_def)
qed

lemma GeoMap_getWaypointByIndex_None:
  assumes "indexed (waypoints g)"
    and "\<not> (\<exists>k < length (waypoints g). i = JNum (Finite (real k)))"
  shows "GeoMap_getWaypointByIndex g i = None"
proof (cases "GeoMap_getWaypointByIndex g i")
  case None
  then show ?thesis .
next
  case (Some r)
  from GeoMap_getWaypointByIndex_Some [OF Some]
  have r: "r < length (waypoints g)"
    "i = JNum (Finite (real_of_int (wp_index (waypoints g ! r))))"
    by simp_all
  with indexed_nth [OF assms(1) r(1)] have "i = JNum (Finite (real r))" by simp
  with r(1) assms(2) show ?thesis by blast
qed


section \<open>Opening waypoints\<close>

lemma wf_main_step:
  assumes "wf_main s" "lastMarkerIndex s' = lastMarkerIndex s"
    "open_step (waypoints (geoMap s)) (waypoints (geoMap s'))"
  shows "wf_main s'"
  using assms open_step_length [OF assms(3)] open_step_indexed [OF assms(3)]
  by (simp add: wf_main_def)

lemma Map_openWaypointContentByIndex_opens:
  assumes "wf_main s" "k < length (waypoints (geoMap s))"
    and "markerIsOpen (waypoints (geoMap s) ! k) \<noteq> Some True"
  shows "\<exists>s'. Map_openWaypointContentByIndex E s (JNum (Finite (real k))) p = Inr s'
      \<and> openWaypointContentIndex s' = Finite (real k)
      \<and> lastMarkerIndex s' = lastMarkerIndex s
      \<and> disabled (nb_left (navigationBar s')) = (k = 0)
      \<and> disabled (nb_right (navigationBar s')) = (\<not> int k < lastMarkerIndex s)
      \<and> waypoints (geoMap s') = waypoints (GeoMap_setOpenWaypoint (geoMap s) k)
      \<and> wf_main s'"
proof -
  let ?s3 = "Main_handleWaypointContentOpened
               (s\<lparr>main_map := (main_map s)\<lparr>mc_geoMap := GeoMap_setOpenWaypoint (geoMap s) k,
                               overlayContent := Some k, overlayHidden := False\<rparr>\<rparr>)
               (wp_index (waypoints (geoMap s) ! k))"
  have idx: "wp_index (waypoints (geoMap s) ! k) = int k"
    using assms(1,2) by (simp add: wf_main_def indexed_nth)
  have "Map_getWaypointByIndex s (JNum (Finite (real k))) = Some k"
    using assms(1,2)
    by (simp add: Map_getWaypointByIndex_def wf_main_def GeoMap_getWaypointByIndex_indexed)
  then have byIndex: "Map_openWaypointContentByIndex E s (JNum (Finite (real k))) p
      = Map_openWaypointContent E s (Some k) p"
    by (simp add: Map_openWaypointContentByIndex_def)
  obtain v where v: "Map_openWaypointContent E s (Some k) p = Inr (set_view ?s3 v)"
    using Map_openWaypointContent_opens [OF assms(2,3)] by blast
  have wps: "waypoints (geoMap (set_view ?s3 v)) = waypoints (GeoMap_setOpenWaypoint (geoMap s) k)"
    by simp
  have "waypoints (GeoMap_setOpenWaypoint (geoMap s) k)
      = map (\<lambda>(p, w). Waypoint_setOpen (p = k) w) (enumerate 0 (waypoints (geoMap s)))"
    by (simp add: GeoMap_setOpenWaypoint_def)
  with assms(2) have "open_step (waypoints (geoMap s))
      (waypoints (GeoMap_setOpenWaypoint (geoMap s) k))"
    unfolding open_step_def by blast
  then have step: "open_step (waypoints (geoMap s)) (waypoints (geoMap (set_view ?s3 v)))"
    by (simp only: wps)
  have last: "lastMarkerIndex (set_view ?s3 v) = lastMarkerIndex s"
    by simp
  have wf: "wf_main (set_view ?s3 v)"
    using assms(1) last step by (rule wf_main_step)
  have "openWaypointContentIndex (set_view ?s3 v) = Finite (real k)"
    by (simp add: idx)
  moreover have "disabled (nb_left (navigationBar (set_view ?s3 v))) = (k = 0)"
    by (simp add: idx)
  moreover have "disabled (nb_right (navigationBar (set_view ?s3 v)))
      = (\<not> int k < lastMarkerIndex s)"
    by (simp add: idx)
  ultimately show ?thesis
    using byIndex v wps last wf by metis
qed

lemma open_flags_setOpenWaypoint:
  "q < length (waypoints g) \<Longrightarrow>
   markerIsOpen (waypoints (GeoMap_setOpenWaypoint g r) ! q) = Some (q = r)"
  by (simp add: nth_setOpenWaypoint Waypoint_setOpen_def)

text \<open>
  Claim C1. From the state the constructor builds, every sequence of calls and events
  (the two open calls with any waypoint, index and option, the navigation buttons,
  reset, marker focus, the mini-map button, \<open>setCurrentState\<close> and the user moving the
  map) succeeds and leaves at most one waypoint open; and opening a registered waypoint
  that is not open marks it open and every other registered waypoint not open.
\<close>

theorem mutual_exclusion:
  "(\<exists>s0. Main_new E cfg = Inr s0
      \<and> (\<forall>acts. \<exists>s. perform_all E s0 acts = Inr s
            \<and> at_most_one_open (waypoints (geoMap s))))
   \<and> (\<forall>s r p. r < length (waypoints (geoMap s)) \<longrightarrow>
         markerIsOpen (waypoints (geoMap s) ! r) \<noteq> Some True \<longrightarrow>
         (\<exists>s'. Map_openWaypointContent E s (Some r) p = Inr s'
            \<and> length (waypoints (geoMap s')) = length (waypoints (geoMap s))
            \<and> (\<forall>q < length (waypoints (geoMap s)).
                  markerIsOpen (waypoints (geoMap s') ! q) = Some (q = r))))
   \<and> (\<forall>s i r p. Map_getWaypointByIndex s i = Some r \<longrightarrow>
         Map_openWaypointContentByIndex E s i p = Map_openWaypointContent E s (Some r) p)"
proof (intro conjI allI impI)
  obtain s0 where s0: "Main_new E cfg = Inr s0"
    "waypoints (geoMap s0) =
       map (Waypoint_new E (cfg_unnamedWaypoint cfg)) (enumerate 0 (cfg_waypoints cfg))"
    using Main_new_ok by blast
  have init: "at_most_one_open (waypoints (geoMap s0))"
    by (simp add: s0(2) at_most_one_open_def all_closed_new)
  have "\<exists>s. perform_all E s0 acts = Inr s \<and> at_most_one_open (waypoints (geoMap s))" for acts
    using perform_all_invariant [of E s0 acts] init by blast
  with s0(1) show "\<exists>s0. Main_new E cfg = Inr s0
      \<and> (\<forall>acts. \<exists>s. perform_all E s0 acts = Inr s
            \<and> at_most_one_open (waypoints (geoMap s)))"
    by blast
next
  fix s r p
  assume r: "r < length (waypoints (geoMap s))"
    "markerIsOpen (waypoints (geoMap s) ! r) \<noteq> Some True"
  let ?s3 = "Main_handleWaypointContentOpened
               (s\<lparr>main_map := (main_map s)\<lparr>mc_geoMap := GeoMap_setOpenWaypoint (geoMap s) r,
                               overlayContent := Some r, overlayHidden := False\<rparr>\<rparr>)
               (wp_index (waypoints (geoMap s) ! r))"
  obtain v where v: "Map_openWaypointContent E s (Some r) p = Inr (set_view ?s3 v)"
    using Map_openWaypointContent_opens [OF r] by blast
  have wps: "waypoints (geoMap (set_view ?s3 v)) = waypoints (GeoMap_setOpenWaypoint (geoMap s) r)"
    by simp
  show "\<exists>s'. Map_openWaypointContent E s (Some r) p = Inr s'
            \<and> length (waypoints (geoMap s')) = length (waypoints (geoMap s))
            \<and> (\<forall>q < length (waypoints (geoMap s)).
                  markerIsOpen (waypoints (geoMap s') ! q) = Some (q = r))"
    using v by (intro exI [of _ "set_view ?s3 v"]) (simp add: wps open_flags_setOpenWaypoint)
next
  fix s i r p
  assume "Map_getWaypointByIndex s i = Some r"
  then show "Map_openWaypointContentByIndex E s i p = Map_openWaypointContent E s (Some r) p"
    by (simp add: Map_openWaypointContentByIndex_def)
qed

lemma sample_main_new: "Main_new sample_env sample_config = Inr sample_main"
  by (simp add: run_defs)

theorem mutual_exclusion_witness:
  "\<exists>s. perform_all sample_env sample_main
         [OpenWaypointContentByIndex (JNum (Finite 2)) JUndefined,
          OpenWaypointContent (Some 0) JUndefined,
          OpenWaypointContentByIndex (JNum (Finite 7)) JUndefined,
          GoForward] = Inr s
      \<and> at_most_one_open (waypoints (geoMap s))
      \<and> map markerIsOpen (waypoints (geoMap s)) = [Some False, Some True, Some False, Some False]"
proof -
  let ?acts = "[OpenWaypointContentByIndex (JNum (Finite 2)) JUndefined,
          OpenWaypointContent (Some 0) JUndefined,
          OpenWaypointContentByIndex (JNum (Finite 7)) JUndefined,
          GoForward]"
  from mutual_exclusion [of sample_env sample_config]
  obtain s where s: "perform_all sample_env sample_main ?acts = Inr s"
    "at_most_one_open (waypoints (geoMap s))"
    unfolding sample_main_new by blast
  have "map_sum id (\<lambda>s. map markerIsOpen (waypoints (geoMap s)))
      (perform_all sample_env sample_main ?acts)
    = Inr [Some False, Some True, Some False, Some False]"
    by (simp add: run_defs)
  with s show ?thesis by simp
qed

section \<open>Navigation requests that are ignored\<close>

lemma no_position_not_found:
  assumes "wf_main s"
    and "\<forall>k < length (waypoints (geoMap s)). i \<noteq> JNum (Finite (real k))"
  shows "Map_getWaypointByIndex s i = None"
proof -
  from assms(2) have "\<not> (\<exists>k < length (waypoints (geoMap s)). i = JNum (Finite (real k)))"
    by blast
  with assms(1) show ?thesis
    by (simp add: Map_getWaypointByIndex_def wf_main_def GeoMap_getWaypointByIndex_None)
qed

lemma out_of_range_not_found:
  assumes "wf_main s"
    and "typeof i \<noteq> TNumber \<or> num_lt (the_number i) (Finite 0)
         \<or> num_gt (the_number i) (Finite (real_of_int (lastMarkerIndex s)))"
  shows "Map_getWaypointByIndex s i = None"
proof -
  have "\<not> (\<exists>k < length (waypoints (geoMap s)). i = JNum (Finite (real k)))"
  proof
    assume "\<exists>k < length (waypoints (geoMap s)). i = JNum (Finite (real k))"
    then obtain k where k: "k < length (waypoints (geoMap s))" "i = JNum (Finite (real k))"
      by blast
    from assms(1) have "lastMarkerIndex s = int (length (waypoints (geoMap s))) - 1"
      by (simp add: wf_main_def)
    with assms(2) k show False
      by (simp add: num_gt_def)
  qed
  with assms(1) show ?thesis
    by (simp add: Map_getWaypointByIndex_def wf_main_def GeoMap_getWaypointByIndex_None)
qed

text \<open>
  Claim C4. In a state whose waypoints carry their positions as indices and whose
  \<open>lastMarkerIndex\<close> is the last of them, \<open>openWaypointContentByIndex\<close> returns the state
  unchanged when the index is not a number, is below 0 or is above
  \<open>lastMarkerIndex\<close>; when the index is none of the positions
  \<open>0, ..., lastMarkerIndex\<close> (NaN, an infinity and a fraction among them), so that no
  waypoint exists for it; and when the waypoint with that index is already open.
  \<open>goBackward\<close> with index 0 open and \<open>goForward\<close> with the last index open return
  the state unchanged; and no call raises an error.
\<close>

theorem openWaypointContentByIndex_noop:
  assumes "wf_main s"
  shows "(typeof i \<noteq> TNumber \<or> num_lt (the_number i) (Finite 0)
            \<or> num_gt (the_number i) (Finite (real_of_int (lastMarkerIndex s)))
          \<longrightarrow> Map_openWaypointContentByIndex E s i p = Inr s)
     \<and> ((\<forall>k < length (waypoints (geoMap s)). i \<noteq> JNum (Finite (real k)))
          \<longrightarrow> Map_getWaypointByIndex s i = None
              \<and> Map_openWaypointContentByIndex E s i p = Inr s)
     \<and> (\<forall>k < length (waypoints (geoMap s)).
            Map_getWaypointByIndex s (JNum (Finite (real k))) = Some k)
     \<and> int (length (waypoints (geoMap s))) = lastMarkerIndex s + 1
     \<and> (Map_getWaypointByIndex s i = None \<longrightarrow> Map_openWaypointContentByIndex E s i p = Inr s)
     \<and> (\<forall>r. Map_getWaypointByIndex s i = Some r \<longrightarrow>
            markerIsOpen (waypoints (geoMap s) ! r) = Some True \<longrightarrow>
            Map_openWaypointContentByIndex E s i p = Inr s)
     \<and> (openWaypointContentIndex s = Finite 0 \<longrightarrow> Main_goBackward E s = Inr s)
     \<and> (openWaypointContentIndex s = Finite (real_of_int (lastMarkerIndex s)) \<longrightarrow>
          Main_goForward E s = Inr s)
     \<and> (\<exists>s'. Map_openWaypointContentByIndex E s i p = Inr s')
     \<and> (\<exists>s'. Main_goBackward E s = Inr s') \<and> (\<exists>s'. Main_goForward E s = Inr s')"
proof (intro conjI allI impI)
  assume "typeof i \<noteq> TNumber \<or> num_lt (the_number i) (Finite 0)
            \<or> num_gt (the_number i) (Finite (real_of_int (lastMarkerIndex s)))"
  from out_of_range_not_found [OF assms this]
  show "Map_openWaypointContentByIndex E s i p = Inr s"
    by (simp add: Map_openWaypointContentByIndex_def)
next
  assume "\<forall>k < length (waypoints (geoMap s)). i \<noteq> JNum (Finite (real k))"
  from no_position_not_found [OF assms this]
  show "Map_getWaypointByIndex s i = None" .
next
  assume "\<forall>k < length (waypoints (geoMap s)). i \<noteq> JNum (Finite (real k))"
  from no_position_not_found [OF assms this]
  show "Map_openWaypointContentByIndex E s i p = Inr s"
    by (simp add: Map_openWaypointContentByIndex_def)
next
  fix k
  assume "k < length (waypoints (geoMap s))"
  with assms show "Map_getWaypointByIndex s (JNum (Finite (real k))) = Some k"
    by (simp add: Map_getWaypointByIndex_def wf_main_def GeoMap_getWaypointByIndex_indexed)
next
  from assms show "int (length (waypoints (geoMap s))) = lastMarkerIndex s + 1"
    by (simp add: wf_main_def)
next
  assume "Map_getWaypointByIndex s i = None"
  then show "Map_openWaypointContentByIndex E s i p = Inr s"
    by (simp add: Map_openWaypointContentByIndex_def)
next
  fix r
  assume "Map_getWaypointByIndex s i = Some r"
    "markerIsOpen (waypoints (geoMap s) ! r) = Some True"
  then show "Map_openWaypointContentByIndex E s i p = Inr s"
    by (simp add: Map_openWaypointContentByIndex_def Map_openWaypointContent_noop)
next
  assume "openWaypointContentIndex s = Finite 0"
  then show "Main_goBackward E s = Inr s"
    by (simp add: Main_goBackward_def Map_openWaypointContentByIndex_def
          Map_getWaypointByIndex_def GeoMap_getWaypointByIndex_def num_minus_def)
next
  assume last: "openWaypointContentIndex s = Finite (real_of_int (lastMarkerIndex s))"
  from assms have "lastMarkerIndex s = int (length (waypoints (geoMap s))) - 1"
    by (simp add: wf_main_def)
  with last show "Main_goForward E s = Inr s"
    by (simp add: Main_goForward_def Map_openWaypointContentByIndex_def
          Map_getWaypointByIndex_def GeoMap_getWaypointByIndex_def num_ge_def)
next
  show "\<exists>s'. Map_openWaypointContentByIndex E s i p = Inr s'"
    using Map_openWaypointContentByIndex_step by blast
next
  show "\<exists>s'. Main_goBackward E s = Inr s'"
    using Map_openWaypointContentByIndex_step unfolding Main_goBackward_def by blast
next
  show "\<exists>s'. Main_goForward E s = Inr s'"
    using Map_openWaypointContentByIndex_step unfolding Main_goForward_def by blast
qed

lemma sample_opened_reached:
  "Map_openWaypointContentByIndex sample_env sample_main (JNum (Finite 0)) (JBool False)
     = Inr (sample_opened 0)"
  "Map_openWaypointContentByIndex sample_env sample_main (JNum (Finite 3)) (JBool False)
     = Inr (sample_opened 3)"
  by (simp_all add: run_defs)

theorem openWaypointContentByIndex_noop_witness:
  "wf_main sample_main \<and> wf_main (sample_opened 0) \<and> wf_main (sample_opened 3)
   \<and> Map_openWaypointContentByIndex sample_env sample_main (JNum (Finite 4)) JUndefined
       = Inr sample_main
   \<and> Map_openWaypointContentByIndex sample_env sample_main (JStr ''2'') JUndefined
       = Inr sample_main
   \<and> Map_openWaypointContentByIndex sample_env sample_main (JNum NaN) JUndefined
       = Inr sample_main
   \<and> Map_openWaypointContentByIndex sample_env sample_main (JNum (Finite 1.5)) JUndefined
       = Inr sample_main
   \<and> Map_openWaypointContentByIndex sample_env (sample_opened 0) (JNum (Finite 0)) JUndefined
       = Inr (sample_opened 0)
   \<and> Main_goBackward sample_env (sample_opened 0) = Inr (sample_opened 0)
   \<and> Main_goForward sample_env (sample_opened 3) = Inr (sample_opened 3)"
proof -
  have wf: "wf_main sample_main" "wf_main (sample_opened 0)" "wf_main (sample_opened 3)"
    by (simp_all add: run_defs wf_main_def indexed_def upt_rec)
  have range: "num_gt (the_number (JNum (Finite 4)))
      (Finite (real_of_int (lastMarkerIndex sample_main)))"
    by (simp add: sample_main_def num_gt_def)
  have str: "typeof (JStr ''2'') \<noteq> TNumber"
    by simp
  have len: "length (waypoints (geoMap sample_main)) = 4"
    by (simp add: sample_main_def sample_waypoints_def geoMap_def)
  have nan: "\<forall>k < length (waypoints (geoMap sample_main)). JNum NaN \<noteq> JNum (Finite (real k))"
    by simp
  have "(3 / 2 :: real) \<noteq> real k" for k :: nat
  proof
    assume "(3 / 2 :: real) = real k"
    then have "real (2 * k) = real 3" by simp
    then have "2 * k = 3" by (simp only: of_nat_eq_iff)
    then show False by presburger
  qed
  then have frac: "\<forall>k < length (waypoints (geoMap sample_main)).
      JNum (Finite 1.5) \<noteq> JNum (Finite (real k))"
    by simp
  have found: "Map_getWaypointByIndex (sample_opened 0) (JNum (Finite 0)) = Some 0"
    "markerIsOpen (waypoints (geoMap (sample_opened 0)) ! 0) = Some True"
    by (simp_all add: run_defs)
  have first: "openWaypointContentIndex (sample_opened 0) = Finite 0"
    by (simp add: sample_opened_def)
  have last: "openWaypointContentIndex (sample_opened 3)
      = Finite (real_of_int (lastMarkerIndex (sample_opened 3)))"
    by (simp add: sample_opened_def sample_main_def)
  note n4 = openWaypointContentByIndex_noop [OF wf(1), of "JNum (Finite 4)" sample_env JUndefined]
  note ns = openWaypointContentByIndex_noop [OF wf(1), of "JStr ''2''" sample_env JUndefined]
  note nn = openWaypointContentByIndex_noop [OF wf(1), of "JNum NaN" sample_env JUndefined]
  note nf = openWaypointContentByIndex_noop [OF wf(1), of "JNum (Finite 1.5)" sample_env JUndefined]
  note n0 = openWaypointContentByIndex_noop [OF wf(2), of "JNum (Finite 0)" sample_env JUndefined]
  note n3 = openWaypointContentByIndex_noop [OF wf(3), of "JNum (Finite 3)" sample_env JUndefined]
  have a4: "Map_openWaypointContentByIndex sample_env sample_main (JNum (Finite 4)) JUndefined
       = Inr sample_main"
    using n4 [THEN conjunct1] range by blast
  have as: "Map_openWaypointContentByIndex sample_env sample_main (JStr ''2'') JUndefined
       = Inr sample_main"
    using ns [THEN conjunct1] str by blast
  have an: "Map_openWaypointContentByIndex sample_env sample_main (JNum NaN) JUndefined
       = Inr sample_main"
    using nn [THEN conjunct2, THEN conjunct1] nan by blast
  have af: "Map_openWaypointContentByIndex sample_env sample_main (JNum (Finite 1.5)) JUndefined
       = Inr sample_main"
    using nf [THEN conjunct2, THEN conjunct1] frac by blast
  have a0: "Map_openWaypointContentByIndex sample_env (sample_opened 0) (JNum (Finite 0)) JUndefined
       = Inr (sample_opened 0)"
    using n0 [THEN conjunct2, THEN conjunct2, THEN conjunct2, THEN conjunct2, THEN conjunct2,
        THEN conjunct1] found by blast
  have ab: "Main_goBackward sample_env (sample_opened 0) = Inr (sample_opened 0)"
    using n0 [THEN conjunct2, THEN conjunct2, THEN conjunct2, THEN conjunct2, THEN conjunct2,
        THEN conjunct2, THEN conjunct1] first by blast
  have afw: "Main_goForward sample_env (sample_opened 3) = Inr (sample_opened 3)"
    using n3 [THEN conjunct2, THEN conjunct2, THEN conjunct2, THEN conjunct2, THEN conjunct2,
        THEN conjunct2, THEN conjunct2, THEN conjunct1] last by blast
  show ?thesis
    using wf a4 as an af a0 ab afw by simp
qed


section \<open>The navigation scenario\<close>

lemma NavigationBar_reset_buttons [simp]:
  "nb_left (NavigationBar_reset nb) = nb_left nb"
  "nb_right (NavigationBar_reset nb) = nb_right nb"
  by (simp_all add: NavigationBar_reset_def NavigationBar_update_def)

lemma neg_one_less_real_of_int: "(- 1 < real_of_int x) = (- 1 < x)"
proof -
  have "(real_of_int (- 1) < real_of_int x) = (- 1 < x)"
    by (rule of_int_less_iff)
  then show ?thesis by simp
qed

lemma Main_reset_effect:
  "\<exists>s'. Main_reset E s = Inr s'
      \<and> openWaypointContentIndex s' = Finite (- 1)
      \<and> lastMarkerIndex s' = lastMarkerIndex s
      \<and> disabled (nb_left (navigationBar s'))
      \<and> disabled (nb_right (navigationBar s')) = (\<not> - 1 < lastMarkerIndex s)
      \<and> waypoints (geoMap s') = map (Waypoint_setOpen False) (waypoints (geoMap s))"
proof -
  let ?s2 = "Main_updateButtonDisabledStates (s\<lparr>openWaypointContentIndex := Finite (- 1)\<rparr>)"
  obtain v where v: "Main_reset E s =
     Inr (?s2\<lparr>navigationBar := NavigationBar_reset (navigationBar ?s2),
             main_map := (main_map s)
               \<lparr>overlayHidden := True,
                mc_geoMap := (geoMap s)
                  \<lparr>waypoints := map (Waypoint_setOpen False) (waypoints (geoMap s)),
                   view := v\<rparr>\<rparr>\<rparr>)"
    using Main_reset_eq by blast
  show ?thesis
    unfolding v
    by (intro exI conjI, rule refl) (simp_all add: num_gt_def neg_one_less_real_of_int)
qed

text \<open>
  Claim C5, as amended. With four waypoints, the constructor leaves index -1;
  opening index 2 gives index 2 with the backward and forward buttons enabled;
  \<open>goForward\<close> then gives index 3 with the forward button disabled; \<open>reset\<close> then gives
  index -1 with the backward button disabled and the forward button enabled.
\<close>

theorem navigation_scenario:
  assumes "length (cfg_waypoints cfg) = 4"
  shows "\<exists>s0 s1 s2 s3.
      Main_new E cfg = Inr s0
      \<and> openWaypointContentIndex s0 = Finite (- 1)
      \<and> Map_openWaypointContentByIndex E s0 (JNum (Finite 2)) p = Inr s1
      \<and> openWaypointContentIndex s1 = Finite 2
      \<and> \<not> disabled (nb_left (navigationBar s1))
      \<and> \<not> disabled (nb_right (navigationBar s1))
      \<and> Main_goForward E s1 = Inr s2
      \<and> openWaypointContentIndex s2 = Finite 3
      \<and> \<not> disabled (nb_left (navigationBar s2))
      \<and> disabled (nb_right (navigationBar s2))
      \<and> Main_reset E s2 = Inr s3
      \<and> openWaypointContentIndex s3 = Finite (- 1)
      \<and> disabled (nb_left (navigationBar s3))
      \<and> \<not> disabled (nb_right (navigationBar s3))"
proof -
  obtain s0 where s0: "Main_new E cfg = Inr s0"
    "openWaypointContentIndex s0 = Finite (- 1)"
    "lastMarkerIndex s0 = int (length (cfg_waypoints cfg)) - 1"
    "waypoints (geoMap s0) =
       map (Waypoint_new E (cfg_unnamedWaypoint cfg)) (enumerate 0 (cfg_waypoints cfg))"
    using Main_new_ok by blast
  have len0: "length (waypoints (geoMap s0)) = 4"
    by (simp add: s0(4) assms)
  have last0: "lastMarkerIndex s0 = 3"
    by (simp add: s0(3) assms)
  have wf0: "wf_main s0"
    by (simp add: wf_main_def s0(3) s0(4) indexed_new)
  have closed0: "markerIsOpen (waypoints (geoMap s0) ! 2) \<noteq> Some True"
    using assms by (simp add: s0(4) nth_enumerate_eq Waypoint_new_def Let_def)
  have two: "2 < length (waypoints (geoMap s0))"
    by (simp add: len0)
  obtain s1 where s1: "Map_openWaypointContentByIndex E s0 (JNum (Finite (real 2))) p = Inr s1"
    "openWaypointContentIndex s1 = Finite (real 2)"
    "lastMarkerIndex s1 = lastMarkerIndex s0"
    "disabled (nb_left (navigationBar s1)) = ((2::nat) = 0)"
    "disabled (nb_right (navigationBar s1)) = (\<not> int 2 < lastMarkerIndex s0)"
    "waypoints (geoMap s1) = waypoints (GeoMap_setOpenWaypoint (geoMap s0) 2)"
    "wf_main s1"
    using Map_openWaypointContentByIndex_opens [OF wf0 two closed0] by blast
  have three: "3 < length (waypoints (geoMap s1))"
    by (simp add: s1(6) len0)
  have closed1: "markerIsOpen (waypoints (geoMap s1) ! 3) \<noteq> Some True"
    by (simp add: s1(6) open_flags_setOpenWaypoint len0)
  obtain s2 where s2: "Map_openWaypointContentByIndex E s1 (JNum (Finite (real 3))) JUndefined = Inr s2"
    "openWaypointContentIndex s2 = Finite (real 3)"
    "lastMarkerIndex s2 = lastMarkerIndex s1"
    "disabled (nb_left (navigationBar s2)) = ((3::nat) = 0)"
    "disabled (nb_right (navigationBar s2)) = (\<not> int 3 < lastMarkerIndex s1)"
    using Map_openWaypointContentByIndex_opens [OF s1(7) three closed1] by blast
  have forward: "Main_goForward E s1 = Inr s2"
    using s2(1) by (simp add: Main_goForward_def s1(2))
  obtain s3 where s3: "Main_reset E s2 = Inr s3"
    "openWaypointContentIndex s3 = Finite (- 1)"
    "disabled (nb_left (navigationBar s3))"
    "disabled (nb_right (navigationBar s3)) = (\<not> - 1 < lastMarkerIndex s2)"
    using Main_reset_effect by blast
  show ?thesis
    using s0(1,2) s1(1,2,4,5) forward s2(2,4,5) s3 last0 s1(3) s2(3)
    by (intro exI [of _ s0] exI [of _ s1] exI [of _ s2] exI [of _ s3]) simp
qed

theorem navigation_scenario_witness:
  "length (cfg_waypoints sample_config) = 4
   \<and> (\<exists>s1 s2 s3.
        Map_openWaypointContentByIndex sample_env sample_main (JNum (Finite 2)) JUndefined
          = Inr s1
        \<and> openWaypointContentIndex s1 = Finite 2
        \<and> Main_goForward sample_env s1 = Inr s2
        \<and> openWaypointContentIndex s2 = Finite 3
        \<and> disabled (nb_right (navigationBar s2))
        \<and> Main_reset sample_env s2 = Inr s3
        \<and> openWaypointContentIndex s3 = Finite (- 1)
        \<and> disabled (nb_left (navigationBar s3))
        \<and> \<not> disabled (nb_right (navigationBar s3)))"
proof -
  have len: "length (cfg_waypoints sample_config) = 4"
    by (simp add: sample_config_def sample_waypoints_def)
  from navigation_scenario [OF len, of sample_env JUndefined] len
  show ?thesis
    unfolding sample_main_new by auto
qed

text \<open>
  The claim as stated fails: after the scenario on the example, the forward button is
  enabled, since -1 is less than the last index 3.
\<close>

theorem navigation_scenario_counterexample:
  "(case sample_scenario of
      Inl e \<Rightarrow> False
    | Inr s \<Rightarrow> openWaypointContentIndex s = Finite (- 1)
             \<and> disabled (nb_left (navigationBar s))
             \<and> \<not> disabled (nb_right (navigationBar s)))"
  by (simp add: run_defs)

section \<open>Serialising and restoring the state\<close>

lemma clamp_number_id:
  "num_le lo n \<Longrightarrow> num_le n hi \<Longrightarrow> clamp_number lo hi n = n"
  by (cases n; cases lo; cases hi)
     (auto simp: clamp_number_def num_le_def num_ge_def num_gt_def)

lemma num_le_not_NaN: "num_le a b \<Longrightarrow> a \<noteq> NaN \<and> b \<noteq> NaN"
  by (auto simp: num_le_def num_ge_def)

lemma accepted_number_printed:
  "n \<noteq> NaN \<Longrightarrow> parseFloat B (numberToString B n) = n \<Longrightarrow>
   trim B (numberToString B n) = numberToString B n \<Longrightarrow>
   accepted_number B (JStr (numberToString B n)) = Some n"
  by (simp add: accepted_number_def)

lemma Map_setCurrentState_restores:
  assumes "view_restorable E v"
    and "minZoom (view (geoMap t)) = minZoom v" "maxZoom (view (geoMap t)) = maxZoom v"
  shows "Map_setCurrentState E t
           (Some \<lparr>ms_zoomLevel = JNum (zoom v),
                  ms_coordinates =
                    Some \<lparr>latitude = JStr (numberToString (js E) (center_lat v)),
                          longitude = JStr (numberToString (js E) (center_lng v))\<rparr>\<rparr>)
         = Inr (set_view t v)"
proof -
  from assms(1) have lat: "accepted_number (js E) (JStr (numberToString (js E) (center_lat v)))
      = Some (center_lat v)"
    using num_le_not_NaN [of LATITUDE_MIN "center_lat v"]
    by (intro accepted_number_printed) (simp_all add: view_restorable_def)
  from assms(1) have lng: "accepted_number (js E) (JStr (numberToString (js E) (center_lng v)))
      = Some (center_lng v)"
    using num_le_not_NaN [of LONGITUDE_MIN "center_lng v"]
    by (intro accepted_number_printed) (simp_all add: view_restorable_def)
  from assms(1) have z: "accepted_number (js E) (JNum (zoom v)) = Some (zoom v)"
    using num_le_not_NaN [of "zoom v" "maxZoom v"]
    by (simp add: accepted_number_def view_restorable_def)
  have clamps: "clamp_number LATITUDE_MIN LATITUDE_MAX (center_lat v) = center_lat v"
    "clamp_number LONGITUDE_MIN LONGITUDE_MAX (center_lng v) = center_lng v"
    "clamp_number (minZoom v) (maxZoom v) (zoom v) = zoom v"
    using assms(1) by (simp_all add: view_restorable_def clamp_number_id)
  have same: "(view (geoMap t))\<lparr>center_lat := center_lat v, center_lng := center_lng v,
      zoom := zoom v\<rparr> = v"
    using assms(2,3) by (intro viewport.equality) simp_all
  have "GeoMap_setView E (geoMap t)
      (Object \<lparr>latitude = JStr (numberToString (js E) (center_lat v)),
               longitude = JStr (numberToString (js E) (center_lng v))\<rparr>)
      (JNum (zoom v)) = Inr ((geoMap t)\<lparr>view := v\<rparr>)"
    by (simp add: GeoMap_setView_eq lat lng z clamps assms(2,3) Leaflet_setView_def same)
  then show ?thesis
    by (simp add: Map_setCurrentState_def Let_def set_view_def)
qed

lemma Map_getCurrentState_eq:
  "Map_getCurrentState E s =
     \<lparr>ms_zoomLevel = JNum (zoom (view (geoMap s))),
      ms_coordinates =
        Some \<lparr>latitude = JStr (numberToString (js E) (center_lat (view (geoMap s)))),
              longitude = JStr (numberToString (js E) (center_lng (view (geoMap s))))\<rparr>\<rparr>"
  by (simp add: Map_getCurrentState_def Let_def GeoMap_getCoordinates_def
        GeoMap_getZoomLevel_def)

lemma Map_getCurrentState_cong:
  "view (geoMap s') = view (geoMap s) \<Longrightarrow> Map_getCurrentState E s' = Map_getCurrentState E s"
  by (simp add: Map_getCurrentState_def GeoMap_getCoordinates_def GeoMap_getZoomLevel_def)

lemma Main_getCurrentState_cong:
  assumes "openWaypointContentIndex s' = openWaypointContentIndex s"
    and "view (geoMap s') = view (geoMap s)"
    and "nb_minimap (navigationBar s') = nb_minimap (navigationBar s)"
  shows "Main_getCurrentState E s' = Main_getCurrentState E s"
proof -
  have "Map_getCurrentState E s' = Map_getCurrentState E s"
    using assms(2) by (rule Map_getCurrentState_cong)
  with assms(1,3) show ?thesis
    by (simp add: Main_getCurrentState_def Main_getCurrentOpenWaypointContentIndex_def
          NavigationBar_getCurrentState_def)
qed

text \<open>
  Reopening by the index a state holds, without panning, keeps the index, the view, the
  mini-map button and the mini map's visibility.
\<close>

lemma reopen_keeps_observables:
  "\<exists>s'. Map_openWaypointContentByIndex E s (JNum (openWaypointContentIndex s)) (JBool False)
          = Inr s'
      \<and> openWaypointContentIndex s' = openWaypointContentIndex s
      \<and> view (geoMap s') = view (geoMap s)
      \<and> nb_minimap (navigationBar s') = nb_minimap (navigationBar s)
      \<and> miniMapVisible (geoMap s') = miniMapVisible (geoMap s)"
proof (cases "Map_getWaypointByIndex s (JNum (openWaypointContentIndex s))")
  case None
  then show ?thesis by (simp add: Map_openWaypointContentByIndex_def)
next
  case (Some r)
  then have r: "r < length (waypoints (geoMap s))"
    "JNum (openWaypointContentIndex s)
       = JNum (Finite (real_of_int (wp_index (waypoints (geoMap s) ! r))))"
    using GeoMap_getWaypointByIndex_Some [of "geoMap s" "JNum (openWaypointContentIndex s)" r]
    by (simp_all add: Map_getWaypointByIndex_def)
  have byIndex: "Map_openWaypointContentByIndex E s (JNum (openWaypointContentIndex s)) (JBool False)
      = Map_openWaypointContent E s (Some r) (JBool False)"
    using Some by (simp add: Map_openWaypointContentByIndex_def)
  show ?thesis
  proof (cases "markerIsOpen (waypoints (geoMap s) ! r) = Some True")
    case True
    then have "Map_openWaypointContent E s (Some r) (JBool False) = Inr s"
      by (intro Map_openWaypointContent_noop) simp
    with byIndex show ?thesis by simp
  next
    case False
    let ?s3 = "Main_handleWaypointContentOpened
               (s\<lparr>main_map := (main_map s)\<lparr>mc_geoMap := GeoMap_setOpenWaypoint (geoMap s) r,
                               overlayContent := Some r, overlayHidden := False\<rparr>\<rparr>)
               (wp_index (waypoints (geoMap s) ! r))"
    obtain v where v: "Map_openWaypointContent E s (Some r) (JBool False) = Inr (set_view ?s3 v)"
      "strict_eq (JBool False) (JBool False) \<longrightarrow> v = view (geoMap s)"
      using Map_openWaypointContent_opens [OF r(1) False] by blast
    then have veq: "v = view (geoMap s)" by simp
    have "openWaypointContentIndex (set_view ?s3 v) = openWaypointContentIndex s"
      using r(2) by simp
    moreover have "view (geoMap (set_view ?s3 v)) = view (geoMap s)"
      by (simp add: veq)
    moreover have "nb_minimap (navigationBar (set_view ?s3 v)) = nb_minimap (navigationBar s)"
      by simp
    moreover have "miniMapVisible (geoMap (set_view ?s3 v)) = miniMapVisible (geoMap s)"
      by (simp add: GeoMap_setOpenWaypoint_def)
    ultimately show ?thesis
      using byIndex v(1) by metis
  qed
qed

section \<open>What a running instance keeps\<close>

lemma instance_inv_frame:
  assumes "instance_inv cfg s"
    and "minZoom (view (geoMap s')) = minZoom (view (geoMap s))"
    and "maxZoom (view (geoMap s')) = maxZoom (view (geoMap s))"
    and "nb_minimap (navigationBar s') = nb_minimap (navigationBar s)"
    and "miniMapVisible (geoMap s') = miniMapVisible (geoMap s)"
  shows "instance_inv cfg s'"
  using assms by (simp add: instance_inv_def)

lemma Map_openWaypointContent_keeps:
  "\<exists>s'. Map_openWaypointContent E s w p = Inr s'
        \<and> minZoom (view (geoMap s')) = minZoom (view (geoMap s))
        \<and> maxZoom (view (geoMap s')) = maxZoom (view (geoMap s))
        \<and> nb_minimap (navigationBar s') = nb_minimap (navigationBar s)
        \<and> miniMapVisible (geoMap s') = miniMapVisible (geoMap s)"
proof (cases "w = None \<or> (\<exists>r. w = Some r \<and> (length (waypoints (geoMap s)) \<le> r
       \<or> markerIsOpen (waypoints (geoMap s) ! r) = Some True))")
  case True
  then have "Map_openWaypointContent E s w p = Inr s"
    by (rule Map_openWaypointContent_noop)
  then show ?thesis by simp
next
  case False
  then obtain r where r: "w = Some r" "r < length (waypoints (geoMap s))"
    "markerIsOpen (waypoints (geoMap s) ! r) \<noteq> Some True"
    by (cases w) auto
  let ?s3 = "Main_handleWaypointContentOpened
               (s\<lparr>main_map := (main_map s)\<lparr>mc_geoMap := GeoMap_setOpenWaypoint (geoMap s) r,
                               overlayContent := Some r, overlayHidden := False\<rparr>\<rparr>)
               (wp_index (waypoints (geoMap s) ! r))"
  obtain v where v: "Map_openWaypointContent E s (Some r) p = Inr (set_view ?s3 v)"
    "minZoom v = minZoom (view (geoMap s))" "maxZoom v = maxZoom (view (geoMap s))"
    using Map_openWaypointContent_opens [OF r(2,3)] by blast
  have "nb_minimap (navigationBar (set_view ?s3 v)) = nb_minimap (navigationBar s)"
    by simp
  moreover have "miniMapVisible (geoMap (set_view ?s3 v)) = miniMapVisible (geoMap s)"
    by (simp add: GeoMap_setOpenWaypoint_def)
  moreover have "view (geoMap (set_view ?s3 v)) = v"
    by simp
  ultimately show ?thesis
    using v r(1) by (intro exI [of _ "set_view ?s3 v"]) simp
qed

lemma Map_openWaypointContentByIndex_keeps:
  "\<exists>s'. Map_openWaypointContentByIndex E s i p = Inr s'
        \<and> minZoom (view (geoMap s')) = minZoom (view (geoMap s))
        \<and> maxZoom (view (geoMap s')) = maxZoom (view (geoMap s))
        \<and> nb_minimap (navigationBar s') = nb_minimap (navigationBar s)
        \<and> miniMapVisible (geoMap s') = miniMapVisible (geoMap s)"
proof (cases "Map_getWaypointByIndex s i")
  case None
  then show ?thesis by (simp add: Map_openWaypointContentByIndex_def)
next
  case (Some r)
  then have "Map_openWaypointContentByIndex E s i p = Map_openWaypointContent E s (Some r) p"
    by (simp add: Map_openWaypointContentByIndex_def)
  then show ?thesis
    using Map_openWaypointContent_keeps [of E s "Some r" p] by simp
qed

lemma Main_onMarkerFocus_keeps:
  "\<exists>s'. Main_onMarkerFocus E s w = Inr s'
        \<and> minZoom (view (geoMap s')) = minZoom (view (geoMap s))
        \<and> maxZoom (view (geoMap s')) = maxZoom (view (geoMap s))
        \<and> nb_minimap (navigationBar s') = nb_minimap (navigationBar s)
        \<and> miniMapVisible (geoMap s') = miniMapVisible (geoMap s)"
proof -
  obtain v where v: "Main_onMarkerFocus E s w = Inr (set_view s v)"
    "minZoom v = minZoom (view (geoMap s))" "maxZoom v = maxZoom (view (geoMap s))"
    using Main_onMarkerFocus_frame by blast
  then show ?thesis
    by (intro exI [of _ "set_view s v"]) simp
qed

lemma Main_reset_keeps:
  "\<exists>s'. Main_reset E s = Inr s'
        \<and> minZoom (view (geoMap s')) = minZoom (view (geoMap s))
        \<and> maxZoom (view (geoMap s')) = maxZoom (view (geoMap s))
        \<and> nb_minimap (navigationBar s') = nb_minimap (navigationBar s)
        \<and> miniMapVisible (geoMap s') = miniMapVisible (geoMap s)"
proof -
  let ?s2 = "Main_updateButtonDisabledStates (s\<lparr>openWaypointContentIndex := Finite (- 1)\<rparr>)"
  obtain v where v: "GeoMap_reset E (geoMap s) =
      Inr ((geoMap s)\<lparr>waypoints := map (Waypoint_setOpen False) (waypoints (geoMap s)),
                      view := v\<rparr>)"
    "minZoom v = minZoom (view (geoMap s))" "maxZoom v = maxZoom (view (geoMap s))"
    using GeoMap_reset_frame by blast
  let ?s' = "?s2\<lparr>navigationBar := NavigationBar_reset (navigationBar ?s2),
             main_map := (main_map s)
               \<lparr>overlayHidden := True,
                mc_geoMap := (geoMap s)
                  \<lparr>waypoints := map (Waypoint_setOpen False) (waypoints (geoMap s)),
                   view := v\<rparr>\<rparr>\<rparr>"
  have run: "Main_reset E s = Inr ?s'"
    using v(1) by (simp add: Main_reset_def Map_reset_def Let_def geoMap_def set_geoMap_def)
  have "nb_minimap (navigationBar ?s') = nb_minimap (navigationBar s)"
    by (simp add: NavigationBar_reset_def)
  moreover have "miniMapVisible (geoMap ?s') = miniMapVisible (geoMap s)"
    "view (geoMap ?s') = v"
    by (simp_all add: geoMap_def)
  ultimately show ?thesis
    using run v(2,3) by (intro exI [of _ ?s']) simp
qed

lemma NavigationBar_clickMiniMap_inv:
  assumes "instance_inv cfg s"
  shows "instance_inv cfg (NavigationBar_clickMiniMap s)"
proof (cases "cfg_userCanUseMiniMap cfg")
  case False
  with assms have "nb_minimap (navigationBar s) = None"
    by (simp add: instance_inv_def)
  then have "NavigationBar_clickMiniMap s = s"
    by (simp add: NavigationBar_clickMiniMap_def)
  with assms show ?thesis by simp
next
  case True
  let ?b = "\<lparr>b_type = Toggle, active = (miniMapVisible (geoMap s) = Some True),
             disabled = False\<rparr>"
  from True assms have nb: "nb_minimap (navigationBar s) = Some ?b"
    by (simp add: instance_inv_def)
  have click: "Button_click ?b
      = (\<lparr>b_type = Toggle, active = (miniMapVisible (geoMap s) \<noteq> Some True),
          disabled = False\<rparr>, True)"
    by (simp add: Button_click_def Button_toggle_def Button_activate_def
          Button_deactivate_def Let_def)
  have vis: "miniMapVisible (GeoMap_toggleMiniMapVisibility g JUndefined)
      = Some (miniMapVisible g \<noteq> Some True)" for g
    by (cases "miniMapVisible g") (auto simp: GeoMap_toggleMiniMapVisibility_def)
  have "nb_minimap (navigationBar (NavigationBar_clickMiniMap s))
      = Some \<lparr>b_type = Toggle, active = (miniMapVisible (geoMap s) \<noteq> Some True),
          disabled = False\<rparr>"
    by (simp add: NavigationBar_clickMiniMap_def nb click Let_def Main_toggleMiniMap_def)
  moreover have "miniMapVisible (geoMap (NavigationBar_clickMiniMap s))
      = Some (miniMapVisible (geoMap s) \<noteq> Some True)"
    by (simp add: NavigationBar_clickMiniMap_def nb click Let_def Main_toggleMiniMap_def vis)
  moreover have "view (geoMap (NavigationBar_clickMiniMap s)) = view (geoMap s)"
    by (simp add: NavigationBar_clickMiniMap_def nb click Let_def Main_toggleMiniMap_def
          GeoMap_toggleMiniMapVisibility_def)
  ultimately show ?thesis
    using assms True by (simp add: instance_inv_def)
qed

lemma perform_user_inv:
  assumes "user_action a" "instance_inv cfg s"
  shows "\<exists>s'. perform E s a = Inr s' \<and> instance_inv cfg s'"
proof (cases a)
  case (OpenWaypointContent w p)
  then show ?thesis
    using Map_openWaypointContent_keeps [of E s w p] instance_inv_frame [OF assms(2)]
    by auto
next
  case (OpenWaypointContentByIndex i p)
  then show ?thesis
    using Map_openWaypointContentByIndex_keeps [of E s i p] instance_inv_frame [OF assms(2)]
    by auto
next
  case GoBackward
  then show ?thesis
    using Map_openWaypointContentByIndex_keeps
            [of E s "JNum (num_minus (openWaypointContentIndex s) (Finite 1))" JUndefined]
          instance_inv_frame [OF assms(2)]
    by (auto simp: Main_goBackward_def)
next
  case GoForward
  then show ?thesis
    using Map_openWaypointContentByIndex_keeps
            [of E s "JNum (num_plus (openWaypointContentIndex s) (Finite 1))" JUndefined]
          instance_inv_frame [OF assms(2)]
    by (auto simp: Main_goForward_def)
next
  case Reset
  then show ?thesis
    using Main_reset_keeps [of E s] instance_inv_frame [OF assms(2)] by auto
next
  case (MarkerFocus w)
  then show ?thesis
    using Main_onMarkerFocus_keeps [of E s w] instance_inv_frame [OF assms(2)] by auto
next
  case ClickMiniMap
  then show ?thesis
    using NavigationBar_clickMiniMap_inv [OF assms(2)] by simp
next
  case (SetCurrentState st)
  with assms(1) show ?thesis by simp
next
  case (MoveMap lat lng z)
  have "instance_inv cfg
      (set_geoMap s ((geoMap s)\<lparr>view := Leaflet_setView (view (geoMap s)) lat lng z\<rparr>))"
    using assms(2) by (simp add: instance_inv_def Leaflet_setView_def)
  with MoveMap show ?thesis by simp
qed

lemma perform_all_user_inv:
  "list_all user_action acts \<Longrightarrow> instance_inv cfg s \<Longrightarrow> perform_all E s acts = Inr s' \<Longrightarrow>
   instance_inv cfg s'"
proof (induction acts arbitrary: s)
  case Nil
  then show ?case by simp
next
  case (Cons a acts)
  from Cons.prems(1) have a: "user_action a" and rest: "list_all user_action acts"
    by simp_all
  obtain s1 where s1: "perform E s a = Inr s1" "instance_inv cfg s1"
    using perform_user_inv [OF a Cons.prems(2)] by blast
  with Cons.prems(3) have "perform_all E s1 acts = Inr s'"
    by simp
  with rest s1(2) show ?case by (rule Cons.IH)
qed

section \<open>A newly built instance and the state it is given\<close>

lemma Main_new_fresh:
  "\<exists>t. Main_new E cfg = Inr t
      \<and> minZoom (view (geoMap t)) = cfg_minZoom cfg
      \<and> maxZoom (view (geoMap t)) = cfg_maxZoom cfg
      \<and> nb_minimap (navigationBar t) =
          (if cfg_userCanUseMiniMap cfg
           then Some \<lparr>b_type = Toggle, active = False, disabled = False\<rparr> else None)
      \<and> miniMapVisible (geoMap t) \<noteq> Some True"
proof -
  let ?previousState = "case cfg_previousState cfg of None \<Rightarrow> None | Some st \<Rightarrow> ss_map st"
  let ?first = "case cfg_waypoints cfg of
               [] \<Rightarrow> \<lparr>latitude = JNull, longitude = JNull\<rparr>
             | w # _ \<Rightarrow> \<lparr>latitude = JNum (wpp_latitude w), longitude = JNum (wpp_longitude w)\<rparr>"
  let ?params = "\<lparr>gp_waypoints = cfg_waypoints cfg,
       gp_zoomLevel = nullish (case ?previousState of None \<Rightarrow> JUndefined | Some m \<Rightarrow> ms_zoomLevel m)
                        (cfg_zoomLevelDefault cfg),
       gp_coordinates = (case ?previousState of
                      None \<Rightarrow> ?first
                    | Some m \<Rightarrow> (case ms_coordinates m of None \<Rightarrow> ?first | Some c \<Rightarrow> c)),
       gp_unnamedWaypoint = cfg_unnamedWaypoint cfg,
       gp_minZoom = cfg_minZoom cfg, gp_maxZoom = cfg_maxZoom cfg,
       gp_size = cfg_size cfg\<rparr>"
  obtain z v where g: "GeoMap_new E ?params =
       Inr \<lparr>gm_zoomLevel = JNum z,
            waypoints = map (Waypoint_new E (gp_unnamedWaypoint ?params))
                          (enumerate 0 (gp_waypoints ?params)),
            view = v, gm_size = gp_size ?params, miniMapVisible = None\<rparr>"
     "minZoom v = gp_minZoom ?params" "maxZoom v = gp_maxZoom ?params"
    using GeoMap_new_ok by blast
  show ?thesis
    using g(2,3)
    by (simp add: Main_new_def Let_def g(1) geoMap_def NavigationBar_new_def Button_new_def
          Button_deactivate_def Button_enable_def GeoMap_setMapStyle_def
          GeoMap_toggleMiniMapVisibility_def)
qed

text \<open>
  \<open>NavigationBar.setCurrentState\<close> on a mini-map button that was never used: the button
  becomes active, and the mini map shown, exactly when the state says so.
\<close>

lemma NavigationBar_setCurrentState_fresh:
  assumes "nb_minimap (navigationBar t) =
          (if u then Some \<lparr>b_type = Toggle, active = False, disabled = False\<rparr> else None)"
    and "miniMapVisible (geoMap t) \<noteq> Some True"
  shows "nb_minimap (navigationBar (NavigationBar_setCurrentState t st)) =
          (if u then Some \<lparr>b_type = Toggle,
                            active = strict_eq (minimapActive
                                       (case st of None \<Rightarrow> \<lparr>minimapActive = JUndefined\<rparr>
                                        | Some x \<Rightarrow> x)) (JBool True),
                            disabled = False\<rparr>
           else None)"
    and "(miniMapVisible (geoMap (NavigationBar_setCurrentState t st)) = Some True)
          = (u \<and> strict_eq (minimapActive
                              (case st of None \<Rightarrow> \<lparr>minimapActive = JUndefined\<rparr>
                               | Some x \<Rightarrow> x)) (JBool True))"
proof -
  have vis: "miniMapVisible (GeoMap_toggleMiniMapVisibility (geoMap t) JUndefined) = Some True"
    using assms(2)
    by (cases "miniMapVisible (geoMap t)") (auto simp: GeoMap_toggleMiniMapVisibility_def)
  show "nb_minimap (navigationBar (NavigationBar_setCurrentState t st)) =
          (if u then Some \<lparr>b_type = Toggle,
                            active = strict_eq (minimapActive
                                       (case st of None \<Rightarrow> \<lparr>minimapActive = JUndefined\<rparr>
                                        | Some x \<Rightarrow> x)) (JBool True),
                            disabled = False\<rparr>
           else None)"
    using assms(1)
    by (simp add: NavigationBar_setCurrentState_def Let_def Button_forceState_def
          Button_toggle_def Button_activate_def Main_toggleMiniMap_def)
  show "(miniMapVisible (geoMap (NavigationBar_setCurrentState t st)) = Some True)
          = (u \<and> strict_eq (minimapActive
                              (case st of None \<Rightarrow> \<lparr>minimapActive = JUndefined\<rparr>
                               | Some x \<Rightarrow> x)) (JBool True))"
    using assms vis
    by (simp add: NavigationBar_setCurrentState_def Let_def Button_forceState_def
          Main_toggleMiniMap_def)
qed

lemma Main_setCurrentState_fresh_inv:
  assumes "minZoom (view (geoMap t)) = cfg_minZoom cfg"
    and "maxZoom (view (geoMap t)) = cfg_maxZoom cfg"
    and "nb_minimap (navigationBar t) =
          (if cfg_userCanUseMiniMap cfg
           then Some \<lparr>b_type = Toggle, active = False, disabled = False\<rparr> else None)"
    and "miniMapVisible (geoMap t) \<noteq> Some True"
  shows "\<exists>s'. Main_setCurrentState E t st = Inr s' \<and> instance_inv cfg s'"
proof -
  let ?t2 = "Main_updateButtonDisabledStates
               (t\<lparr>openWaypointContentIndex :=
                    (case ss_openWaypointContentIndex st of
                       None \<Rightarrow> Finite (- 1) | Some n \<Rightarrow> n)\<rparr>)"
  let ?t3 = "NavigationBar_setCurrentState ?t2 (ss_navigationBar st)"
  let ?i = "case ss_openWaypointContentIndex st of None \<Rightarrow> JUndefined | Some n \<Rightarrow> JNum n"
  let ?a = "strict_eq (minimapActive
              (case ss_navigationBar st of None \<Rightarrow> \<lparr>minimapActive = JUndefined\<rparr>
               | Some x \<Rightarrow> x)) (JBool True)"
  have nb2: "nb_minimap (navigationBar ?t2) =
          (if cfg_userCanUseMiniMap cfg
           then Some \<lparr>b_type = Toggle, active = False, disabled = False\<rparr> else None)"
    using assms(3) by simp
  have vis2: "miniMapVisible (geoMap ?t2) \<noteq> Some True"
    using assms(4) by simp
  note nav = NavigationBar_setCurrentState_fresh [OF nb2 vis2, of "ss_navigationBar st"]
  have view3: "view (geoMap ?t3) = view (geoMap t)"
    by simp
  have inv3: "instance_inv cfg ?t3"
    unfolding instance_inv_def using nav assms(1,2) by (simp only: view3) auto
  obtain v where v: "Map_setCurrentState E ?t3 (ss_map st) = Inr (set_view ?t3 v)"
    "minZoom v = minZoom (view (geoMap ?t3))" "maxZoom v = maxZoom (view (geoMap ?t3))"
    using Map_setCurrentState_frame by blast
  have inv4: "instance_inv cfg (set_view ?t3 v)"
    using inv3 by (rule instance_inv_frame) (simp_all add: v(2,3))
  obtain s' where s': "Map_openWaypointContentByIndex E (set_view ?t3 v) ?i (JBool False) = Inr s'"
    "minZoom (view (geoMap s')) = minZoom (view (geoMap (set_view ?t3 v)))"
    "maxZoom (view (geoMap s')) = maxZoom (view (geoMap (set_view ?t3 v)))"
    "nb_minimap (navigationBar s') = nb_minimap (navigationBar (set_view ?t3 v))"
    "miniMapVisible (geoMap s') = miniMapVisible (geoMap (set_view ?t3 v))"
    using Map_openWaypointContentByIndex_keeps by blast
  have inv: "instance_inv cfg s'"
    using inv4 s'(2-5) by (rule instance_inv_frame)
  have "Main_setCurrentState E t st = Inr s'"
    by (simp add: Main_setCurrentState_def Let_def v(1) s'(1))
  with inv show ?thesis by blast
qed

lemma StoryMap_new_inv:
  assumes "StoryMap_new E cfg = Inr s0"
  shows "instance_inv cfg s0"
proof -
  obtain t where t: "Main_new E cfg = Inr t"
    "minZoom (view (geoMap t)) = cfg_minZoom cfg"
    "maxZoom (view (geoMap t)) = cfg_maxZoom cfg"
    "nb_minimap (navigationBar t) =
          (if cfg_userCanUseMiniMap cfg
           then Some \<lparr>b_type = Toggle, active = False, disabled = False\<rparr> else None)"
    "miniMapVisible (geoMap t) \<noteq> Some True"
    using Main_new_fresh by blast
  let ?st = "case cfg_previousState cfg of
            None \<Rightarrow> \<lparr>ss_openWaypointContentIndex = None, ss_navigationBar = None,
                     ss_map = None\<rparr>
          | Some st \<Rightarrow> st"
  obtain s' where s': "Main_setCurrentState E t ?st = Inr s'" "instance_inv cfg s'"
    using Main_setCurrentState_fresh_inv [OF t(2-5)] by blast
  have "StoryMap_new E cfg = Inr s'"
    by (simp add: StoryMap_new_def t(1) s'(1))
  with assms s'(2) show ?thesis by simp
qed

text \<open>
  A newly built instance that is given the state of another instance of the same
  configuration.
\<close>

lemma Main_setCurrentState_snapshot:
  assumes "instance_inv cfg s" "view_restorable E (view (geoMap s))"
    and "minZoom (view (geoMap t)) = cfg_minZoom cfg"
    and "maxZoom (view (geoMap t)) = cfg_maxZoom cfg"
    and "nb_minimap (navigationBar t) =
          (if cfg_userCanUseMiniMap cfg
           then Some \<lparr>b_type = Toggle, active = False, disabled = False\<rparr> else None)"
    and "miniMapVisible (geoMap t) \<noteq> Some True"
  shows "\<exists>s'. Main_setCurrentState E t (Main_getCurrentState E s) = Inr s'
      \<and> openWaypointContentIndex s' = openWaypointContentIndex s
      \<and> view (geoMap s') = view (geoMap s)
      \<and> nb_minimap (navigationBar s') = nb_minimap (navigationBar s)
      \<and> (miniMapVisible (geoMap s') = Some True) = (miniMapVisible (geoMap s) = Some True)"
proof -
  let ?t2 = "Main_updateButtonDisabledStates
               (t\<lparr>openWaypointContentIndex := openWaypointContentIndex s\<rparr>)"
  let ?st = "Some (NavigationBar_getCurrentState (navigationBar s))"
  let ?t3 = "NavigationBar_setCurrentState ?t2 ?st"
  let ?t4 = "set_view ?t3 (view (geoMap s))"
  have nb2: "nb_minimap (navigationBar ?t2) =
          (if cfg_userCanUseMiniMap cfg
           then Some \<lparr>b_type = Toggle, active = False, disabled = False\<rparr> else None)"
    using assms(5) by simp
  have vis2: "miniMapVisible (geoMap ?t2) \<noteq> Some True"
    using assms(6) by simp
  note nav = NavigationBar_setCurrentState_fresh [OF nb2 vis2, of ?st]
  have active: "strict_eq (minimapActive (case ?st of None \<Rightarrow> \<lparr>minimapActive = JUndefined\<rparr>
                               | Some x \<Rightarrow> x)) (JBool True)
      = (cfg_userCanUseMiniMap cfg \<and> miniMapVisible (geoMap s) = Some True)"
    using assms(1) by (simp add: NavigationBar_getCurrentState_def instance_inv_def)
  have nb3: "nb_minimap (navigationBar ?t3) = nb_minimap (navigationBar s)"
    using nav(1) assms(1) unfolding active by (simp add: instance_inv_def)
  have vis3: "(miniMapVisible (geoMap ?t3) = Some True) = (miniMapVisible (geoMap s) = Some True)"
    using nav(2) assms(1) unfolding active by (auto simp: instance_inv_def)
  have bounds3: "minZoom (view (geoMap ?t3)) = minZoom (view (geoMap s))"
    "maxZoom (view (geoMap ?t3)) = maxZoom (view (geoMap s))"
    using assms(1,3,4) by (simp_all add: instance_inv_def)
  have map4: "Map_setCurrentState E ?t3 (Some (Map_getCurrentState E s)) = Inr ?t4"
    unfolding Map_getCurrentState_eq
    using assms(2) bounds3 by (rule Map_setCurrentState_restores)
  have idx4: "openWaypointContentIndex ?t4 = openWaypointContentIndex s"
    by simp
  obtain s' where s': "Map_openWaypointContentByIndex E ?t4
        (JNum (openWaypointContentIndex ?t4)) (JBool False) = Inr s'"
    "openWaypointContentIndex s' = openWaypointContentIndex ?t4"
    "view (geoMap s') = view (geoMap ?t4)"
    "nb_minimap (navigationBar s') = nb_minimap (navigationBar ?t4)"
    "miniMapVisible (geoMap s') = miniMapVisible (geoMap ?t4)"
    using reopen_keeps_observables by blast
  have run: "Main_setCurrentState E t (Main_getCurrentState E s) = Inr s'"
    using s'(1) unfolding idx4
    by (simp add: Main_setCurrentState_def Main_getCurrentState_def Let_def map4
          Main_getCurrentOpenWaypointContentIndex_def)
  have "openWaypointContentIndex s' = openWaypointContentIndex s"
    using s'(2) idx4 by simp
  moreover have "view (geoMap s') = view (geoMap s)"
    using s'(3) by simp
  moreover have "nb_minimap (navigationBar s') = nb_minimap (navigationBar s)"
    using s'(4) nb3 by simp
  moreover have "(miniMapVisible (geoMap s') = Some True)
      = (miniMapVisible (geoMap s) = Some True)"
    using s'(5) vis3 by simp
  ultimately show ?thesis
    using run by blast
qed

text \<open>
  Claim C3, as amended. Take an instance built by the constructor of \<open>StoryMap\<close> from a
  configuration (with any previous state), and any sequence of the user's actions on it:
  opening waypoints, the navigation buttons, reset, marker focus, the mini-map button,
  and moving the map by hand. When the viewport reached has its centre within the valid
  coordinate ranges, its zoom level within the map's zoom bounds, and centre
  coordinates that print to strings which parse back to the same numbers, a new
  instance built from the same configuration with the state \<open>getCurrentState\<close>
  returned (the constructor gives it to \<open>setCurrentState\<close>) has the same open index,
  the same viewport (centre and zoom level), the same mini-map button and the mini map
  shown exactly when it was shown before, and it serialises to the same state again.
\<close>

theorem state_round_trip:
  assumes "StoryMap_new E cfg = Inr s0"
    and "perform_all E s0 acts = Inr s"
    and "list_all user_action acts"
    and "view_restorable E (view (geoMap s))"
  shows "\<exists>s'. StoryMap_new E (cfg\<lparr>cfg_previousState := Some (Main_getCurrentState E s)\<rparr>)
           = Inr s'
      \<and> openWaypointContentIndex s' = openWaypointContentIndex s
      \<and> view (geoMap s') = view (geoMap s)
      \<and> nb_minimap (navigationBar s') = nb_minimap (navigationBar s)
      \<and> (miniMapVisible (geoMap s') = Some True) = (miniMapVisible (geoMap s) = Some True)
      \<and> Main_getCurrentState E s' = Main_getCurrentState E s"
proof -
  let ?cfg = "cfg\<lparr>cfg_previousState := Some (Main_getCurrentState E s)\<rparr>"
  have "instance_inv cfg s0"
    using assms(1) by (rule StoryMap_new_inv)
  with assms(3) have inv: "instance_inv cfg s"
    using assms(2) by (rule perform_all_user_inv)
  obtain t where t: "Main_new E ?cfg = Inr t"
    "minZoom (view (geoMap t)) = cfg_minZoom ?cfg"
    "maxZoom (view (geoMap t)) = cfg_maxZoom ?cfg"
    "nb_minimap (navigationBar t) =
          (if cfg_userCanUseMiniMap ?cfg
           then Some \<lparr>b_type = Toggle, active = False, disabled = False\<rparr> else None)"
    "miniMapVisible (geoMap t) \<noteq> Some True"
    using Main_new_fresh by blast
  have t': "minZoom (view (geoMap t)) = cfg_minZoom cfg"
    "maxZoom (view (geoMap t)) = cfg_maxZoom cfg"
    "nb_minimap (navigationBar t) =
          (if cfg_userCanUseMiniMap cfg
           then Some \<lparr>b_type = Toggle, active = False, disabled = False\<rparr> else None)"
    using t(2-4) by simp_all
  obtain s' where s': "Main_setCurrentState E t (Main_getCurrentState E s) = Inr s'"
    "openWaypointContentIndex s' = openWaypointContentIndex s"
    "view (geoMap s') = view (geoMap s)"
    "nb_minimap (navigationBar s') = nb_minimap (navigationBar s)"
    "(miniMapVisible (geoMap s') = Some True) = (miniMapVisible (geoMap s) = Some True)"
    using Main_setCurrentState_snapshot [OF inv assms(4) t' t(5)] by blast
  have run: "StoryMap_new E ?cfg = Inr s'"
    by (simp add: StoryMap_new_def t(1) s'(1))
  have snap: "Main_getCurrentState E s' = Main_getCurrentState E s"
    using s'(2,3,4) by (rule Main_getCurrentState_cong)
  show ?thesis
    using run s'(2-5) snap by blast
qed

lemma sample_story_map_new: "StoryMap_new sample_env sample_config = Inr sample_main"
  by (simp add: run_defs)

theorem state_round_trip_witness:
  "\<exists>s s'. perform_all sample_env sample_main
              [OpenWaypointContentByIndex (JNum (Finite 2)) JUndefined, ClickMiniMap,
               MoveMap (Finite 20) (Finite 10) (Finite 10)] = Inr s
      \<and> openWaypointContentIndex s = Finite 2
      \<and> view (geoMap s) = \<lparr>center_lat = Finite 20, center_lng = Finite 10, zoom = Finite 10,
                             minZoom = Finite 0, maxZoom = Finite 18\<rparr>
      \<and> miniMapVisible (geoMap s) = Some True
      \<and> StoryMap_new sample_env
           (sample_config\<lparr>cfg_previousState := Some (Main_getCurrentState sample_env s)\<rparr>)
           = Inr s'
      \<and> openWaypointContentIndex s' = Finite 2
      \<and> view (geoMap s') = \<lparr>center_lat = Finite 20, center_lng = Finite 10, zoom = Finite 10,
                              minZoom = Finite 0, maxZoom = Finite 18\<rparr>
      \<and> miniMapVisible (geoMap s') = Some True
      \<and> nb_minimap (navigationBar s')
           = Some \<lparr>b_type = Toggle, active = True, disabled = False\<rparr>"
proof -
  let ?acts = "[OpenWaypointContentByIndex (JNum (Finite 2)) JUndefined, ClickMiniMap,
               MoveMap (Finite 20) (Finite 10) (Finite 10)]"
  let ?v = "\<lparr>center_lat = Finite 20, center_lng = Finite 10, zoom = Finite 10,
             minZoom = Finite 0, maxZoom = Finite 18\<rparr>"
  obtain s where s: "perform_all sample_env sample_main ?acts = Inr s"
    using perform_all_invariant by blast
  have "map_sum id (\<lambda>s. (openWaypointContentIndex s, view (geoMap s),
            miniMapVisible (geoMap s), nb_minimap (navigationBar s)))
          (perform_all sample_env sample_main ?acts)
      = Inr (Finite 2, ?v, Some True, Some \<lparr>b_type = Toggle, active = True, disabled = False\<rparr>)"
    by (simp add: run_defs)
  with s have facts: "openWaypointContentIndex s = Finite 2" "view (geoMap s) = ?v"
    "miniMapVisible (geoMap s) = Some True"
    "nb_minimap (navigationBar s) = Some \<lparr>b_type = Toggle, active = True, disabled = False\<rparr>"
    by simp_all
  have restorable: "view_restorable sample_env (view (geoMap s))"
    by (simp add: facts(2) view_restorable_def geo_constants js_defs sample_env_def sample_defs)
  have user: "list_all user_action ?acts"
    by simp
  from state_round_trip [OF sample_story_map_new s user restorable]
  obtain s' where s': "StoryMap_new sample_env
           (sample_config\<lparr>cfg_previousState := Some (Main_getCurrentState sample_env s)\<rparr>)
           = Inr s'"
    "openWaypointContentIndex s' = openWaypointContentIndex s"
    "view (geoMap s') = view (geoMap s)"
    "nb_minimap (navigationBar s') = nb_minimap (navigationBar s)"
    "(miniMapVisible (geoMap s') = Some True) = (miniMapVisible (geoMap s) = Some True)"
    by blast
  show ?thesis
    using s s' facts by (intro exI [of _ s] exI [of _ s']) simp
qed

text \<open>
  The claim as stated fails for a viewport whose centre lies outside the valid
  coordinate ranges: the user drags the map east until its centre is at longitude 190.
  \<open>getCurrentState\<close> returns the longitude \<open>"190"\<close>, and the instance built with that
  state has its centre at longitude 180.
\<close>

theorem state_round_trip_counterexample:
  "StoryMap_new sample_env sample_config = Inr sample_main
   \<and> perform_all sample_env sample_main [MoveMap (Finite 10) (Finite 190) (Finite 5)]
       = Inr (set_view sample_main ((view (geoMap sample_main))\<lparr>center_lng := Finite 190\<rparr>))
   \<and> ms_coordinates (Map_getCurrentState sample_env
         (set_view sample_main ((view (geoMap sample_main))\<lparr>center_lng := Finite 190\<rparr>)))
       = Some \<lparr>latitude = JStr ''10'', longitude = JStr ''190''\<rparr>
   \<and> StoryMap_new sample_env
        (sample_config\<lparr>cfg_previousState :=
           Some (Main_getCurrentState sample_env
                   (set_view sample_main
                      ((view (geoMap sample_main))\<lparr>center_lng := Finite 190\<rparr>)))\<rparr>)
       = Inr (set_view sample_main ((view (geoMap sample_main))\<lparr>center_lng := Finite 180\<rparr>))
   \<and> center_lng (view (geoMap
         (set_view sample_main ((view (geoMap sample_main))\<lparr>center_lng := Finite 180\<rparr>))))
       = Finite 180"
  by (simp add: run_defs set_view_def)

section \<open>Centring on a waypoint\<close>

lemma Main_onMarkerFocus_content_open:
  "Main_onMarkerFocus E s w = Map_centerOnWaypoint E s w True"
  by (simp add: Main_onMarkerFocus_def strict_neq_def)

text \<open>
  Claim C9 fails on the code. Whatever the open index is, the \<open>onMarkerFocus\<close> callback
  calls \<open>centerOnWaypoint\<close> with \<open>contentOpen\<close> true. In the example nothing is open
  on an 80 pixels wide map, and a focus on the third marker pans so that the marker
  lands at 20 pixels, a quarter of the width, where \<open>centerOnWaypoint\<close> with
  \<open>contentOpen\<close> false puts it at 40 pixels.
\<close>

theorem marker_focus_ignores_open_state:
  "Main_onMarkerFocus E s w = Map_centerOnWaypoint E s w True
   \<and> openWaypointContentIndex sample_main = Finite (- 1)
   \<and> Main_onMarkerFocus sample_env sample_main (Some 2)
       = Inr (set_view sample_main
                ((view (geoMap sample_main))\<lparr>center_lat := Finite 0, center_lng := Finite 20\<rparr>))
   \<and> latLngToContainerPoint sample_env
        ((view (geoMap sample_main))\<lparr>center_lat := Finite 0, center_lng := Finite 20\<rparr>)
        (Finite 80, Finite 60) (Finite 0, Finite 0) = (Finite 20, Finite 30)
   \<and> Map_centerOnWaypoint sample_env sample_main (Some 2) False
       = Inr (set_view sample_main
                ((view (geoMap sample_main))\<lparr>center_lat := Finite 0, center_lng := Finite 0\<rparr>))
   \<and> latLngToContainerPoint sample_env
        ((view (geoMap sample_main))\<lparr>center_lat := Finite 0, center_lng := Finite 0\<rparr>)
        (Finite 80, Finite 60) (Finite 0, Finite 0) = (Finite 40, Finite 30)"
proof -
  have "Map_centerOnWaypoint sample_env sample_main (Some 2) True
       = Inr (set_view sample_main
                ((view (geoMap sample_main))\<lparr>center_lat := Finite 0, center_lng := Finite 20\<rparr>))"
    by (simp add: run_defs set_view_def)
  moreover have "Map_centerOnWaypoint sample_env sample_main (Some 2) False
       = Inr (set_view sample_main
                ((view (geoMap sample_main))\<lparr>center_lat := Finite 0, center_lng := Finite 0\<rparr>))"
    by (simp add: run_defs set_view_def)
  moreover have "latLngToContainerPoint sample_env
        ((view (geoMap sample_main))\<lparr>center_lat := Finite 0, center_lng := Finite 20\<rparr>)
        (Finite 80, Finite 60) (Finite 0, Finite 0) = (Finite 20, Finite 30)"
    by (simp add: run_defs)
  moreover have "latLngToContainerPoint sample_env
        ((view (geoMap sample_main))\<lparr>center_lat := Finite 0, center_lng := Finite 0\<rparr>)
        (Finite 80, Finite 60) (Finite 0, Finite 0) = (Finite 40, Finite 30)"
    by (simp add: run_defs)
  moreover have "openWaypointContentIndex sample_main = Finite (- 1)"
    by (simp add: sample_main_def)
  ultimately show ?thesis
    by (simp add: Main_onMarkerFocus_content_open)
qed

section \<open>The invariant of a content bundle\<close>

lemma nontask_keys_subset: "nontask_keys b \<subseteq> dom (trackingMap b)"
  by (auto simp: nontask_keys_def)

lemma bundle_inv_mono: "bundle_inv n b \<Longrightarrow> n \<le> m \<Longrightarrow> bundle_inv m b"
  unfolding bundle_inv_def by (meson less_le_trans)

lemma bundle_inv_empty:
  "bundle_inv n \<lparr>instances = [], trackingMap = Map.empty, listeners = []\<rparr>"
  by (simp add: bundle_inv_def nontask_keys_def task_indices_def)

lemma isInstanceTask_reset [simp]:
  "isInstanceTask (Some (case inst_resetTask i of
       None \<Rightarrow> i | Some f \<Rightarrow> i\<lparr>inst_state := f (inst_state i)\<rparr>)) = isInstanceTask (Some i)"
  by (cases "inst_resetTask i"; cases "inst_isTask i") (simp_all add: isInstanceTask_def)

lemma bundle_inv_add_task:
  assumes inv: "bundle_inv n b" and task: "isInstanceTask (Some inst)"
  shows "bundle_inv (Suc n)
     (b\<lparr>listeners := listeners b @ [(length (instances b), n)],
        instances := instances b @ [inst]\<rparr>)"
proof -
  let ?b = "b\<lparr>listeners := listeners b @ [(length (instances b), n)],
        instances := instances b @ [inst]\<rparr>"
  from inv have fresh: "n \<notin> dom (trackingMap b)" "n \<notin> task_indices b"
    by (auto simp: bundle_inv_def)
  have keys: "nontask_keys ?b = nontask_keys b"
    by (simp add: nontask_keys_def)
  have tasks: "task_indices ?b = insert n (task_indices b)"
    by (auto simp: task_indices_def)
  have "n \<notin> nontask_keys b"
    using fresh(1) nontask_keys_subset by blast
  moreover have "n \<notin> snd ` set (listeners b)"
    using fresh(2) by (simp add: task_indices_def)
  moreover have "\<forall>l \<in> set (listeners b). fst l < length (instances b)
      \<and> isInstanceTask (Some (instances b ! fst l))"
    using inv by (simp add: bundle_inv_def)
  ultimately show ?thesis
    using inv task unfolding bundle_inv_def keys tasks
    by (auto simp: nth_append less_Suc_eq)
qed

lemma bundle_inv_add_nontask:
  assumes inv: "bundle_inv n b"
  shows "bundle_inv (Suc n)
     (b\<lparr>trackingMap := (trackingMap b)(n \<mapsto>
           \<lparr>isTask = Some False, completed = True, success = True\<rparr>),
        instances := instances b @ [inst]\<rparr>)"
proof -
  let ?b = "b\<lparr>trackingMap := (trackingMap b)(n \<mapsto>
           \<lparr>isTask = Some False, completed = True, success = True\<rparr>),
        instances := instances b @ [inst]\<rparr>"
  from inv have fresh: "n \<notin> dom (trackingMap b)" "n \<notin> task_indices b"
    by (auto simp: bundle_inv_def)
  have keys: "nontask_keys ?b = insert n (nontask_keys b)"
    by (auto simp: nontask_keys_def)
  have tasks: "task_indices ?b = task_indices b"
    by (simp add: task_indices_def)
  have fin: "finite (nontask_keys b)"
    using inv nontask_keys_subset [of b] by (auto simp: bundle_inv_def intro: finite_subset)
  have notin: "n \<notin> nontask_keys b"
    using fresh(1) nontask_keys_subset by blast
  have card: "card (insert n (nontask_keys b)) = Suc (card (nontask_keys b))"
    using fin notin by simp
  have "\<forall>l \<in> set (listeners b). fst l < length (instances b)
      \<and> isInstanceTask (Some (instances b ! fst l))"
    using inv by (simp add: bundle_inv_def)
  then show ?thesis
    using inv fresh card unfolding bundle_inv_def keys tasks
    by (auto simp: nth_append less_Suc_eq)
qed

lemma bundle_inv_addContent:
  "bundle_inv n b \<Longrightarrow> bundle_inv (Suc n) (ContentBundle_addContent nr b c n)"
proof (cases "nr c")
  case None
  assume "bundle_inv n b"
  with None show ?thesis
    by (simp add: ContentBundle_addContent_def bundle_inv_mono)
next
  case (Some inst)
  assume inv: "bundle_inv n b"
  show ?thesis
  proof (cases "isInstanceTask (Some inst)")
    case True
    with Some bundle_inv_add_task [OF inv True] show ?thesis
      by (simp add: ContentBundle_addContent_def Let_def)
  next
    case False
    with Some bundle_inv_add_nontask [OF inv, of inst] show ?thesis
      by (simp add: ContentBundle_addContent_def Let_def)
  qed
qed

lemma bundle_inv_foldl_addContent:
  "bundle_inv n b \<Longrightarrow>
   bundle_inv (n + length cs)
     (foldl (\<lambda>b ic. ContentBundle_addContent nr b (snd ic) (fst ic)) b (enumerate n cs))"
proof (induction cs arbitrary: n b)
  case Nil
  then show ?case by simp
next
  case (Cons c cs)
  from bundle_inv_addContent [OF Cons.prems]
  have "bundle_inv (Suc n) (ContentBundle_addContent nr b c n)" .
  from Cons.IH [OF this] show ?case by simp
qed

lemma bundle_inv_new: "bundle_inv (length cs) (ContentBundle_new nr cs)"
  using bundle_inv_foldl_addContent [OF bundle_inv_empty, of 0 cs nr]
  by (simp add: ContentBundle_new_def)

lemma ContentBundle_onXAPI_fields [simp]:
  "listeners (ContentBundle_onXAPI b i ev) = listeners b"
  "instances (ContentBundle_onXAPI b i ev) = instances b"
  "task_indices (ContentBundle_onXAPI b i ev) = task_indices b"
  by (simp_all add: ContentBundle_onXAPI_def Let_def task_indices_def)

lemma bundle_inv_update:
  assumes inv: "bundle_inv n b" and i: "i \<in> task_indices b" and e: "isTask e = None"
  shows "bundle_inv n (b\<lparr>trackingMap := (trackingMap b)(i \<mapsto> e)\<rparr>)"
proof -
  let ?b = "b\<lparr>trackingMap := (trackingMap b)(i \<mapsto> e)\<rparr>"
  from inv i have notin: "i \<notin> nontask_keys b"
    by (auto simp: bundle_inv_def)
  have keys: "nontask_keys ?b = nontask_keys b"
    using notin e by (auto simp: nontask_keys_def)
  have tasks: "task_indices ?b = task_indices b"
    by (simp add: task_indices_def)
  show ?thesis
    using inv i e unfolding bundle_inv_def keys tasks by auto
qed

lemma bundle_inv_onXAPI:
  "bundle_inv n b \<Longrightarrow> i \<in> task_indices b \<Longrightarrow> bundle_inv n (ContentBundle_onXAPI b i ev)"
  by (simp add: ContentBundle_onXAPI_def Let_def bundle_inv_update)

lemma bundle_inv_foldl_onXAPI:
  "bundle_inv n b \<Longrightarrow> snd ` set ls \<subseteq> task_indices b \<Longrightarrow>
   bundle_inv n
     (foldl (\<lambda>b' l. if fst l = p then ContentBundle_onXAPI b' (snd l) ev else b') b ls)
   \<and> listeners
       (foldl (\<lambda>b' l. if fst l = p then ContentBundle_onXAPI b' (snd l) ev else b') b ls)
     = listeners b"
proof (induction ls arbitrary: b)
  case Nil
  then show ?case by simp
next
  case (Cons l ls)
  let ?b = "if fst l = p then ContentBundle_onXAPI b (snd l) ev else b"
  have inv: "bundle_inv n ?b"
    using Cons.prems by (simp add: bundle_inv_onXAPI)
  have same: "listeners ?b = listeners b" "task_indices ?b = task_indices b"
    by simp_all
  have "snd ` set ls \<subseteq> task_indices ?b"
    using Cons.prems(2) by (simp only: same) simp
  from Cons.IH [OF inv this] same(1) show ?case by simp
qed

lemma bundle_inv_trigger:
  "bundle_inv n b \<Longrightarrow> bundle_inv n (instance_trigger_xAPI b p ev)"
  using bundle_inv_foldl_onXAPI [of n b "listeners b" p ev]
  by (simp add: instance_trigger_xAPI_def task_indices_def)

lemma task_indices_trigger [simp]:
  "task_indices (instance_trigger_xAPI b p ev) = task_indices b"
proof -
  have "listeners (foldl (\<lambda>b' l. if fst l = p then ContentBundle_onXAPI b' (snd l) ev else b')
      b ls) = listeners b" for ls
    by (induction ls arbitrary: b) simp_all
  then show ?thesis
    by (simp add: instance_trigger_xAPI_def task_indices_def)
qed

lemma ContentBundle_reset_fields [simp]:
  "listeners (ContentBundle_reset b) = listeners b"
  "task_indices (ContentBundle_reset b) = task_indices b"
  "length (instances (ContentBundle_reset b)) = length (instances b)"
  by (simp_all add: ContentBundle_reset_def task_indices_def)

lemma trackingMap_reset:
  "trackingMap (ContentBundle_reset b) k =
     (case trackingMap b k of
        None \<Rightarrow> None
      | Some e \<Rightarrow> if isTask e = Some False then Some e else None)"
  by (simp add: ContentBundle_reset_def split: option.splits)

lemma dom_reset: "dom (trackingMap (ContentBundle_reset b)) = nontask_keys b"
  by (auto simp: trackingMap_reset nontask_keys_def split: option.splits if_splits)

lemma nontask_keys_reset [simp]: "nontask_keys (ContentBundle_reset b) = nontask_keys b"
  by (auto simp: trackingMap_reset nontask_keys_def split: option.splits if_splits)

lemma bundle_inv_reset:
  assumes inv: "bundle_inv n b"
  shows "bundle_inv n (ContentBundle_reset b)"
proof -
  have fin: "finite (nontask_keys b)"
    using inv nontask_keys_subset [of b] by (auto simp: bundle_inv_def intro: finite_subset)
  have bound: "\<forall>k \<in> nontask_keys b \<union> task_indices b. k < n"
    using inv nontask_keys_subset [of b] by (auto simp: bundle_inv_def)
  have seeds: "\<forall>k e. trackingMap (ContentBundle_reset b) k = Some e \<longrightarrow> isTask e = Some False \<longrightarrow>
            e = \<lparr>isTask = Some False, completed = True, success = True\<rparr>"
    using inv by (auto simp: bundle_inv_def trackingMap_reset split: option.splits if_splits)
  have insts: "\<forall>l \<in> set (listeners b). fst l < length (instances b)
      \<and> isInstanceTask (Some (instances (ContentBundle_reset b) ! fst l))"
    using inv by (simp add: bundle_inv_def ContentBundle_reset_def)
  show ?thesis
    using inv fin bound seeds insts unfolding bundle_inv_def dom_reset
    by simp
qed

lemma bundle_inv_run: "bundle_inv n b \<Longrightarrow> bundle_inv n (bundle_run b evs)"
proof (induction evs arbitrary: b)
  case Nil
  then show ?case by (simp add: bundle_run_def)
next
  case (Cons ev evs)
  have "bundle_inv n (bundle_step b ev)"
    using Cons.prems by (cases ev) (simp_all add: bundle_inv_trigger bundle_inv_reset)
  from Cons.IH [OF this] show ?case by (simp add: bundle_run_def)
qed

lemma task_indices_run [simp]: "task_indices (bundle_run b evs) = task_indices b"
proof (induction evs arbitrary: b)
  case Nil
  then show ?case by (simp add: bundle_run_def)
next
  case (Cons ev evs)
  have "task_indices (bundle_step b ev) = task_indices b"
    by (cases ev) simp_all
  with Cons.IH [of "bundle_step b ev"] show ?case by (simp add: bundle_run_def)
qed

text \<open>
  With the invariant, a bundle is completed exactly when every task has a record that
  says completed.
\<close>

lemma isCompleted_iff_tasks:
  assumes inv: "bundle_inv n b"
  shows "ContentBundle_isCompleted b \<longleftrightarrow>
     (\<forall>i \<in> task_indices b. \<exists>e. trackingMap b i = Some e \<and> completed e)"
proof -
  let ?D = "dom (trackingMap b)" and ?N = "nontask_keys b" and ?L = "task_indices b"
  let ?T = "?D - ?N"
  from inv have finD: "finite ?D" and sub: "?T \<subseteq> ?L" and disj: "?N \<inter> ?L = {}"
    and count: "card ?N + length (listeners b) = length (instances b)"
    and dist: "distinct (map snd (listeners b))"
    by (simp_all add: bundle_inv_def)
  have NsubD: "?N \<subseteq> ?D" by (rule nontask_keys_subset)
  have finL: "finite ?L" by (simp add: task_indices_def)
  have cardL: "card ?L = length (listeners b)"
    using distinct_card [OF dist] by (simp add: task_indices_def)
  have "?D = ?N \<union> ?T" using NsubD by blast
  moreover have "?N \<inter> ?T = {}" by blast
  moreover have "finite ?N" "finite ?T" using finD NsubD by (auto intro: finite_subset)
  ultimately have cardD: "card ?D = card ?N + card ?T"
    using card_Un_disjoint [of ?N ?T] by simp
  have seeded: "completed (the (trackingMap b k))" if "k \<in> ?N" for k
  proof -
    from that obtain e where e: "trackingMap b k = Some e" "isTask e = Some False"
      by (auto simp: nontask_keys_def)
    from inv have "\<forall>k e. trackingMap b k = Some e \<longrightarrow> isTask e = Some False \<longrightarrow>
            e = \<lparr>isTask = Some False, completed = True, success = True\<rparr>"
      by (simp add: bundle_inv_def)
    with e have "e = \<lparr>isTask = Some False, completed = True, success = True\<rparr>"
      by blast
    with e(1) show ?thesis by simp
  qed
  show ?thesis
  proof
    assume cmpl: "ContentBundle_isCompleted b"
    then have "length (instances b) = card ?D"
      and all: "\<forall>k \<in> ?D. completed (the (trackingMap b k))"
      by (simp_all add: ContentBundle_isCompleted_def)
    with cardD count cardL have "card ?T = card ?L" by simp
    with sub finL have "?T = ?L" by (simp add: card_subset_eq)
    then have LD: "?L \<subseteq> ?D" by blast
    show "\<forall>i \<in> ?L. \<exists>e. trackingMap b i = Some e \<and> completed e"
    proof
      fix i assume "i \<in> ?L"
      with LD have i: "i \<in> ?D" by blast
      then obtain e where e: "trackingMap b i = Some e" by blast
      from all i have "completed (the (trackingMap b i))" by blast
      with e show "\<exists>e. trackingMap b i = Some e \<and> completed e" by simp
    qed
  next
    assume tasks: "\<forall>i \<in> ?L. \<exists>e. trackingMap b i = Some e \<and> completed e"
    then have "?L \<subseteq> ?D" by (auto simp: dom_def)
    with disj have "?L \<subseteq> ?T" by blast
    with sub have TL: "?T = ?L" by blast
    with cardD cardL count have len: "length (instances b) = card ?D" by simp
    have "completed (the (trackingMap b k))" if "k \<in> ?D" for k
    proof (cases "k \<in> ?N")
      case True
      then show ?thesis by (rule seeded)
    next
      case False
      with that TL have "k \<in> ?L" by blast
      with tasks show ?thesis by auto
    qed
    with len show "ContentBundle_isCompleted b"
      by (simp add: ContentBundle_isCompleted_def)
  qed
qed

lemma no_tasks_no_listeners:
  "\<forall>c \<in> set cs. \<not> isInstanceTask (nr c) \<Longrightarrow>
   listeners (foldl (\<lambda>b ic. ContentBundle_addContent nr b (snd ic) (fst ic)) b (enumerate n cs))
     = listeners b"
proof (induction cs arbitrary: n b)
  case Nil
  then show ?case by simp
next
  case (Cons c cs)
  have "listeners (ContentBundle_addContent nr b c n) = listeners b"
    using Cons.prems
    by (cases "nr c") (simp_all add: ContentBundle_addContent_def Let_def)
  with Cons.IH [of "ContentBundle_addContent nr b c n" "Suc n"] Cons.prems
  show ?case by simp
qed


section \<open>Completion, task events and reset of a content bundle\<close>

lemmas bundle_defs =
  ContentBundle_new_def ContentBundle_addContent_def isInstanceTask_def
  ContentBundle_onXAPI_def instance_trigger_xAPI_def ContentBundle_isCompleted_def
  ContentBundle_reset_def bundle_run_def sample_bundle_def sample_event_def
  js_bool_def js_num_def task_indices_def Let_def num_gt_def num_ge_def

lemma bundle_inv_reachable:
  "bundle_inv (length cs) (bundle_run (ContentBundle_new nr cs) evs)"
  using bundle_inv_new by (rule bundle_inv_run)

lemma addContent_seeds:
  "nr c = Some inst \<Longrightarrow> \<not> isInstanceTask (Some inst) \<Longrightarrow>
   trackingMap (ContentBundle_addContent nr b0 c n) n
     = Some \<lparr>isTask = Some False, completed = True, success = True\<rparr>"
  by (simp add: ContentBundle_addContent_def Let_def)

lemma all_nontask_completed:
  assumes "\<forall>c \<in> set cs. \<not> isInstanceTask (nr c)"
  shows "ContentBundle_isCompleted (ContentBundle_new nr cs)"
proof -
  have "listeners (ContentBundle_new nr cs) = []"
    using no_tasks_no_listeners [OF assms, of "\<lparr>instances = [], trackingMap = Map.empty,
      listeners = []\<rparr>" 0]
    by (simp add: ContentBundle_new_def)
  then have "task_indices (ContentBundle_new nr cs) = {}"
    by (simp add: task_indices_def)
  then show ?thesis
    using isCompleted_iff_tasks [OF bundle_inv_new, of nr cs] by simp
qed

text \<open>
  Claim C6. For the bundle the constructor builds, after any events of its instances
  and any resets: \<open>isCompleted\<close> is true exactly when there are as many tracking
  records as instances and every record says completed, which holds exactly when every
  task has a record that says completed; so a task without a record, or with a record
  that says not completed, keeps the bundle from being completed. \<open>addContent\<close> seeds
  the record \<open>{isTask: false, completed: true, success: true}\<close> for an instance that is
  no task, and a bundle without tasks is completed as soon as it is built.
\<close>

theorem bundle_completion:
  "(ContentBundle_isCompleted (bundle_run (ContentBundle_new nr cs) evs) \<longleftrightarrow>
      length (instances (bundle_run (ContentBundle_new nr cs) evs))
        = card (dom (trackingMap (bundle_run (ContentBundle_new nr cs) evs)))
      \<and> (\<forall>k \<in> dom (trackingMap (bundle_run (ContentBundle_new nr cs) evs)).
            completed (the (trackingMap (bundle_run (ContentBundle_new nr cs) evs) k))))
   \<and> (ContentBundle_isCompleted (bundle_run (ContentBundle_new nr cs) evs) \<longleftrightarrow>
        (\<forall>i \<in> task_indices (ContentBundle_new nr cs).
           \<exists>e. trackingMap (bundle_run (ContentBundle_new nr cs) evs) i = Some e \<and> completed e))
   \<and> (\<forall>i \<in> task_indices (ContentBundle_new nr cs).
        trackingMap (bundle_run (ContentBundle_new nr cs) evs) i = None
        \<or> (\<exists>e. trackingMap (bundle_run (ContentBundle_new nr cs) evs) i = Some e
                \<and> \<not> completed e)
        \<longrightarrow> \<not> ContentBundle_isCompleted (bundle_run (ContentBundle_new nr cs) evs))
   \<and> (\<forall>l \<in> set (listeners (ContentBundle_new nr cs)).
        fst l < length (instances (ContentBundle_new nr cs))
        \<and> isInstanceTask (Some (instances (ContentBundle_new nr cs) ! fst l)))
   \<and> (\<forall>b0 c n inst. nr c = Some inst \<longrightarrow> \<not> isInstanceTask (Some inst) \<longrightarrow>
        trackingMap (ContentBundle_addContent nr b0 c n) n
          = Some \<lparr>isTask = Some False, completed = True, success = True\<rparr>)
   \<and> ((\<forall>c \<in> set cs. \<not> isInstanceTask (nr c)) \<longrightarrow>
        ContentBundle_isCompleted (ContentBundle_new nr cs))"
proof -
  let ?b = "bundle_run (ContentBundle_new nr cs) evs"
  let ?T = "task_indices (ContentBundle_new nr cs)"
  have iff: "ContentBundle_isCompleted ?b \<longleftrightarrow>
      (\<forall>i \<in> ?T. \<exists>e. trackingMap ?b i = Some e \<and> completed e)"
    using isCompleted_iff_tasks [OF bundle_inv_reachable, of nr cs evs] by simp
  have blocked: "\<forall>i \<in> ?T.
        trackingMap ?b i = None \<or> (\<exists>e. trackingMap ?b i = Some e \<and> \<not> completed e)
        \<longrightarrow> \<not> ContentBundle_isCompleted ?b"
  proof (intro ballI impI notI)
    fix i
    assume i: "i \<in> ?T"
      and rec: "trackingMap ?b i = None \<or> (\<exists>e. trackingMap ?b i = Some e \<and> \<not> completed e)"
      and cmpl: "ContentBundle_isCompleted ?b"
    from cmpl have "\<forall>i \<in> ?T. \<exists>e. trackingMap ?b i = Some e \<and> completed e"
      by (simp only: iff)
    with i obtain e where "trackingMap ?b i = Some e" "completed e"
      by blast
    with rec show False by auto
  qed
  have tasks: "\<forall>l \<in> set (listeners (ContentBundle_new nr cs)).
        fst l < length (instances (ContentBundle_new nr cs))
        \<and> isInstanceTask (Some (instances (ContentBundle_new nr cs) ! fst l))"
    using bundle_inv_new [of cs nr] by (simp add: bundle_inv_def)
  have dfn: "ContentBundle_isCompleted ?b \<longleftrightarrow>
      length (instances ?b) = card (dom (trackingMap ?b))
      \<and> (\<forall>k \<in> dom (trackingMap ?b). completed (the (trackingMap ?b k)))"
    by (simp add: ContentBundle_isCompleted_def)
  have seed: "\<forall>b0 c n inst. nr c = Some inst \<longrightarrow> \<not> isInstanceTask (Some inst) \<longrightarrow>
        trackingMap (ContentBundle_addContent nr b0 c n) n
          = Some \<lparr>isTask = Some False, completed = True, success = True\<rparr>"
    by (intro allI impI) (rule addContent_seeds)
  have none: "(\<forall>c \<in> set cs. \<not> isInstanceTask (nr c)) \<longrightarrow>
        ContentBundle_isCompleted (ContentBundle_new nr cs)"
    by (intro impI) (rule all_nontask_completed)
  show ?thesis
    apply (rule conjI, rule dfn)
    apply (rule conjI, rule iff)
    apply (rule conjI, rule blocked)
    apply (rule conjI, rule tasks)
    apply (rule conjI, rule seed)
    apply (rule none)
    done
qed

theorem bundle_completion_witness:
  "listeners sample_bundle = [(1, 1)]
   \<and> \<not> ContentBundle_isCompleted sample_bundle
   \<and> \<not> ContentBundle_isCompleted
        (bundle_run sample_bundle [Trigger 1 (sample_event (Some False) None (Some (Finite 3)))])
   \<and> ContentBundle_isCompleted
        (bundle_run sample_bundle
           [Trigger 1 (sample_event (Some False) None (Some (Finite 3))),
            Trigger 1 (sample_event (Some True) None (Some (Finite 10)))])
   \<and> ContentBundle_isCompleted (ContentBundle_new sample_newRunnable [SampleText, SampleBroken])"
proof -
  have tasks: "listeners sample_bundle = [(1, 1)]" "task_indices sample_bundle = {1}"
    by (simp_all add: bundle_defs)
  have r0: "trackingMap sample_bundle 1 = None"
    by (simp add: bundle_defs)
  have r1: "trackingMap (bundle_run sample_bundle
        [Trigger 1 (sample_event (Some False) None (Some (Finite 3)))]) 1
      = Some \<lparr>isTask = None, completed = False, success = False\<rparr>"
    by (simp add: bundle_defs)
  have r2: "trackingMap (bundle_run sample_bundle
        [Trigger 1 (sample_event (Some False) None (Some (Finite 3))),
         Trigger 1 (sample_event (Some True) None (Some (Finite 10)))]) 1
      = Some \<lparr>isTask = None, completed = True, success = True\<rparr>"
    by (simp add: bundle_defs)
  have none: "\<forall>c \<in> set [SampleText, SampleBroken]. \<not> isInstanceTask (sample_newRunnable c)"
    by (simp add: isInstanceTask_def)
  note c0 = bundle_completion [of sample_newRunnable "[SampleText, SampleQuiz, SampleText]" "[]",
      THEN conjunct2, THEN conjunct1, unfolded sample_bundle_def [symmetric]]
  note c1 = bundle_completion [of sample_newRunnable "[SampleText, SampleQuiz, SampleText]"
      "[Trigger 1 (sample_event (Some False) None (Some (Finite 3)))]",
      THEN conjunct2, THEN conjunct1, unfolded sample_bundle_def [symmetric]]
  note c2 = bundle_completion [of sample_newRunnable "[SampleText, SampleQuiz, SampleText]"
      "[Trigger 1 (sample_event (Some False) None (Some (Finite 3))),
        Trigger 1 (sample_event (Some True) None (Some (Finite 10)))]",
      THEN conjunct2, THEN conjunct1, unfolded sample_bundle_def [symmetric]]
  note c3 = bundle_completion [of sample_newRunnable "[SampleText, SampleBroken]" "[]",
      THEN conjunct2, THEN conjunct2, THEN conjunct2, THEN conjunct2, THEN conjunct2]
  have e0: "bundle_run sample_bundle [] = sample_bundle"
    by (simp add: bundle_run_def)
  have "\<not> ContentBundle_isCompleted sample_bundle"
    using c0 r0 unfolding tasks(2) e0 by simp
  moreover have "\<not> ContentBundle_isCompleted
        (bundle_run sample_bundle [Trigger 1 (sample_event (Some False) None (Some (Finite 3)))])"
    using c1 r1 unfolding tasks(2) by simp
  moreover have "ContentBundle_isCompleted
        (bundle_run sample_bundle
           [Trigger 1 (sample_event (Some False) None (Some (Finite 3))),
            Trigger 1 (sample_event (Some True) None (Some (Finite 10)))])"
    using c2 r2 unfolding tasks(2) by simp
  moreover have "ContentBundle_isCompleted (ContentBundle_new sample_newRunnable
      [SampleText, SampleBroken])"
    using c3 none by (rule mp)
  ultimately show ?thesis using tasks(1) by simp
qed

text \<open>
  Claim C2 fails on the code. A task reports \<open>completed\<close> with maximum score 10 and the
  result \<open>{success: true, score: 3, maxScore: 10}\<close>: the record written has success
  false, because the condition of the conditional is \<open>result.success ?? result.maxScore\<close>
  and its value is then \<open>score >= maxScore\<close>. With success absent the record is as the
  claim says.
\<close>

theorem xAPI_success_ignored:
  "trackingMap
     (ContentBundle_onXAPI sample_bundle 1 (sample_event None (Some True) (Some (Finite 3)))) 1
     = Some \<lparr>isTask = None, completed = True, success = False\<rparr>
   \<and> trackingMap
       (ContentBundle_onXAPI sample_bundle 1 (sample_event None None (Some (Finite 10)))) 1
     = Some \<lparr>isTask = None, completed = True, success = True\<rparr>
   \<and> trackingMap
       (ContentBundle_onXAPI sample_bundle 1 (sample_event (Some False) (Some False) None)) 1
     = Some \<lparr>isTask = None, completed = False, success = False\<rparr>"
  by (simp add: bundle_defs)

section \<open>Reset\<close>

lemma reset_idempotent_tracking:
  "trackingMap (ContentBundle_reset (ContentBundle_reset b)) = trackingMap (ContentBundle_reset b)"
  by (rule ext) (simp add: trackingMap_reset split: option.splits)

lemma reset_idempotent:
  assumes "\<forall>i \<in> set (instances b). \<forall>f. inst_resetTask i = Some f \<longrightarrow>
             f (f (inst_state i)) = f (inst_state i)"
  shows "ContentBundle_reset (ContentBundle_reset b) = ContentBundle_reset b"
proof -
  have "map (\<lambda>i. case inst_resetTask i of None \<Rightarrow> i | Some f \<Rightarrow> i\<lparr>inst_state := f (inst_state i)\<rparr>)
      (map (\<lambda>i. case inst_resetTask i of None \<Rightarrow> i | Some f \<Rightarrow> i\<lparr>inst_state := f (inst_state i)\<rparr>)
        (instances b))
    = map (\<lambda>i. case inst_resetTask i of None \<Rightarrow> i | Some f \<Rightarrow> i\<lparr>inst_state := f (inst_state i)\<rparr>)
        (instances b)"
    using assms by (auto split: option.splits)
  then have "instances (ContentBundle_reset (ContentBundle_reset b))
      = instances (ContentBundle_reset b)"
    by (simp add: ContentBundle_reset_def)
  moreover have "listeners (ContentBundle_reset (ContentBundle_reset b))
      = listeners (ContentBundle_reset b)"
    by simp
  ultimately show ?thesis
    using reset_idempotent_tracking [of b] by (intro content_bundle.equality) simp_all
qed

text \<open>
  Claim C7. For the bundle the constructor builds, after any events of its instances
  and any resets, \<open>reset\<close> leaves no record at the index of a task, keeps every record of
  an instance that is no task unchanged (it is the seeded record), keeps no other
  record, and calls \<open>resetTask\<close> on every instance that has it. A second reset leaves
  the tracking map as it is, and leaves the whole bundle as it is when each
  \<open>resetTask\<close> is idempotent on its instance. The reset of the Main component succeeds
  and leaves the open index at -1.
\<close>

theorem bundle_reset:
  "(\<forall>i \<in> task_indices (ContentBundle_new nr cs).
      trackingMap (ContentBundle_reset (bundle_run (ContentBundle_new nr cs) evs)) i = None)
   \<and> (\<forall>k e. trackingMap (bundle_run (ContentBundle_new nr cs) evs) k = Some e \<longrightarrow>
         isTask e = Some False \<longrightarrow>
         trackingMap (ContentBundle_reset (bundle_run (ContentBundle_new nr cs) evs)) k = Some e
         \<and> e = \<lparr>isTask = Some False, completed = True, success = True\<rparr>)
   \<and> (\<forall>k e. trackingMap (ContentBundle_reset (bundle_run (ContentBundle_new nr cs) evs)) k
           = Some e \<longrightarrow>
         trackingMap (bundle_run (ContentBundle_new nr cs) evs) k = Some e
         \<and> isTask e = Some False)
   \<and> length (instances (ContentBundle_reset (bundle_run (ContentBundle_new nr cs) evs)))
       = length (instances (bundle_run (ContentBundle_new nr cs) evs))
   \<and> (\<forall>p < length (instances (bundle_run (ContentBundle_new nr cs) evs)).
         instances (ContentBundle_reset (bundle_run (ContentBundle_new nr cs) evs)) ! p
           = (case inst_resetTask (instances (bundle_run (ContentBundle_new nr cs) evs) ! p) of
                None \<Rightarrow> instances (bundle_run (ContentBundle_new nr cs) evs) ! p
              | Some f \<Rightarrow> (instances (bundle_run (ContentBundle_new nr cs) evs) ! p)
                  \<lparr>inst_state :=
                     f (inst_state (instances (bundle_run (ContentBundle_new nr cs) evs) ! p))\<rparr>))
   \<and> trackingMap (ContentBundle_reset (ContentBundle_reset
         (bundle_run (ContentBundle_new nr cs) evs)))
       = trackingMap (ContentBundle_reset (bundle_run (ContentBundle_new nr cs) evs))
   \<and> ((\<forall>i \<in> set (instances (bundle_run (ContentBundle_new nr cs) evs)).
          \<forall>f. inst_resetTask i = Some f \<longrightarrow> f (f (inst_state i)) = f (inst_state i)) \<longrightarrow>
        ContentBundle_reset (ContentBundle_reset (bundle_run (ContentBundle_new nr cs) evs))
          = ContentBundle_reset (bundle_run (ContentBundle_new nr cs) evs))
   \<and> (\<exists>s'. Main_reset E s = Inr s' \<and> openWaypointContentIndex s' = Finite (- 1))"
proof -
  let ?b = "bundle_run (ContentBundle_new nr cs) evs"
  have inv: "bundle_inv (length cs) ?b"
    by (rule bundle_inv_reachable)
  have absent: "\<forall>i \<in> task_indices (ContentBundle_new nr cs).
      trackingMap (ContentBundle_reset ?b) i = None"
  proof
    fix i assume "i \<in> task_indices (ContentBundle_new nr cs)"
    then have "i \<in> task_indices ?b" by simp
    with inv have "i \<notin> nontask_keys ?b"
      by (auto simp: bundle_inv_def)
    then have "i \<notin> dom (trackingMap (ContentBundle_reset ?b))"
      by (simp add: dom_reset)
    then show "trackingMap (ContentBundle_reset ?b) i = None" by blast
  qed
  have seeds: "\<forall>k e. trackingMap ?b k = Some e \<longrightarrow> isTask e = Some False \<longrightarrow>
            e = \<lparr>isTask = Some False, completed = True, success = True\<rparr>"
    using inv by (simp add: bundle_inv_def)
  have kept: "\<forall>k e. trackingMap ?b k = Some e \<longrightarrow> isTask e = Some False \<longrightarrow>
         trackingMap (ContentBundle_reset ?b) k = Some e
         \<and> e = \<lparr>isTask = Some False, completed = True, success = True\<rparr>"
    using seeds by (simp add: trackingMap_reset)
  have only: "\<forall>k e. trackingMap (ContentBundle_reset ?b) k = Some e \<longrightarrow>
         trackingMap ?b k = Some e \<and> isTask e = Some False"
    by (auto simp: trackingMap_reset split: option.splits if_splits)
  have called: "\<forall>p < length (instances ?b).
         instances (ContentBundle_reset ?b) ! p
           = (case inst_resetTask (instances ?b ! p) of
                None \<Rightarrow> instances ?b ! p
              | Some f \<Rightarrow> (instances ?b ! p)\<lparr>inst_state := f (inst_state (instances ?b ! p))\<rparr>)"
    by (simp add: ContentBundle_reset_def)
  have main: "\<exists>s'. Main_reset E s = Inr s' \<and> openWaypointContentIndex s' = Finite (- 1)"
    using Main_reset_effect [of E s] by blast
  have len: "length (instances (ContentBundle_reset ?b)) = length (instances ?b)"
    by (simp add: ContentBundle_reset_def)
  have twice: "(\<forall>i \<in> set (instances ?b).
          \<forall>f. inst_resetTask i = Some f \<longrightarrow> f (f (inst_state i)) = f (inst_state i)) \<longrightarrow>
        ContentBundle_reset (ContentBundle_reset ?b) = ContentBundle_reset ?b"
    by (intro impI) (rule reset_idempotent)
  show ?thesis
    apply (rule conjI, rule absent)
    apply (rule conjI, rule kept)
    apply (rule conjI, rule only)
    apply (rule conjI, rule len)
    apply (rule conjI, rule called)
    apply (rule conjI, rule reset_idempotent_tracking)
    apply (rule conjI, rule twice)
    apply (rule main)
    done
qed

theorem bundle_reset_witness:
  "task_indices sample_bundle = {1}
   \<and> trackingMap (bundle_run sample_bundle
        [Trigger 1 (sample_event (Some True) None (Some (Finite 10)))]) 1
       = Some \<lparr>isTask = None, completed = True, success = True\<rparr>
   \<and> trackingMap (ContentBundle_reset (bundle_run sample_bundle
        [Trigger 1 (sample_event (Some True) None (Some (Finite 10)))])) 1 = None
   \<and> trackingMap (ContentBundle_reset (bundle_run sample_bundle
        [Trigger 1 (sample_event (Some True) None (Some (Finite 10)))])) 0
       = Some \<lparr>isTask = Some False, completed = True, success = True\<rparr>
   \<and> map inst_state (instances sample_bundle) = [0, 7, 0]
   \<and> map inst_state (instances (ContentBundle_reset sample_bundle)) = [0, 0, 0]
   \<and> ContentBundle_reset (ContentBundle_reset sample_bundle) = ContentBundle_reset sample_bundle"
proof -
  let ?evs = "[Trigger 1 (sample_event (Some True) None (Some (Finite 10)))]"
  note c = bundle_reset [of sample_newRunnable "[SampleText, SampleQuiz, SampleText]" ?evs
      sample_env sample_main, unfolded sample_bundle_def [symmetric]]
  note c0 = bundle_reset [of sample_newRunnable "[SampleText, SampleQuiz, SampleText]" "[]"
      sample_env sample_main, unfolded sample_bundle_def [symmetric]]
  have tasks: "task_indices sample_bundle = {1}"
    by (simp add: bundle_defs)
  have r1: "trackingMap (bundle_run sample_bundle ?evs) 1
       = Some \<lparr>isTask = None, completed = True, success = True\<rparr>"
    by (simp add: bundle_defs)
  have r0: "trackingMap (bundle_run sample_bundle ?evs) 0
       = Some \<lparr>isTask = Some False, completed = True, success = True\<rparr>"
    by (simp add: bundle_defs)
  have states: "map inst_state (instances sample_bundle) = [0, 7, 0]"
    "map inst_state (instances (ContentBundle_reset sample_bundle)) = [0, 0, 0]"
    by (simp_all add: bundle_defs)
  have e0: "bundle_run sample_bundle [] = sample_bundle"
    by (simp add: bundle_run_def)
  have idem: "\<forall>i \<in> set (instances sample_bundle).
          \<forall>f. inst_resetTask i = Some f \<longrightarrow> f (f (inst_state i)) = f (inst_state i)"
    by (simp add: bundle_defs)
  have "1 \<in> task_indices sample_bundle"
    by (simp add: tasks)
  with c [THEN conjunct1]
  have a1: "trackingMap (ContentBundle_reset (bundle_run sample_bundle ?evs)) 1 = None"
    by (rule bspec)
  have "isTask \<lparr>isTask = Some False, completed = True, success = True\<rparr> = Some False"
    by simp
  with c [THEN conjunct2, THEN conjunct1] r0
  have a2: "trackingMap (ContentBundle_reset (bundle_run sample_bundle ?evs)) 0
       = Some \<lparr>isTask = Some False, completed = True, success = True\<rparr>"
    by blast
  from c0 [THEN conjunct2, THEN conjunct2, THEN conjunct2, THEN conjunct2, THEN conjunct2,
      THEN conjunct2, THEN conjunct1, unfolded e0] idem
  have a3: "ContentBundle_reset (ContentBundle_reset sample_bundle)
      = ContentBundle_reset sample_bundle"
    by (rule mp)
  show ?thesis
    using tasks r1 a1 a2 a3 states by simp
qed

end
